(* ===== verification/Vpn_Prelude.thy ===== *)
theory Vpn_Prelude
  imports Main "HOL-Library.Word" "HOL-Library.AList"
begin

text \<open>
  Shared material of the soulvpn development: the machine types the Rust code uses, the
  little-endian codecs of the standard library, \<open>HashMap\<close> as an association list with
  distinct keys (its interface is the locale \<open>hash_map\<close>), time, and the collections of
  simplification rules the component theories extend.
\<close>

named_theorems vpn_defs \<open>definitions of the handlers, unfolded together\<close>
named_theorems vpn_inv \<open>preservation lemmas for the component invariants\<close>

section \<open>Machine types\<close>

type_synonym u8 = "8 word"
type_synonym u16 = "16 word"
type_synonym u32 = "32 word"
type_synonym u64 = "64 word"
type_synonym bytes = "u8 list"

text \<open>
  Time: an \<open>Instant\<close> and a \<open>Duration\<close> are counted in nanoseconds. Subtraction of
  naturals stops at 0, which is what \<open>Instant::duration_since\<close> does (it saturates).
\<close>

type_synonym instant = nat
type_synonym duration = nat

abbreviation nanos_per_sec :: nat where
  "nanos_per_sec \<equiv> 1000000000"

definition from_secs :: "nat \<Rightarrow> duration" where
  "from_secs s = s * nanos_per_sec"

definition as_secs :: "duration \<Rightarrow> nat" where
  "as_secs d = d div nanos_per_sec"

definition duration_since :: "instant \<Rightarrow> instant \<Rightarrow> duration" where
  "duration_since now t = now - t"

lemma as_secs_from_secs [simp]: "as_secs (from_secs s) = s"
  by (simp add: as_secs_def from_secs_def)

lemma duration_since_same [simp]: "duration_since t t = 0"
  by (simp add: duration_since_def)

lemma from_secs_le_iff [simp]: "from_secs a \<le> from_secs b \<longleftrightarrow> a \<le> b"
  by (simp add: from_secs_def)

lemma from_secs_pos_iff [simp]: "0 < from_secs a \<longleftrightarrow> 0 < a"
  by (simp add: from_secs_def)

section \<open>Little-endian codecs\<close>

text \<open>
  \<open>to_le_bytes\<close> and \<open>from_le_bytes\<close> of the unsigned integer types, through the value
  of a byte list read least significant byte first.
\<close>

fun le_value :: "bytes \<Rightarrow> nat" where
  "le_value [] = 0"
| "le_value (b # bs) = unat b + 256 * le_value bs"

fun le_encode :: "nat \<Rightarrow> nat \<Rightarrow> bytes" where
  "le_encode 0 n = []"
| "le_encode (Suc k) n = word_of_nat n # le_encode k (n div 256)"

lemma unat_less: "unat (w :: 'a::len word) < 2 ^ LENGTH('a)"
  by (rule unsigned_less)

lemma unat_u8_less: "unat (b :: u8) < 256"
  using unat_less [of b] by simp

lemma length_le_encode [simp]: "length (le_encode k n) = k"
  by (induction k arbitrary: n) auto

lemma le_value_encode: "le_value (le_encode k n) = n mod 256 ^ k"
proof (induction k arbitrary: n)
  case 0
  then show ?case by simp
next
  case (Suc k)
  have "n mod (256 * 256 ^ k) = n mod 256 + 256 * (n div 256 mod 256 ^ k)"
    by (simp add: mod_mult2_eq)
  then show ?case
    by (simp add: Suc unat_of_nat)
qed

lemma le_encode_value: "le_encode (length bs) (le_value bs) = bs"
proof (induction bs)
  case Nil
  then show ?case by simp
next
  case (Cons b bs)
  have lt: "unat b < 256"
    by (rule unat_u8_less)
  have "unat (word_of_nat (unat b + 256 * le_value bs) :: u8) = unat b"
    by (simp only: unat_of_nat) (simp add: lt)
  then have "word_of_nat (unat b + 256 * le_value bs) = b"
    by (simp only: word_unat_eq_iff)
  moreover have "(unat b + 256 * le_value bs) div 256 = le_value bs"
    using lt by simp
  ultimately show ?case
    using Cons by simp
qed

lemma le_value_bound: "le_value bs < 256 ^ length bs"
proof (induction bs)
  case Nil
  then show ?case by simp
next
  case (Cons b bs)
  have "unat b < 256"
    by (rule unat_u8_less)
  then show ?case
    using Cons by simp
qed

definition u32_to_le :: "u32 \<Rightarrow> bytes" where
  "u32_to_le w = le_encode 4 (unat w)"

definition u32_from_le :: "bytes \<Rightarrow> u32" where
  "u32_from_le bs = word_of_nat (le_value bs)"

definition u64_to_le :: "u64 \<Rightarrow> bytes" where
  "u64_to_le w = le_encode 8 (unat w)"

definition u64_from_le :: "bytes \<Rightarrow> u64" where
  "u64_from_le bs = word_of_nat (le_value bs)"

lemma length_u32_to_le [simp]: "length (u32_to_le w) = 4"
  by (simp add: u32_to_le_def)

lemma length_u64_to_le [simp]: "length (u64_to_le w) = 8"
  by (simp add: u64_to_le_def)

lemma u32_from_to_le [simp]: "u32_from_le (u32_to_le w) = w"
  using unat_less [of w] by (simp add: u32_from_le_def u32_to_le_def le_value_encode)

lemma u64_from_to_le [simp]: "u64_from_le (u64_to_le w) = w"
  using unat_less [of w] by (simp add: u64_from_le_def u64_to_le_def le_value_encode)

lemma u32_to_from_le: "length bs = 4 \<Longrightarrow> u32_to_le (u32_from_le bs) = bs"
  using le_value_bound [of bs] le_encode_value [of bs]
  by (simp add: u32_from_le_def u32_to_le_def unat_of_nat)

lemma u64_to_from_le: "length bs = 8 \<Longrightarrow> u64_to_le (u64_from_le bs) = bs"
  using le_value_bound [of bs] le_encode_value [of bs]
  by (simp add: u64_from_le_def u64_to_le_def unat_of_nat)

text \<open>The first byte on the wire is the low byte of the value.\<close>

lemma le_encode_nth_0: "0 < k \<Longrightarrow> le_encode k n ! 0 = word_of_nat n"
  by (cases k) auto

lemma u32_to_le_nth_0: "u32_to_le w ! 0 = word_of_nat (unat w)"
  unfolding u32_to_le_def by (rule le_encode_nth_0) simp

section \<open>Slices\<close>

text \<open>\<open>&xs[a..b]\<close> for \<open>a \<le> b \<le> xs.len()\<close>; the callers check the bounds first.\<close>

definition byte_range :: "nat \<Rightarrow> nat \<Rightarrow> 'a list \<Rightarrow> 'a list" where
  "byte_range a b xs = take (b - a) (drop a xs)"

lemma byte_range_append_left [simp]:
  "b \<le> length xs \<Longrightarrow> byte_range a b (xs @ ys) = byte_range a b xs"
  by (cases "a \<le> b") (auto simp: byte_range_def)

lemma byte_range_append_right [simp]:
  "length xs \<le> a \<Longrightarrow> byte_range a b (xs @ ys) = byte_range (a - length xs) (b - length xs) ys"
  by (simp add: byte_range_def)

lemma byte_range_all [simp]: "byte_range 0 (length xs) xs = xs"
  by (simp add: byte_range_def)

lemma byte_range_full: "length xs = n \<Longrightarrow> byte_range 0 n xs = xs"
  by (simp add: byte_range_def)

lemma length_byte_range [simp]: "b \<le> length xs \<Longrightarrow> length (byte_range a b xs) = b - a"
  by (simp add: byte_range_def)

section \<open>Hash maps\<close>

text \<open>
  The contract of \<open>std::collections::HashMap\<close> as the program uses it: point lookup,
  insertion that replaces, removal, filtering with \<open>retain\<close>, and a length that counts
  keys. The clients' lemmas are proved from these laws.
\<close>

locale hash_map =
  fixes empty_map :: "'m"
    and get :: "'m \<Rightarrow> 'k \<Rightarrow> 'v option"
    and ins :: "'k \<Rightarrow> 'v \<Rightarrow> 'm \<Rightarrow> 'm"
    and del :: "'k \<Rightarrow> 'm \<Rightarrow> 'm"
    and entries :: "'m \<Rightarrow> ('k \<times> 'v) list"
    and wf :: "'m \<Rightarrow> bool"
  assumes wf_empty: "wf empty_map"
    and get_empty: "get empty_map k = None"
    and wf_ins: "wf m \<Longrightarrow> wf (ins k v m)"
    and get_ins: "get (ins k v m) = (get m)(k \<mapsto> v)"
    and wf_del: "wf m \<Longrightarrow> wf (del k m)"
    and get_del: "wf m \<Longrightarrow> get (del k m) = (get m)(k := None)"
    and entries_iff: "wf m \<Longrightarrow> (k, v) \<in> set (entries m) \<longleftrightarrow> get m k = Some v"
begin

lemma get_ins_same: "get (ins k v m) k = Some v"
  by (simp add: get_ins)

lemma get_ins_other: "k \<noteq> k' \<Longrightarrow> get (ins k v m) k' = get m k'"
  by (simp add: get_ins)

lemma get_del_same: "wf m \<Longrightarrow> get (del k m) k = None"
  by (simp add: get_del)

lemma ran_get_del: "wf m \<Longrightarrow> ran (get (del k m)) \<subseteq> ran (get m)"
  by (auto simp: get_del ran_def split: if_splits)

lemma dom_get_entries: "wf m \<Longrightarrow> dom (get m) = fst ` set (entries m)"
proof -
  assume wf: "wf m"
  have "k \<in> dom (get m) \<longleftrightarrow> (\<exists>v. (k, v) \<in> set (entries m))" for k
    by (auto simp: entries_iff [OF wf])
  then show "dom (get m) = fst ` set (entries m)"
    by force
qed

end

type_synonym ('k, 'v) hashmap = "('k \<times> 'v) list"

abbreviation hm_empty :: "('k, 'v) hashmap" where
  "hm_empty \<equiv> []"

abbreviation hm_get :: "('k, 'v) hashmap \<Rightarrow> 'k \<Rightarrow> 'v option" where
  "hm_get \<equiv> map_of"

abbreviation hm_insert :: "'k \<Rightarrow> 'v \<Rightarrow> ('k, 'v) hashmap \<Rightarrow> ('k, 'v) hashmap" where
  "hm_insert \<equiv> AList.update"

abbreviation hm_remove :: "'k \<Rightarrow> ('k, 'v) hashmap \<Rightarrow> ('k, 'v) hashmap" where
  "hm_remove \<equiv> AList.delete"

definition hm_contains :: "('k, 'v) hashmap \<Rightarrow> 'k \<Rightarrow> bool" where
  "hm_contains m k = (case map_of m k of None \<Rightarrow> False | Some _ \<Rightarrow> True)"

definition hm_wf :: "('k, 'v) hashmap \<Rightarrow> bool" where
  "hm_wf m = distinct (map fst m)"

definition hm_retain :: "('k \<Rightarrow> 'v \<Rightarrow> bool) \<Rightarrow> ('k, 'v) hashmap \<Rightarrow> ('k, 'v) hashmap" where
  "hm_retain p m = filter (\<lambda>(k, v). p k v) m"

interpretation hm: hash_map hm_empty hm_get hm_insert hm_remove "\<lambda>m. m" hm_wf
  by unfold_locales
    (auto simp: hm_wf_def update_conv' delete_conv' distinct_update distinct_delete)

lemma hm_contains_iff [simp]: "hm_contains m k \<longleftrightarrow> map_of m k \<noteq> None"
  by (simp add: hm_contains_def split: option.split)

lemma hm_wf_empty [simp, vpn_inv]: "hm_wf []"
  by (rule hm.wf_empty)

lemma hm_wf_insert [simp, vpn_inv]: "hm_wf m \<Longrightarrow> hm_wf (hm_insert k v m)"
  by (rule hm.wf_ins)

lemma hm_wf_remove [simp, vpn_inv]: "hm_wf m \<Longrightarrow> hm_wf (hm_remove k m)"
  by (rule hm.wf_del)

lemma hm_wf_retain [simp, vpn_inv]: "hm_wf m \<Longrightarrow> hm_wf (hm_retain p m)"
  by (simp add: hm_wf_def hm_retain_def distinct_map_filter)

lemma hm_get_insert: "map_of (hm_insert k v m) k' = (if k' = k then Some v else map_of m k')"
  by (simp add: hm.get_ins)

lemma hm_get_remove: "hm_wf m \<Longrightarrow> map_of (hm_remove k m) k' = (if k' = k then None else map_of m k')"
  by (simp add: hm.get_del)

lemma hm_get_retain:
  "hm_wf m \<Longrightarrow> map_of (hm_retain p m) k
     = (case map_of m k of None \<Rightarrow> None | Some v \<Rightarrow> if p k v then Some v else None)"
proof (induction m)
  case Nil
  then show ?case by (simp add: hm_retain_def)
next
  case (Cons kv m)
  then show ?case
    by (cases kv) (auto simp: hm_retain_def hm_wf_def map_of_eq_None_iff image_iff
      split: option.splits dest: map_of_SomeD)
qed

lemmas hm_simps = hm_get_insert hm_get_remove hm_get_retain

section \<open>Step systems\<close>

text \<open>
  States reachable from an initial one, and the interface under which a property of states is
  an invariant: it holds at the start and every step keeps it.
\<close>

inductive reach :: "('s \<Rightarrow> bool) \<Rightarrow> ('s \<Rightarrow> 's \<Rightarrow> bool) \<Rightarrow> 's \<Rightarrow> bool" for init step where
  reach_init: "init s \<Longrightarrow> reach init step s"
| reach_step: "reach init step s \<Longrightarrow> step s s' \<Longrightarrow> reach init step s'"

locale invariant_system =
  fixes init :: "'s \<Rightarrow> bool"
    and step :: "'s \<Rightarrow> 's \<Rightarrow> bool"
    and inv :: "'s \<Rightarrow> bool"
  assumes inv_init: "init s \<Longrightarrow> inv s"
    and inv_step: "inv s \<Longrightarrow> step s s' \<Longrightarrow> inv s'"
begin

lemma reach_inv: "reach init step s \<Longrightarrow> inv s"
  by (induction rule: reach.induct) (auto intro: inv_init inv_step)

lemma reach_inv_step: "reach init step s \<Longrightarrow> step s s' \<Longrightarrow> inv s \<and> inv s'"
  using reach_inv inv_step by blast

end

end
