(* ===== verification/Rust_Text.thy ===== *)
theory Rust_Text
  imports Vpn_Prelude
begin

text \<open>
  What the program uses of Rust's text library: decimal and hexadecimal printing, integer
  parsing with a radix (\<open>u8::from_str\<close>, \<open>u32::from_str_radix\<close>), \<open>trim\<close>,
  \<open>trim_start_matches\<close>, \<open>split_once\<close>, \<open>split\<close>, \<open>lines\<close> and
  \<open>split_whitespace\<close>. A \<open>str\<close> is its UTF-8 bytes, one \<open>char\<close> per byte.
\<close>

section \<open>Numbers\<close>

fun digits_of :: "nat \<Rightarrow> nat \<Rightarrow> nat list" where
  "digits_of b n = (if b < 2 \<or> n < b then [n] else digits_of b (n div b) @ [n mod b])"

declare digits_of.simps [simp del]

definition digit_char :: "nat \<Rightarrow> char" where
  "digit_char d = char_of (if d < 10 then 48 + d else 87 + d)"

definition show_radix :: "nat \<Rightarrow> nat \<Rightarrow> string" where
  "show_radix b n = map digit_char (digits_of b n)"

abbreviation show_nat :: "nat \<Rightarrow> string" where
  "show_nat \<equiv> show_radix 10"

text \<open>\<open>char::to_digit\<close>.\<close>

definition to_digit :: "nat \<Rightarrow> char \<Rightarrow> nat option" where
  "to_digit radix c =
     (let n = of_char c :: nat;
          d = (if 48 \<le> n \<and> n \<le> 57 then n - 48
               else if 97 \<le> n \<and> n \<le> 122 then n - 87
               else if 65 \<le> n \<and> n \<le> 90 then n - 55
               else radix)
      in if d < radix then Some d else None)"

fun parse_digits :: "nat \<Rightarrow> nat \<Rightarrow> nat \<Rightarrow> string \<Rightarrow> nat option" where
  "parse_digits radix bound acc [] = Some acc"
| "parse_digits radix bound acc (c # cs) =
     (case to_digit radix c of
        None \<Rightarrow> None
      | Some d \<Rightarrow>
          if bound < acc * radix + d then None
          else parse_digits radix bound (acc * radix + d) cs)"

text \<open>
  \<open>from_str_radix\<close> of an unsigned type whose largest value is \<open>bound\<close>: one leading plus
  sign is allowed, an empty digit string, a foreign character and an overflow are errors.
\<close>

definition parse_unsigned :: "nat \<Rightarrow> nat \<Rightarrow> string \<Rightarrow> nat option" where
  "parse_unsigned radix bound s =
     (let t = (case s of [] \<Rightarrow> [] | c # cs \<Rightarrow> if c = CHR ''+'' then cs else s)
      in if t = [] then None else parse_digits radix bound 0 t)"

lemma to_digit_digit_char:
  assumes "d < b" "b \<le> 36"
  shows "to_digit b (digit_char d) = Some d"
proof (cases "d < 10")
  case True
  then show ?thesis using assms by (simp add: digit_char_def to_digit_def of_char_of)
next
  case False
  then show ?thesis using assms by (simp add: digit_char_def to_digit_def of_char_of)
qed

fun digits_value :: "nat \<Rightarrow> nat \<Rightarrow> nat list \<Rightarrow> nat" where
  "digits_value b acc [] = acc"
| "digits_value b acc (d # ds) = digits_value b (acc * b + d) ds"

lemma digits_value_append:
  "digits_value b acc (ds @ es) = digits_value b (digits_value b acc ds) es"
  by (induction ds arbitrary: acc) auto

lemma digits_value_mono: "1 < b \<Longrightarrow> acc \<le> digits_value b acc ds"
proof (induction ds arbitrary: acc)
  case Nil
  then show ?case by simp
next
  case (Cons d ds)
  have "acc \<le> acc * b + d" using Cons.prems by (simp add: trans_le_add1)
  also have "\<dots> \<le> digits_value b (acc * b + d) ds" using Cons by simp
  finally show ?case by simp
qed

lemma digits_of_value: "1 < b \<Longrightarrow> digits_value b 0 (digits_of b n) = n"
proof (induction b n rule: digits_of.induct)
  case (1 b n)
  then show ?case
    by (subst digits_of.simps) (auto simp: digits_value_append)
qed

lemma digits_of_less: "1 < b \<Longrightarrow> d \<in> set (digits_of b n) \<Longrightarrow> d < b"
proof (induction b n rule: digits_of.induct)
  case (1 b n)
  show ?case
  proof (cases "n < b")
    case True
    then show ?thesis using 1 by (simp add: digits_of.simps [of b n])
  next
    case False
    then show ?thesis using 1 by (auto simp: digits_of.simps [of b n])
  qed
qed

lemma digits_of_nonempty [simp]: "digits_of b n \<noteq> []"
  by (subst digits_of.simps) simp

lemma parse_digits_show:
  assumes "1 < b" "b \<le> 36" "\<forall>d \<in> set ds. d < b" "digits_value b acc ds \<le> bound"
  shows "parse_digits b bound acc (map digit_char ds) = Some (digits_value b acc ds)"
  using assms(3,4)
proof (induction ds arbitrary: acc)
  case Nil
  then show ?case by simp
next
  case (Cons d ds)
  have "acc * b + d \<le> bound"
    using digits_value_mono [OF assms(1), of "acc * b + d" ds] Cons.prems(2) by simp
  then show ?case
    using Cons assms(2) by (simp add: to_digit_digit_char)
qed

lemma digit_char_inj_plus: "d < 36 \<Longrightarrow> digit_char d \<noteq> CHR ''+''"
proof
  assume "d < 36" "digit_char d = CHR ''+''"
  then have "of_char (digit_char d) = (43 :: nat)" by simp
  then show False using \<open>d < 36\<close> by (simp add: digit_char_def of_char_of split: if_splits)
qed

lemma parse_unsigned_show:
  assumes "1 < b" "b \<le> 36" "n \<le> bound"
  shows "parse_unsigned b bound (show_radix b n) = Some n"
proof -
  obtain d ds where ds: "digits_of b n = d # ds"
    by (cases "digits_of b n") auto
  have less: "\<forall>d \<in> set (digits_of b n). d < b"
    using digits_of_less [OF assms(1)] by blast
  then have "digit_char d \<noteq> CHR ''+''"
    using ds assms(2) by (intro digit_char_inj_plus) simp
  then have "parse_unsigned b bound (show_radix b n) = parse_digits b bound 0 (show_radix b n)"
    by (simp add: parse_unsigned_def show_radix_def ds)
  also have "\<dots> = Some n"
    using parse_digits_show [OF assms(1,2) less] assms
    by (simp add: show_radix_def digits_of_value)
  finally show ?thesis .
qed

section \<open>White space\<close>

text \<open>
  One leading character with the Unicode property \<open>White_Space\<close>, as its UTF-8 bytes:
  U+0009 to U+000D, U+0020, U+0085, U+00A0, U+1680, U+2000 to U+200A, U+2028, U+2029,
  U+202F, U+205F and U+3000.
\<close>

definition ascii_ws :: "char \<Rightarrow> bool" where
  "ascii_ws c = (let n = of_char c :: nat in 9 \<le> n \<and> n \<le> 13 \<or> n = 32)"

definition ws2 :: "char \<Rightarrow> char \<Rightarrow> bool" where
  "ws2 a b = (of_char a = (0xC2 :: nat) \<and> (of_char b = (0x85 :: nat) \<or> of_char b = (0xA0 :: nat)))"

definition ws3 :: "char \<Rightarrow> char \<Rightarrow> char \<Rightarrow> bool" where
  "ws3 a b c =
     (let x = of_char a :: nat; y = of_char b :: nat; z = of_char c :: nat
      in x = 0xE1 \<and> y = 0x9A \<and> z = 0x80
       \<or> x = 0xE2 \<and> y = 0x80 \<and> (0x80 \<le> z \<and> z \<le> 0x8A \<or> z = 0xA8 \<or> z = 0xA9 \<or> z = 0xAF)
       \<or> x = 0xE2 \<and> y = 0x81 \<and> z = 0x9F
       \<or> x = 0xE3 \<and> y = 0x80 \<and> z = 0x80)"

fun trim_start :: "string \<Rightarrow> string" where
  "trim_start [] = []"
| "trim_start (a # s) =
     (if ascii_ws a then trim_start s
      else case s of
          b # t \<Rightarrow>
            if ws2 a b then trim_start t
            else (case t of c # u \<Rightarrow> if ws3 a b c then trim_start u else a # s | [] \<Rightarrow> a # s)
        | [] \<Rightarrow> a # s)"

text \<open>The same from the end, on the reversed bytes.\<close>

fun trim_end_rev :: "string \<Rightarrow> string" where
  "trim_end_rev [] = []"
| "trim_end_rev (a # s) =
     (if ascii_ws a then trim_end_rev s
      else case s of
          b # t \<Rightarrow>
            if ws2 b a then trim_end_rev t
            else (case t of c # u \<Rightarrow> if ws3 c b a then trim_end_rev u else a # s | [] \<Rightarrow> a # s)
        | [] \<Rightarrow> a # s)"

definition trim :: "string \<Rightarrow> string" where
  "trim s = rev (trim_end_rev (rev (trim_start s)))"

section \<open>Splitting\<close>

text \<open>\<open>str::split_whitespace\<close>: the length of the white-space character at the front, if any,
  and the words in order. A UTF-8 lead byte marks a character boundary.\<close>

fun ws_length :: "string \<Rightarrow> nat" where
  "ws_length [] = 0"
| "ws_length (a # s) =
     (if ascii_ws a then 1
      else case s of
          b # t \<Rightarrow>
            if ws2 a b then 2
            else (case t of c # u \<Rightarrow> if ws3 a b c then 3 else 0 | [] \<Rightarrow> 0)
        | [] \<Rightarrow> 0)"

function split_words :: "string \<Rightarrow> string \<Rightarrow> string list" where
  "split_words cur [] = (if cur = [] then [] else [cur])"
| "split_words cur (a # s) =
     (let n = ws_length (a # s)
      in if n = 0 then split_words (cur @ [a]) s
         else if cur = [] then split_words [] (drop n (a # s))
         else cur # split_words [] (drop n (a # s)))"
  by pat_completeness auto
termination
  by (relation "measure (\<lambda>(cur, s). length s)") (auto simp: diff_less)

definition split_whitespace :: "string \<Rightarrow> string list" where
  "split_whitespace s = split_words [] s"

lemma ws_length_plain:
  "(of_char a :: nat) < 128 \<Longrightarrow> 33 \<le> (of_char a :: nat) \<Longrightarrow> ws_length (a # s) = 0"
  by (auto simp: ascii_ws_def ws2_def ws3_def Let_def split: list.split)

lemma split_words_plain:
  "\<forall>c \<in> set w. 33 \<le> (of_char c :: nat) \<and> of_char c < (128 :: nat) \<Longrightarrow>
   split_words cur (w @ s) = split_words (cur @ w) s"
proof (induction w arbitrary: cur)
  case (Cons a w)
  then show ?case using ws_length_plain [of a "w @ s"] by (simp del: ws_length.simps)
qed simp


fun strip_prefixes :: "char \<Rightarrow> char \<Rightarrow> string \<Rightarrow> string" where
  "strip_prefixes a b (x # y # s) = (if x = a \<and> y = b then strip_prefixes a b s else x # y # s)"
| "strip_prefixes a b s = s"

fun split_once :: "char \<Rightarrow> string \<Rightarrow> (string \<times> string) option" where
  "split_once c [] = None"
| "split_once c (x # s) =
     (if x = c then Some ([], s)
      else case split_once c s of None \<Rightarrow> None | Some (l, r) \<Rightarrow> Some (x # l, r))"

fun split_on :: "char \<Rightarrow> string \<Rightarrow> string list" where
  "split_on c [] = [[]]"
| "split_on c (x # s) =
     (if x = c then [] # split_on c s
      else case split_on c s of [] \<Rightarrow> [[x]] | p # ps \<Rightarrow> (x # p) # ps)"

text \<open>\<open>text.lines().next()\<close>: the first line without its line ending.\<close>

definition first_line :: "string \<Rightarrow> string option" where
  "first_line s =
     (if s = [] then None
      else case split_once (CHR 0x0A) s of
          None \<Rightarrow> Some s
        | Some (l, _) \<Rightarrow>
            Some (if l \<noteq> [] \<and> last l = CHR 0x0D then butlast l else l))"

lemma split_once_append:
  "c \<notin> set l \<Longrightarrow> split_once c (l @ c # r) = Some (l, r)"
  by (induction l) auto

lemma split_on_nonempty [simp]: "split_on c s \<noteq> []"
  by (induction s) (auto split: list.splits)

lemma split_on_single: "c \<notin> set s \<Longrightarrow> split_on c s = [s]"
  by (induction s) auto

lemma split_on_append: "c \<notin> set l \<Longrightarrow> split_on c (l @ c # r) = l # split_on c r"
  by (induction l) auto

lemma trim_plain:
  assumes "33 \<le> (of_char a :: nat) \<and> of_char a < (128 :: nat)"
  shows "trim_start (a # s) = a # s" "trim_end_rev (a # s) = a # s"
  using assms by (auto simp: ascii_ws_def ws2_def ws3_def Let_def split: list.split)

lemma trim_id:
  assumes "\<forall>c \<in> set s. 33 \<le> (of_char c :: nat) \<and> of_char c < (128 :: nat)"
  shows "trim s = s"
proof -
  have st: "trim_start t = t" "trim_end_rev t = t"
    if "\<forall>c \<in> set t. 33 \<le> (of_char c :: nat) \<and> of_char c < (128 :: nat)" for t
    using that trim_plain by (cases t; simp)+
  show ?thesis
    using st(1) [OF assms] st(2) [of "rev s"] assms by (simp add: trim_def)
qed

text \<open>A line with its end.\<close>

lemma trim_newline:
  assumes "\<forall>c \<in> set s. 33 \<le> (of_char c :: nat) \<and> of_char c < (128 :: nat)"
  shows "trim (s @ [CHR 0x0A]) = s"
proof (cases s rule: rev_cases)
  case Nil
  then show ?thesis by (simp add: trim_def ascii_ws_def)
next
  case (snoc t z)
  then obtain a u where a: "s = a # u" by (metis list.exhaust snoc_eq_iff_butlast)
  have "trim_start (s @ [CHR 0x0A]) = s @ [CHR 0x0A]"
    using assms trim_plain(1) [of a "u @ [CHR 0x0A]"] by (simp add: a)
  moreover have "trim_end_rev (rev s) = rev s"
    using assms trim_plain(2) [of z "rev t"] by (simp add: snoc)
  ultimately show ?thesis by (simp add: trim_def ascii_ws_def)
qed

end
