(* ===== verification/Net_Addr.thy ===== *)
theory Net_Addr
  imports Rust_Text
begin

unbundle bit_operations_syntax

text \<open>
  The address types of \<open>std::net\<close> the program uses: \<open>Ipv4Addr\<close> with its conversions to
  and from \<open>u32\<close>, its printing and its parser, \<open>IpAddr\<close> and \<open>SocketAddr\<close> with
  their printing. The netmask arithmetic of \<open>config.rs\<close>, \<open>server.rs\<close> and
  \<open>tun_dev.rs\<close> is built on these.
\<close>

section \<open>IPv4\<close>

datatype ipv4 = Ipv4Addr u8 u8 u8 u8

fun octets :: "ipv4 \<Rightarrow> bytes" where
  "octets (Ipv4Addr a b c d) = [a, b, c, d]"

definition ipv4_to_u32 :: "ipv4 \<Rightarrow> u32" where
  "ipv4_to_u32 ip = word_of_nat (le_value (rev (octets ip)))"

fun ipv4_of_bytes :: "bytes \<Rightarrow> ipv4" where
  "ipv4_of_bytes bs = Ipv4Addr (bs ! 0) (bs ! 1) (bs ! 2) (bs ! 3)"

definition ipv4_of_u32 :: "u32 \<Rightarrow> ipv4" where
  "ipv4_of_u32 w = ipv4_of_bytes (rev (le_encode 4 (unat w)))"

lemma length_octets [simp]: "length (octets ip) = 4"
  by (cases ip) simp

lemma ipv4_of_bytes_octets [simp]: "ipv4_of_bytes (octets ip) = ip"
  by (cases ip) simp

lemma octets_of_bytes: "length bs = 4 \<Longrightarrow> octets (ipv4_of_bytes bs) = bs"
  by (auto simp: eval_nat_numeral length_Suc_conv)

lemma unat_ipv4_to_u32: "unat (ipv4_to_u32 ip) = le_value (rev (octets ip))"
  using le_value_bound [of "rev (octets ip)"] by (simp add: ipv4_to_u32_def unat_of_nat)

lemma ipv4_of_to_u32 [simp]: "ipv4_of_u32 (ipv4_to_u32 ip) = ip"
  using le_encode_value [of "rev (octets ip)"]
  by (simp add: ipv4_of_u32_def unat_ipv4_to_u32 del: ipv4_of_bytes.simps)

lemma ipv4_to_of_u32 [simp]: "ipv4_to_u32 (ipv4_of_u32 w) = w"
proof -
  have "octets (ipv4_of_u32 w) = rev (le_encode 4 (unat w))"
    unfolding ipv4_of_u32_def by (rule octets_of_bytes) simp
  then show ?thesis
    using unat_less [of w] by (simp add: ipv4_to_u32_def le_value_encode)
qed

lemma ipv4_to_u32_inj [simp]: "ipv4_to_u32 a = ipv4_to_u32 b \<longleftrightarrow> a = b"
  by (metis ipv4_of_to_u32)

text \<open>Rust orders addresses by their octets, which is the order of their values.\<close>

instantiation ipv4 :: linorder
begin

definition less_eq_ipv4 :: "ipv4 \<Rightarrow> ipv4 \<Rightarrow> bool" where
  "less_eq_ipv4 a b = (ipv4_to_u32 a \<le> ipv4_to_u32 b)"

definition less_ipv4 :: "ipv4 \<Rightarrow> ipv4 \<Rightarrow> bool" where
  "less_ipv4 a b = (ipv4_to_u32 a < ipv4_to_u32 b)"

instance
  by standard (auto simp: less_eq_ipv4_def less_ipv4_def less_le)

end

subsection \<open>Printing and parsing\<close>

fun show_ipv4 :: "ipv4 \<Rightarrow> string" where
  "show_ipv4 (Ipv4Addr a b c d) =
     show_nat (unat a) @ ''.'' @ show_nat (unat b) @ ''.'' @ show_nat (unat c) @ ''.''
       @ show_nat (unat d)"

text \<open>
  One part of the parser of \<open>Ipv4Addr::from_str\<close>: one to three digits, no leading zero
  unless it is the only digit, and at most 255.
\<close>

definition parse_octet :: "string \<Rightarrow> u8 option" where
  "parse_octet s =
     (if s = [] \<or> 3 < length s \<or> (1 < length s \<and> hd s = CHR ''0'') then None
      else map_option word_of_nat (parse_digits 10 255 0 s))"

definition parse_ipv4_addr :: "string \<Rightarrow> ipv4 option" where
  "parse_ipv4_addr s =
     (case split_on (CHR ''.'') s of
        [p, q, r, t] \<Rightarrow>
          (case (parse_octet p, parse_octet q, parse_octet r, parse_octet t) of
             (Some a, Some b, Some c, Some d) \<Rightarrow> Some (Ipv4Addr a b c d)
           | _ \<Rightarrow> None)
      | _ \<Rightarrow> None)"

lemma digit_char_no_sep:
  "d < 10 \<Longrightarrow> digit_char d \<noteq> CHR ''.'' \<and> digit_char d \<noteq> CHR ''/''"
proof (intro conjI notI)
  assume d: "d < 10"
  show False if "digit_char d = CHR ''.''"
    using d arg_cong [OF that, of "of_char :: char \<Rightarrow> nat"] by (simp add: digit_char_def of_char_of)
  show False if "digit_char d = CHR ''/''"
    using d arg_cong [OF that, of "of_char :: char \<Rightarrow> nat"] by (simp add: digit_char_def of_char_of)
qed

lemma show_nat_no_sep: "CHR ''.'' \<notin> set (show_nat n)" "CHR ''/'' \<notin> set (show_nat n)"
  using digits_of_less [of 10 _ n] digit_char_no_sep by (force simp: show_radix_def)+

lemma show_nat_digits: "c \<in> set (show_nat n) \<Longrightarrow> 33 \<le> (of_char c :: nat) \<and> of_char c < (128 :: nat)"
proof -
  assume "c \<in> set (show_nat n)"
  then obtain d :: nat where "d < 10" "c = char_of (48 + d)"
    using digits_of_less [of 10 _ n] by (auto simp: show_radix_def digit_char_def)
  then show ?thesis by (simp add: of_char_of)
qed

lemma digits_of_small:
  assumes "n < 256"
  shows "length (digits_of 10 n) \<le> 3" and "1 < length (digits_of 10 n) \<Longrightarrow> hd (digits_of 10 n) \<noteq> 0"
proof -
  consider "n < 10" | "10 \<le> n" "n < 100" | "100 \<le> n" by linarith
  then have "length (digits_of 10 n) \<le> 3 \<and> (1 < length (digits_of 10 n) \<longrightarrow> hd (digits_of 10 n) \<noteq> 0)"
  proof cases
    case 1
    then show ?thesis by (simp add: digits_of.simps [of 10 n])
  next
    case 2
    then have "n div 10 < 10" "n div 10 \<noteq> 0" by auto
    then show ?thesis using 2 by (simp add: digits_of.simps [of 10 n] digits_of.simps [of 10 "n div 10"])
  next
    case 3
    then have "n div 10 div 10 < 10" "n div 10 div 10 \<noteq> 0" "\<not> n div 10 < 10" using assms by auto
    then show ?thesis using 3
      by (simp add: digits_of.simps [of 10 n] digits_of.simps [of 10 "n div 10"]
          digits_of.simps [of 10 "n div 10 div 10"])
  qed
  then show "length (digits_of 10 n) \<le> 3" and "1 < length (digits_of 10 n) \<Longrightarrow> hd (digits_of 10 n) \<noteq> 0"
    by auto
qed

lemma digit_char_0_iff: "d < 10 \<Longrightarrow> digit_char d = CHR ''0'' \<longleftrightarrow> d = 0"
proof
  assume "d < 10" "digit_char d = CHR ''0''"
  then have "of_char (digit_char d) = (48 :: nat)" by simp
  then show "d = 0" using \<open>d < 10\<close> by (simp add: digit_char_def of_char_of)
next
  have "CHR ''0'' = char_of (48 :: nat)" by code_simp
  then show "d = 0 \<Longrightarrow> digit_char d = CHR ''0''" by (simp add: digit_char_def)
qed

lemma parse_octet_show: "parse_octet (show_nat (unat (b :: u8))) = Some b"
proof -
  have lt: "unat b < 256" by (rule unat_u8_less)
  have ds: "\<forall>d \<in> set (digits_of 10 (unat b)). d < 10"
    using digits_of_less [of 10] by simp
  have "hd (digits_of 10 (unat b)) < 10" using ds by simp
  then have "\<not> (1 < length (show_nat (unat b)) \<and> hd (show_nat (unat b)) = CHR ''0'')"
    using digits_of_small(2) [OF lt] by (simp add: show_radix_def hd_map digit_char_0_iff)
  moreover have "parse_digits 10 255 0 (show_nat (unat b)) = Some (unat b)"
    using parse_digits_show [of 10, OF _ _ ds, of 0 255] lt
    by (simp add: show_radix_def digits_of_value)
  ultimately show ?thesis
    using digits_of_small(1) [OF lt] by (auto simp: parse_octet_def show_radix_def)
qed

lemma parse_show_ipv4: "parse_ipv4_addr (show_ipv4 ip) = Some ip"
proof (cases ip)
  case (Ipv4Addr a b c d)
  have "split_on (CHR ''.'') (show_ipv4 ip)
      = [show_nat (unat a), show_nat (unat b), show_nat (unat c), show_nat (unat d)]"
    using Ipv4Addr by (simp add: split_on_append split_on_single show_nat_no_sep)
  then show ?thesis
    using Ipv4Addr by (simp add: parse_ipv4_addr_def parse_octet_show)
qed

lemma show_ipv4_no_slash: "CHR ''/'' \<notin> set (show_ipv4 ip)"
  by (cases ip) (simp add: show_nat_no_sep)

lemma show_ipv4_inj [simp]: "show_ipv4 a = show_ipv4 b \<longleftrightarrow> a = b"
  by (metis option.inject parse_show_ipv4)

section \<open>IPv6 and sockets\<close>

datatype ipv6 = Ipv6Addr u16 u16 u16 u16 u16 u16 u16 u16

text \<open>
  Printing: an IPv4-mapped address shows its IPv4 part, otherwise the first longest run of
  at least two zero segments is written as two colons. The fold keeps the longest run so
  far and the current one, each as a start and a length.
\<close>

fun zero_span :: "nat \<Rightarrow> u16 list \<Rightarrow> nat \<times> nat \<Rightarrow> nat \<times> nat \<Rightarrow> nat \<times> nat" where
  "zero_span i [] longest current = longest"
| "zero_span i (s # ss) longest current =
     (if s = 0 then
        let cur = (if snd current = 0 then (i, 1) else (fst current, snd current + 1))
        in zero_span (Suc i) ss (if snd longest < snd cur then cur else longest) cur
      else zero_span (Suc i) ss longest (0, 0))"

fun join_colon :: "u16 list \<Rightarrow> string" where
  "join_colon [] = []"
| "join_colon [s] = show_radix 16 (unat s)"
| "join_colon (s # ss) = show_radix 16 (unat s) @ '':'' @ join_colon ss"

fun show_ipv6 :: "ipv6 \<Rightarrow> string" where
  "show_ipv6 (Ipv6Addr a b c d e f g h) =
     (if a = 0 \<and> b = 0 \<and> c = 0 \<and> d = 0 \<and> e = 0 \<and> f = 0xffff then
        ''::ffff:'' @ show_ipv4 (Ipv4Addr (ucast (drop_bit 8 g)) (ucast g) (ucast (drop_bit 8 h)) (ucast h))
      else
        let ss = [a, b, c, d, e, f, g, h]; (start, len) = zero_span 0 ss (0, 0) (0, 0)
        in if 1 < len then join_colon (take start ss) @ ''::'' @ join_colon (drop (start + len) ss)
           else join_colon ss)"

datatype ip_addr = IpV4 ipv4 | IpV6 ipv6

text \<open>A v6 socket address also carries its flow information and its scope.\<close>

datatype socket_addr = V4 ipv4 u16 | V6 ipv6 u16 u32 u32

fun sock_ip :: "socket_addr \<Rightarrow> ip_addr" where
  "sock_ip (V4 a p) = IpV4 a"
| "sock_ip (V6 a p f s) = IpV6 a"

fun sock_port :: "socket_addr \<Rightarrow> u16" where
  "sock_port (V4 a p) = p"
| "sock_port (V6 a p f s) = p"

fun show_socket_addr :: "socket_addr \<Rightarrow> string" where
  "show_socket_addr (V4 a p) = show_ipv4 a @ '':'' @ show_nat (unat p)"
| "show_socket_addr (V6 a p f s) =
     ''['' @ show_ipv6 a @ (if s = 0 then '''' else ''%'' @ show_nat (unat s)) @ '']:'' @ show_nat (unat p)"

section \<open>Netmasks\<close>

text \<open>
  \<open>u32::MAX << (32 - prefix)\<close> on a \<open>u8\<close> prefix. A release build masks the shift
  amount to its low five bits; a debug build panics when it is 32 or more. The callers only
  pass 1 to 32, where both agree.
\<close>

definition shl_mask :: "u8 \<Rightarrow> u32" where
  "shl_mask prefix = push_bit (unat (32 - prefix) mod 32) (- 1)"

lemma bit_shl_mask:
  assumes "0 < prefix" "prefix \<le> 32"
  shows "bit (shl_mask prefix) i \<longleftrightarrow> 32 - unat prefix \<le> i \<and> i < 32"
proof -
  have "unat (32 - prefix) = 32 - unat prefix" "unat prefix \<noteq> 0"
    using assms by (simp_all add: unat_sub word_neq_0_conv [symmetric] unat_eq_0)
  then show ?thesis by (auto simp: shl_mask_def bit_simps)
qed

text \<open>Evaluation rules for concrete addresses.\<close>

lemma le_encode_4:
  "le_encode 4 n = [word_of_nat n, word_of_nat (n div 256), word_of_nat (n div 256 div 256),
     word_of_nat (n div 256 div 256 div 256)]"
proof -
  have "le_encode (Suc (Suc (Suc (Suc 0)))) n = [word_of_nat n, word_of_nat (n div 256),
      word_of_nat (n div 256 div 256), word_of_nat (n div 256 div 256 div 256)]"
    by (simp only: le_encode.simps)
  moreover have "Suc (Suc (Suc (Suc 0))) = 4" by simp
  ultimately show ?thesis by metis
qed

lemma shl_mask_24: "shl_mask 24 = 0xFFFFFF00"
  by (simp add: shl_mask_def mask_eq_exp_minus_1)

lemmas ipv4_eval = ipv4_of_u32_def ipv4_to_u32_def shl_mask_24 le_encode_4

end
