(* ===== verification/Packet.thy ===== *)
theory Packet
  imports Net_Addr
begin

text \<open>The IPv4 header helpers of \<open>src/src/packet.rs\<close>, and the test packet the source builds.\<close>

definition is_ipv4 :: "bytes \<Rightarrow> bool" where
  "is_ipv4 packet = (20 \<le> length packet \<and> drop_bit 4 (packet ! 0) = 4)"

definition ipv4_src :: "bytes \<Rightarrow> ipv4 option" where
  "ipv4_src packet =
     (if \<not> is_ipv4 packet then None
      else Some (Ipv4Addr (packet ! 12) (packet ! 13) (packet ! 14) (packet ! 15)))"

definition ipv4_dst :: "bytes \<Rightarrow> ipv4 option" where
  "ipv4_dst packet =
     (if \<not> is_ipv4 packet then None
      else Some (Ipv4Addr (packet ! 16) (packet ! 17) (packet ! 18) (packet ! 19)))"

text \<open>\<open>sample_packet\<close> of the tests: a header with the given addresses and nothing else.\<close>

definition sample_packet :: "ipv4 \<Rightarrow> ipv4 \<Rightarrow> bytes" where
  "sample_packet src dst = 0x45 # replicate 11 0 @ octets src @ octets dst"

lemma length_sample_packet [simp]: "length (sample_packet src dst) = 20"
  by (simp add: sample_packet_def)

lemma is_ipv4_sample [simp]: "is_ipv4 (sample_packet src dst)"
  by (simp add: is_ipv4_def sample_packet_def)

lemma is_ipv4_append: "is_ipv4 p \<Longrightarrow> is_ipv4 (p @ rest)"
  by (auto simp: is_ipv4_def nth_append)

lemma ipv4_addrs_sample [simp]:
  "ipv4_src (sample_packet src dst @ rest) = Some src"
  "ipv4_dst (sample_packet src dst @ rest) = Some dst"
  using is_ipv4_append [OF is_ipv4_sample, of src dst rest]
  by (cases src; cases dst; simp add: ipv4_src_def ipv4_dst_def sample_packet_def nth_Cons' nth_append)+

lemma ipv4_src_Some_iff: "(\<exists>a. ipv4_src p = Some a) \<longleftrightarrow> is_ipv4 p"
  by (simp add: ipv4_src_def)

end
