(* ===== verification/Tun_Dev.thy ===== *)
theory Tun_Dev
  imports Net_Addr
begin

text \<open>
  The TUN device, \<open>src/src/tun_dev.rs\<close>: the configuration handed to the crate \<open>tun\<close>,
  whose device creation is a parameter.
\<close>

record tun_config =
  tun_name :: string
  tun_address :: ipv4
  tun_netmask :: ipv4
  tun_mtu :: u16
  tun_up :: bool

definition prefix_to_netmask :: "u8 \<Rightarrow> ipv4" where
  "prefix_to_netmask prefix =
     (if prefix = 0 then Ipv4Addr 0 0 0 0 else ipv4_of_u32 (shl_mask prefix))"

text \<open>\<open>create\<close>: \<open>None\<close> is the error "create TUN" (no CAP_NET_ADMIN).\<close>

definition tun_create ::
  "(tun_config \<Rightarrow> 'd option) \<Rightarrow> string \<Rightarrow> ipv4 \<Rightarrow> u8 \<Rightarrow> u16 \<Rightarrow> 'd option" where
  "tun_create create_as_async name_hint address prefix mtu =
     create_as_async \<lparr>tun_name = name_hint, tun_address = address,
       tun_netmask = prefix_to_netmask prefix, tun_mtu = mtu, tun_up = True\<rparr>"

end
