(* ===== verification/Replay_Window.thy ===== *)
theory Replay_Window
  imports Vpn_Prelude
begin

unbundle bit_operations_syntax

text \<open>
  The sliding replay window of \<open>src/src/crypto.rs\<close>: a highest nonce and sixteen 64-bit
  words, bit 0 of word 0 being the highest nonce and higher offsets older ones. The bit
  loops are translated as loops over the words. \<open>window_nat\<close> reads the words as one
  1024-bit number, on which \<open>shift_left\<close> is a truncated shift, and \<open>seen\<close> reads a
  window as the set of nonces it remembers; \<open>check_and_update\<close> refines the set
  specification \<open>spec_check\<close>. The contract a session relies on is the locale
  \<open>replay_filter\<close>.
\<close>

section \<open>The code\<close>

definition REPLAY_WINDOW :: u64 where
  "REPLAY_WINDOW = 1024"

definition REPLAY_WORDS :: nat where
  "REPLAY_WORDS = unat REPLAY_WINDOW div 64"

record replay_window =
  highest :: u64
  bitmap :: "u64 list"

definition replay_default :: replay_window where
  "replay_default = \<lparr>highest = 0, bitmap = replicate REPLAY_WORDS 0\<rparr>"

text \<open>The loop \<open>for i in (0..REPLAY_WORDS).rev()\<close>, in place, from the top word down.\<close>

fun shift_words :: "nat \<Rightarrow> nat \<Rightarrow> u64 list \<Rightarrow> u64 list" where
  "shift_words word_shift 0 bits = bits"
| "shift_words word_shift (Suc i) bits =
     shift_words word_shift i
       (bits[i := (if word_shift \<le> i then bits ! (i - word_shift) else 0)])"

text \<open>The loop \<open>for w in bits.iter_mut()\<close> with its carry.\<close>

fun shift_carry :: "nat \<Rightarrow> u64 \<Rightarrow> u64 list \<Rightarrow> u64 list" where
  "shift_carry bit_shift carry [] = []"
| "shift_carry bit_shift carry (w # ws) =
     (push_bit bit_shift w OR carry)
       # shift_carry bit_shift (drop_bit (64 - bit_shift) w) ws"

definition shift_left :: "u64 list \<Rightarrow> nat \<Rightarrow> u64 list" where
  "shift_left bits shift =
     (if shift = 0 then bits
      else if unat REPLAY_WINDOW \<le> shift then replicate REPLAY_WORDS 0
      else
        let word_shift = shift div 64;
            bit_shift = shift mod 64;
            bits1 = (if 0 < word_shift then shift_words word_shift REPLAY_WORDS bits else bits)
        in if 0 < bit_shift then shift_carry bit_shift 0 bits1 else bits1)"

definition test_bit :: "u64 list \<Rightarrow> nat \<Rightarrow> bool" where
  "test_bit bits offset =
     (let word = offset div 64; b = offset mod 64
      in if REPLAY_WORDS \<le> word then False
         else (bits ! word) AND (push_bit b 1) \<noteq> 0)"

definition set_bit_at :: "u64 list \<Rightarrow> nat \<Rightarrow> u64 list" where
  "set_bit_at bits offset =
     (let word = offset div 64; b = offset mod 64
      in if word < REPLAY_WORDS then bits[word := (bits ! word) OR (push_bit b 1)] else bits)"

definition check_and_update :: "replay_window \<Rightarrow> u64 \<Rightarrow> bool \<times> replay_window" where
  "check_and_update self nonce =
     (if highest self < nonce then
        let shift = nonce - highest self;
            bits = (if REPLAY_WINDOW \<le> shift then replicate REPLAY_WORDS 0
                    else shift_left (bitmap self) (unat shift))
        in (True, self\<lparr>highest := nonce, bitmap := set_bit_at bits 0\<rparr>)
      else
        let offset = highest self - nonce
        in if REPLAY_WINDOW \<le> offset then (False, self)
           else if test_bit (bitmap self) (unat offset) then (False, self)
           else (True, self\<lparr>bitmap := set_bit_at (bitmap self) (unat offset)\<rparr>))"

text \<open>Feeding a sequence of nonces, collecting the answers.\<close>

fun check_all :: "replay_window \<Rightarrow> u64 list \<Rightarrow> bool list \<times> replay_window" where
  "check_all w [] = ([], w)"
| "check_all w (n # ns) =
     (let (ok, w') = check_and_update w n; (oks, w'') = check_all w' ns in (ok # oks, w''))"

section \<open>Bits of the bitmap\<close>

lemma REPLAY_WINDOW_unat [simp]: "unat REPLAY_WINDOW = 1024"
  by (simp add: REPLAY_WINDOW_def)

lemma REPLAY_WORDS_16 [simp]: "REPLAY_WORDS = 16"
  by (simp add: REPLAY_WORDS_def)

definition replay_wf :: "replay_window \<Rightarrow> bool" where
  "replay_wf w \<longleftrightarrow> length (bitmap w) = REPLAY_WORDS"

lemma length_shift_words [simp]: "length (shift_words s n bits) = length bits"
  by (induction n arbitrary: bits) auto

lemma length_shift_carry [simp]: "length (shift_carry b c bits) = length bits"
  by (induction bits arbitrary: c) auto

lemma length_set_bit_at [simp]: "length (set_bit_at bits off) = length bits"
  by (simp add: set_bit_at_def Let_def)

lemma length_shift_left [simp]:
  "length bits = REPLAY_WORDS \<Longrightarrow> length (shift_left bits s) = REPLAY_WORDS"
  by (simp add: shift_left_def Let_def)

lemma shift_words_nth:
  "n \<le> length bits \<Longrightarrow> i < length bits \<Longrightarrow>
   shift_words s n bits ! i
     = (if i < n then if s \<le> i then bits ! (i - s) else 0 else bits ! i)"
proof (induction n arbitrary: bits)
  case 0
  then show ?case by simp
next
  case (Suc n)
  show ?case
    using Suc.prems by (auto simp: Suc.IH nth_list_update less_Suc_eq)
qed

lemma shift_carry_nth:
  "i < length ws \<Longrightarrow>
   shift_carry b c ws ! i
     = (push_bit b (ws ! i) OR (if i = 0 then c else drop_bit (64 - b) (ws ! (i - 1))))"
proof (induction ws arbitrary: c i)
  case Nil
  then show ?case by simp
next
  case (Cons w ws)
  then show ?case by (cases i) (auto simp: nth_Cons split: nat.splits)
qed

text \<open>A bit of the bitmap at an offset, without the tests of the code.\<close>

definition bit_at :: "u64 list \<Rightarrow> nat \<Rightarrow> bool" where
  "bit_at bits off \<longleftrightarrow> off < 64 * length bits \<and> bit (bits ! (off div 64)) (off mod 64)"

lemma test_bit_iff: "length bits = REPLAY_WORDS \<Longrightarrow> test_bit bits off \<longleftrightarrow> bit_at bits off"
  unfolding test_bit_def bit_at_def Let_def by (auto simp: and_exp_eq_0_iff_not_bit)

lemma bit_at_set_bit_at:
  assumes "length bits = REPLAY_WORDS" "off < 1024"
  shows "bit_at (set_bit_at bits off) i \<longleftrightarrow> i = off \<or> bit_at bits i"
proof (cases "i div 64 = off div 64")
  case True
  have "i = off \<longleftrightarrow> i mod 64 = off mod 64"
    using True by (metis div_mult_mod_eq)
  moreover have "i < 1024" if "i div 64 < 16"
    using that by simp
  ultimately show ?thesis
    using assms True
    by (auto simp: bit_at_def set_bit_at_def Let_def bit_simps less_mult_imp_div_less)
next
  case False
  then show ?thesis
    using assms by (auto simp: bit_at_def set_bit_at_def Let_def nth_list_update)
qed

lemma bit_at_zero [simp]: "\<not> bit_at (replicate n 0) i"
  by (simp add: bit_at_def less_mult_imp_div_less)

text \<open>Offsets split into a word and a bit.\<close>

lemma bit_at_split: "r < 64 \<Longrightarrow> bit_at ws (64 * q + r) \<longleftrightarrow> q < length ws \<and> bit (ws ! q) r"
  by (auto simp: bit_at_def)

lemma bit_at_split_back:
  assumes "r < 64" "b \<le> r"
  shows "bit_at ws (64 * q + r - b) \<longleftrightarrow> q < length ws \<and> bit (ws ! q) (r - b)"
  using assms bit_at_split [of "r - b" ws q] by simp

lemma bit_at_split_borrow:
  assumes "r < b" "b < 64"
  shows "bit_at ws (64 * Suc q + r - b) \<longleftrightarrow> q < length ws \<and> bit (ws ! q) (64 - b + r)"
proof -
  have "64 * Suc q + r = (64 * q + (64 - b + r)) + b" using assms(2) by simp
  then have eq: "64 * Suc q + r - b = 64 * q + (64 - b + r)" by (metis diff_add_inverse2)
  have "64 - b + r < 64" using assms by arith
  then show ?thesis unfolding eq by (rule bit_at_split)
qed

text \<open>\<open>shift_left\<close> moves every bit up by the shift and drops what passes offset 1023.\<close>

lemma bit_at_shift_carry_split:
  assumes "0 < b" "b < 64" "q < length ws" "r < 64"
  shows "bit_at (shift_carry b 0 ws) (64 * q + r) \<longleftrightarrow> b \<le> 64 * q + r \<and> bit_at ws (64 * q + r - b)"
proof (cases "b \<le> r")
  case True
  have "\<not> bit (drop_bit (64 - b) w) r" for w :: u64
    using True assms(2) by (auto simp: bit_simps dest: bit_imp_le_length)
  then show ?thesis
    using True assms
    by (simp add: bit_at_split bit_at_split_back shift_carry_nth) (simp add: bit_simps)
next
  case False
  show ?thesis
  proof (cases q)
    case 0
    then show ?thesis
      using False assms by (simp add: bit_at_def shift_carry_nth bit_simps)
  next
    case (Suc p)
    have "\<not> bit (push_bit b w) r" for w :: u64
      using False by (simp add: bit_simps)
    moreover have "b \<le> 64 * Suc p + r" using assms by simp
    moreover have "bit_at ws (64 * Suc p + r - b) \<longleftrightarrow> bit (ws ! p) (64 - b + r)"
      using False assms Suc bit_at_split_borrow [of r b ws p] by simp
    moreover have "bit_at (shift_carry b 0 ws) (64 * Suc p + r)
        \<longleftrightarrow> bit (push_bit b (ws ! Suc p) OR drop_bit (64 - b) (ws ! p)) r"
      using assms Suc bit_at_split [of r "shift_carry b 0 ws" "Suc p"]
      by (simp add: shift_carry_nth)
    ultimately show ?thesis
      using Suc by (simp only: bit_or_iff bit_drop_bit_eq o_def simp_thms)
  qed
qed

lemma bit_at_shift_carry:
  assumes "0 < b" "b < 64" "i < 64 * length ws"
  shows "bit_at (shift_carry b 0 ws) i \<longleftrightarrow> b \<le> i \<and> bit_at ws (i - b)"
  using bit_at_shift_carry_split [of b "i div 64" ws "i mod 64"] assms
  by (simp add: less_mult_imp_div_less)

lemma bit_at_shift_words:
  assumes "length bits = n" "i < 64 * n"
  shows "bit_at (shift_words s n bits) i \<longleftrightarrow> 64 * s \<le> i \<and> bit_at bits (i - 64 * s)"
proof -
  define q r where "q = i div 64" and "r = i mod 64"
  have i: "i = 64 * q + r" and r: "r < 64" and q: "q < n"
    using assms(2) by (simp_all add: q_def r_def less_mult_imp_div_less)
  show ?thesis
  proof (cases "s \<le> q")
    case True
    have "64 * q + r - 64 * s = 64 * (q - s) + r" using True by (simp add: diff_mult_distrib2)
    then have "bit_at bits (i - 64 * s) \<longleftrightarrow> bit (bits ! (q - s)) r"
      using q r assms(1) unfolding i by (simp only: bit_at_split) auto
    then show ?thesis
      using True q r assms(1) unfolding i
      by (simp only: bit_at_split length_shift_words) (simp add: shift_words_nth)
  next
    case False
    then have "\<not> 64 * s \<le> 64 * q + r" using r by simp
    then show ?thesis
      using False q r assms(1) unfolding i
      by (simp only: bit_at_split length_shift_words) (simp add: shift_words_nth)
  qed
qed

lemma bit_at_shift_left:
  assumes "length bits = REPLAY_WORDS" "i < 1024"
  shows "bit_at (shift_left bits s) i \<longleftrightarrow> s \<le> i \<and> bit_at bits (i - s)"
proof (cases "s = 0 \<or> 1024 \<le> s")
  case True
  then show ?thesis using assms by (auto simp: shift_left_def)
next
  case False
  define b1 where "b1 = (if 0 < s div 64 then shift_words (s div 64) REPLAY_WORDS bits else bits)"
  have len: "length b1 = 16" using assms(1) by (simp add: b1_def)
  have b1: "bit_at b1 j \<longleftrightarrow> 64 * (s div 64) \<le> j \<and> bit_at bits (j - 64 * (s div 64))"
    if "j < 1024" for j
    using that assms(1) by (simp add: b1_def bit_at_shift_words)
  have sl: "shift_left bits s = (if 0 < s mod 64 then shift_carry (s mod 64) 0 b1 else b1)"
    using False by (simp add: shift_left_def b1_def Let_def)
  have s: "s = 64 * (s div 64) + s mod 64" by simp
  show ?thesis
  proof (cases "0 < s mod 64")
    case True
    have "bit_at (shift_left bits s) i \<longleftrightarrow> s mod 64 \<le> i \<and> bit_at b1 (i - s mod 64)"
      unfolding sl using True len assms(2) by (simp add: bit_at_shift_carry)
    also have "\<dots> \<longleftrightarrow> s mod 64 \<le> i \<and> 64 * (s div 64) \<le> i - s mod 64
        \<and> bit_at bits (i - s mod 64 - 64 * (s div 64))"
      using b1 [of "i - s mod 64"] assms(2) by simp
    also have "\<dots> \<longleftrightarrow> s \<le> i \<and> bit_at bits (i - s)"
    proof -
      have "s mod 64 \<le> i \<and> 64 * (s div 64) \<le> i - s mod 64 \<longleftrightarrow> s \<le> i" using s by linarith
      moreover have "i - s mod 64 - 64 * (s div 64) = i - s" using s by linarith
      ultimately show ?thesis by metis
    qed
    finally show ?thesis .
  next
    case no_bits: False
    then show ?thesis unfolding sl using b1 [OF assms(2)] s by simp
  qed
qed

section \<open>The bitmap as one number\<close>

fun window_nat :: "u64 list \<Rightarrow> nat" where
  "window_nat [] = 0"
| "window_nat (w # ws) = unat w + 2 ^ 64 * window_nat ws"

lemma bit_window_nat: "bit (window_nat ws) i \<longleftrightarrow> bit_at ws i"
proof (induction ws arbitrary: i)
  case Nil
  then show ?case by (simp add: bit_at_def)
next
  case (Cons w ws)
  have "unat w < 2 ^ 64"
    using unat_less [of w] by simp
  then have tb: "take_bit 64 (unat w) = unat w"
    by (simp add: take_bit_nat_eq_self_iff)
  have "window_nat (w # ws) = unat w OR push_bit 64 (window_nat ws)"
  proof -
    have "unat w AND push_bit 64 (window_nat ws) = 0"
      by (rule bit_eqI, subst tb [symmetric]) (auto simp: bit_simps)
    then show ?thesis
      by (simp add: disjunctive_add_eq_or [symmetric] push_bit_eq_mult)
  qed
  then have b: "bit (window_nat (w # ws)) i \<longleftrightarrow> bit (unat w) i \<or> 64 \<le> i \<and> bit (window_nat ws) (i - 64)"
    by (simp add: bit_or_iff bit_push_bit_iff)
  show ?case
  proof (cases "i < 64")
    case True
    then show ?thesis using b by (simp add: bit_at_def bit_simps)
  next
    case False
    then have "\<not> bit (unat w) i" by (subst tb [symmetric]) (simp add: bit_take_bit_iff)
    moreover have "i div 64 = Suc ((i - 64) div 64)" "i mod 64 = (i - 64) mod 64"
      using False by (simp_all add: le_div_geq le_mod_geq)
    ultimately show ?thesis
      using b False Cons.IH [of "i - 64"] by (auto simp: bit_at_def)
  qed
qed

section \<open>The set specification\<close>

definition seen :: "replay_window \<Rightarrow> u64 set" where
  "seen w = {n. n \<le> highest w \<and> bit_at (bitmap w) (unat (highest w - n))}"

definition spec_check :: "u64 \<times> u64 set \<Rightarrow> u64 \<Rightarrow> bool \<times> (u64 \<times> u64 set)" where
  "spec_check s n = (case s of (hi, recent) \<Rightarrow>
     if n \<in> recent \<or> 1024 \<le> unat hi - unat n then (False, (hi, recent))
     else (True, (max hi n, insert n {m \<in> recent. unat (max hi n) - unat m < 1024})))"

definition replay_abs :: "replay_window \<Rightarrow> u64 \<times> u64 set" where
  "replay_abs w = (highest w, seen w)"

lemma word_diff_unat: "n \<le> (h :: u64) \<Longrightarrow> unat (h - n) = unat h - unat n"
  by (simp add: unat_sub)

lemma word_less_eq_diff_window: "REPLAY_WINDOW \<le> d \<longleftrightarrow> 1024 \<le> unat d"
  by (simp add: word_le_nat_alt)

lemma seen_bounds:
  assumes "replay_wf w" "n \<in> seen w"
  shows "n \<le> highest w" "unat (highest w) - unat n < 1024"
  using assms by (auto simp: seen_def replay_wf_def bit_at_def word_diff_unat)

lemma seen_set_bit:
  assumes "replay_wf w" "n \<le> highest w" "unat (highest w) - unat n < 1024"
  shows "seen (w\<lparr>bitmap := set_bit_at (bitmap w) (unat (highest w - n))\<rparr>) = insert n (seen w)"
proof -
  have "unat (highest w - m) = unat (highest w - n) \<longleftrightarrow> m = n" for m
    unfolding word_unat_eq_iff [symmetric] by simp
  then show ?thesis
    using assms by (auto simp: seen_def replay_wf_def bit_at_set_bit_at word_diff_unat)
qed

lemma seen_slide:
  assumes wf: "replay_wf w" and gt: "highest w < n"
    and bits: "length bits = REPLAY_WORDS"
    and moved: "\<And>i. i < 1024 \<Longrightarrow> bit_at bits i \<longleftrightarrow>
      unat (n - highest w) \<le> i \<and> bit_at (bitmap w) (i - unat (n - highest w))"
  shows "seen (w\<lparr>highest := n, bitmap := set_bit_at bits 0\<rparr>)
    = insert n {m \<in> seen w. unat n - unat m < 1024}"
proof -
  have d: "unat (n - highest w) = unat n - unat (highest w)" "unat (highest w) < unat n"
    using gt by (simp_all add: word_diff_unat order.strict_implies_order word_less_nat_alt [symmetric])
  have zero: "unat (n - m) = 0 \<longleftrightarrow> m = n" for m
    by (metis eq_iff_diff_eq_0 unat_eq_0)
  have old: "m \<le> n \<and> bit_at bits (unat (n - m)) \<longleftrightarrow> m \<in> seen w \<and> unat n - unat m < 1024" for m
  proof (cases "m \<le> n \<and> unat n - unat m < 1024")
    case True
    then have mn: "unat m \<le> unat n" "unat (n - m) = unat n - unat m"
      by (simp_all add: word_diff_unat word_le_nat_alt)
    have "bit_at bits (unat (n - m)) \<longleftrightarrow> unat n - unat (highest w) \<le> unat n - unat m \<and>
        bit_at (bitmap w) (unat n - unat m - (unat n - unat (highest w)))"
      using moved [of "unat (n - m)"] True mn d by simp
    moreover have "unat n - unat (highest w) \<le> unat n - unat m \<longleftrightarrow> m \<le> highest w"
      using d mn by (auto simp: word_le_nat_alt)
    moreover have "unat n - unat m - (unat n - unat (highest w)) = unat (highest w - m)"
      if "m \<le> highest w"
      using that d mn by (simp add: word_diff_unat word_le_nat_alt)
    ultimately show ?thesis using True by (auto simp: seen_def)
  next
    case False
    have "m \<le> n" if "m \<in> seen w"
      using that gt by (auto simp: seen_def)
    moreover have "unat n - unat m < 1024" if "m \<le> n" "bit_at bits (unat (n - m))"
      using that bits by (auto simp: bit_at_def word_diff_unat)
    ultimately show ?thesis using False by blast
  qed
  show ?thesis
    unfolding seen_def using old bits
    by (auto simp: bit_at_set_bit_at zero seen_def)
qed

section \<open>The contract of a replay filter\<close>

text \<open>
  What a receiver relies on: a filter with a highest nonce and a set of recent ones accepts
  exactly the nonces that are not recent and not too old, and remembers what it accepted.
  From this alone, a nonce is accepted at most once over any run, and a fresh nonce that
  is not too old is always accepted. \<open>tracks A w\<close> says that \<open>A\<close> is the set of
  nonces accepted so far.
\<close>

locale replay_filter =
  fixes init :: "'w"
    and check :: "'w \<Rightarrow> u64 \<Rightarrow> bool \<times> 'w"
    and newest :: "'w \<Rightarrow> u64"
    and recent :: "'w \<Rightarrow> u64 set"
    and wf :: "'w \<Rightarrow> bool"
    and width :: nat
  assumes wf_init: "wf init"
    and newest_init: "newest init = 0"
    and recent_init: "recent init = {}"
    and wf_check: "wf w \<Longrightarrow> wf (snd (check w n))"
    and accepts: "wf w \<Longrightarrow> fst (check w n) \<longleftrightarrow> n \<notin> recent w \<and> unat (newest w) - unat n < width"
    and rejected: "wf w \<Longrightarrow> \<not> fst (check w n) \<Longrightarrow> snd (check w n) = w"
    and newest_accept: "wf w \<Longrightarrow> fst (check w n) \<Longrightarrow> newest (snd (check w n)) = max (newest w) n"
    and recent_accept: "wf w \<Longrightarrow> fst (check w n) \<Longrightarrow>
      recent (snd (check w n)) = insert n {m \<in> recent w. unat (max (newest w) n) - unat m < width}"
begin

definition tracks :: "u64 set \<Rightarrow> 'w \<Rightarrow> bool" where
  "tracks A w \<longleftrightarrow> wf w \<and> (\<forall>m \<in> A. m \<le> newest w)
     \<and> recent w = {m \<in> A. unat (newest w) - unat m < width}"

lemma tracks_init: "tracks {} init"
  by (simp add: tracks_def wf_init recent_init)

lemma tracks_reject: "tracks A w \<Longrightarrow> \<not> fst (check w n) \<Longrightarrow> tracks A (snd (check w n))"
  by (simp add: tracks_def rejected)

lemma tracks_accept:
  assumes "tracks A w" "fst (check w n)"
  shows "tracks (insert n A) (snd (check w n))"
proof -
  from assms(1) have wf: "wf w" by (simp add: tracks_def)
  have mono: "unat (newest w) \<le> unat (max (newest w) n)"
    by (simp add: word_le_nat_alt [symmetric])
  have "unat (max (newest w) n) - unat n < width"
    using accepts [OF wf, of n] assms(2)
    by (auto simp: max_def)
  moreover have "unat (newest w) - unat m < width"
    if "unat (max (newest w) n) - unat m < width" for m
    using that mono by linarith
  ultimately show ?thesis
    using assms
    by (auto simp: tracks_def wf_check newest_accept recent_accept max.coboundedI1)
qed

lemma tracks_accepts_iff:
  "tracks A w \<Longrightarrow> fst (check w n) \<longleftrightarrow> n \<notin> A \<and> unat (newest w) - unat n < width"
  by (auto simp: tracks_def accepts)

lemma tracks_no_replay: "tracks A w \<Longrightarrow> n \<in> A \<Longrightarrow> \<not> fst (check w n)"
  by (simp add: tracks_accepts_iff)

lemma tracks_stale:
  assumes "tracks A w" "m \<in> A" "unat n + width \<le> unat m"
  shows "\<not> fst (check w n)"
proof -
  have "unat m \<le> unat (newest w)"
    using assms(1,2) by (auto simp: tracks_def word_le_nat_alt)
  then have "\<not> unat (newest w) - unat n < width"
    using assms(3) by linarith
  then show ?thesis
    using tracks_accepts_iff [OF assms(1)] by blast
qed

end

section \<open>The window is a replay filter\<close>

lemma replay_wf_default [simp, vpn_inv]: "replay_wf replay_default"
  by (simp add: replay_wf_def replay_default_def)

lemma replay_wf_check [vpn_inv]: "replay_wf w \<Longrightarrow> replay_wf (snd (check_and_update w n))"
  by (auto simp: replay_wf_def check_and_update_def Let_def)

lemma seen_default [simp]: "seen replay_default = {}"
  by (simp add: seen_def replay_default_def)

lemma check_newer:
  assumes "replay_wf w" "highest w < n"
  shows "fst (check_and_update w n)"
    and "replay_abs (snd (check_and_update w n))
      = (n, insert n {m \<in> seen w. unat n - unat m < 1024})"
proof -
  let ?s = "n - highest w"
  let ?bits = "if REPLAY_WINDOW \<le> ?s then replicate REPLAY_WORDS 0 else shift_left (bitmap w) (unat ?s)"
  have "length ?bits = REPLAY_WORDS"
    using assms(1) by (simp add: replay_wf_def)
  moreover have "bit_at ?bits i \<longleftrightarrow> unat ?s \<le> i \<and> bit_at (bitmap w) (i - unat ?s)" if "i < 1024" for i
    using that assms(1)
    by (auto simp: word_less_eq_diff_window replay_wf_def bit_at_shift_left)
  ultimately have "seen (w\<lparr>highest := n, bitmap := set_bit_at ?bits 0\<rparr>)
      = insert n {m \<in> seen w. unat n - unat m < 1024}"
    by (rule seen_slide [OF assms])
  then show "fst (check_and_update w n)" and "replay_abs (snd (check_and_update w n))
      = (n, insert n {m \<in> seen w. unat n - unat m < 1024})"
    using assms(2) by (simp_all add: check_and_update_def Let_def replay_abs_def)
qed

lemma check_older:
  assumes "replay_wf w" "\<not> highest w < n"
  shows "fst (check_and_update w n) \<longleftrightarrow> n \<notin> seen w \<and> unat (highest w) - unat n < 1024"
    and "fst (check_and_update w n) \<Longrightarrow>
      replay_abs (snd (check_and_update w n)) = (highest w, insert n (seen w))"
    and "\<not> fst (check_and_update w n) \<Longrightarrow> snd (check_and_update w n) = w"
proof -
  have le: "n \<le> highest w" using assms(2) by simp
  have test: "test_bit (bitmap w) (unat (highest w - n)) \<longleftrightarrow> n \<in> seen w"
    using assms(1) le by (simp add: test_bit_iff replay_wf_def seen_def)
  show "fst (check_and_update w n) \<longleftrightarrow> n \<notin> seen w \<and> unat (highest w) - unat n < 1024"
    using assms(2) test word_diff_unat [OF le]
    by (auto simp: check_and_update_def Let_def word_less_eq_diff_window)
  show "replay_abs (snd (check_and_update w n)) = (highest w, insert n (seen w))"
    if "fst (check_and_update w n)"
    using that assms(2) test word_diff_unat [OF le] seen_set_bit [OF assms(1) le]
    by (auto simp: check_and_update_def Let_def word_less_eq_diff_window replay_abs_def
        split: if_splits)
  show "snd (check_and_update w n) = w" if "\<not> fst (check_and_update w n)"
    using that assms(2) by (auto simp: check_and_update_def Let_def split: if_splits)
qed

lemma check_abs:
  assumes "replay_wf w"
  shows "spec_check (replay_abs w) n
    = (fst (check_and_update w n), replay_abs (snd (check_and_update w n)))"
proof (cases "highest w < n")
  case True
  then have "n \<notin> seen w" "max (highest w) n = n"
    by (simp_all add: seen_def max_def not_le less_imp_le)
  moreover have "unat (highest w) - unat n < 1024"
    using True by (simp add: word_less_nat_alt)
  ultimately show ?thesis
    using check_newer [OF assms True]
    by (simp add: spec_check_def replay_abs_def)
next
  case False
  then have "max (highest w) n = highest w"
    by (simp add: max_def)
  moreover have "{m \<in> seen w. unat (highest w) - unat m < 1024} = seen w"
    using seen_bounds(2) [OF assms] by blast
  moreover note older = check_older [OF assms False]
  ultimately show ?thesis
  proof (cases "fst (check_and_update w n)")
    case True
    then have "\<not> (n \<in> seen w \<or> 1024 \<le> unat (highest w) - unat n)"
      using older(1) by linarith
    then show ?thesis
      using older(2) [OF True] True \<open>max (highest w) n = highest w\<close>
        \<open>{m \<in> seen w. unat (highest w) - unat m < 1024} = seen w\<close>
      unfolding spec_check_def replay_abs_def by (simp only: prod.case if_False)
  next
    case rej: False
    then have "n \<in> seen w \<or> 1024 \<le> unat (highest w) - unat n"
      using older(1) by linarith
    then show ?thesis
      using older(3) [OF rej] rej
      unfolding spec_check_def replay_abs_def by (simp only: prod.case if_True)
  qed
qed

interpretation replay_code: replay_filter replay_default check_and_update highest seen replay_wf 1024
proof unfold_locales
  fix w n
  assume wf: "replay_wf w"
  let ?old = "n \<in> seen w \<or> 1024 \<le> unat (highest w) - unat n"
  have no: "\<not> fst (check_and_update w n)" if ?old
    using check_abs [OF wf, of n] that by (simp add: spec_check_def replay_abs_def)
  have yes: "fst (check_and_update w n)"
    "highest (snd (check_and_update w n)) = max (highest w) n"
    "seen (snd (check_and_update w n))
      = insert n {m \<in> seen w. unat (max (highest w) n) - unat m < 1024}" if "\<not> ?old"
    using check_abs [OF wf, of n]
    unfolding replay_abs_def spec_check_def prod.case if_not_P [OF that] prod.inject
    by (blast, metis, metis)
  show "replay_wf (snd (check_and_update w n))" by (rule replay_wf_check [OF wf])
  show "fst (check_and_update w n) \<longleftrightarrow> n \<notin> seen w \<and> unat (highest w) - unat n < 1024"
    using no yes(1) by (meson not_le)
  show "snd (check_and_update w n) = w" if "\<not> fst (check_and_update w n)"
    using check_newer(1) [OF wf] check_older(3) [OF wf] that by blast
  show "highest (snd (check_and_update w n)) = max (highest w) n" if "fst (check_and_update w n)"
    using no yes(2) that by blast
  show "seen (snd (check_and_update w n))
      = insert n {m \<in> seen w. unat (max (highest w) n) - unat m < 1024}"
    if "fst (check_and_update w n)"
    using no yes(3) that by blast
qed (simp_all, simp_all add: replay_default_def)

section \<open>Runs\<close>

definition accepted :: "bool list \<Rightarrow> u64 list \<Rightarrow> u64 list" where
  "accepted oks ns = map snd (filter fst (zip oks ns))"

lemma accepted_simps [simp]:
  "accepted [] ns = []"
  "accepted (b # bs) (n # ns) = (if b then n # accepted bs ns else accepted bs ns)"
  by (simp_all add: accepted_def)

lemma check_all_tracks:
  "replay_code.tracks A w \<Longrightarrow>
   (case check_all w ns of (oks, w') \<Rightarrow>
      distinct (accepted oks ns) \<and> set (accepted oks ns) \<inter> A = {} \<and>
      replay_code.tracks (A \<union> set (accepted oks ns)) w')"
proof (induction ns arbitrary: A w)
  case Nil
  then show ?case by simp
next
  case (Cons n ns)
  obtain ok w1 where c: "check_and_update w n = (ok, w1)" by force
  obtain oks w2 where cs: "check_all w1 ns = (oks, w2)" by force
  show ?case
  proof (cases ok)
    case True
    then have "replay_code.tracks (insert n A) w1" "n \<notin> A"
      using replay_code.tracks_accept [OF Cons.prems, of n]
        replay_code.tracks_no_replay [OF Cons.prems, of n] c by auto
    then show ?thesis
      using Cons.IH [of "insert n A" w1] c cs True by (auto simp: Un_commute)
  next
    case False
    then have "replay_code.tracks A w1"
      using replay_code.tracks_reject [OF Cons.prems, of n] c by simp
    then show ?thesis
      using Cons.IH [of A w1] c cs False by simp
  qed
qed

lemma check_all_length: "length (fst (check_all w ns)) = length ns"
  by (induction ns arbitrary: w) (auto simp: split_def Let_def)

text \<open>A window that has taken the largest nonce refuses every nonce 1024 or more below it.\<close>

lemma replay_window_exhausted:
  assumes "replay_code.tracks A w" "- 1 \<in> A" "\<forall>n \<in> set ns. unat n + 1024 \<le> 2 ^ 64 - 1"
  shows "check_all w ns = (replicate (length ns) False, w)"
  using assms(3)
proof (induction ns)
  case Nil
  then show ?case by simp
next
  case (Cons n ns)
  have "unat (- 1 :: u64) = 2 ^ 64 - 1" by (simp add: unsigned_minus_1_eq_mask mask_eq_exp_minus_1)
  then have "\<not> fst (check_and_update w n)"
    using replay_code.tracks_stale [OF assms(1,2), of n] Cons.prems by simp
  moreover from this have "snd (check_and_update w n) = w"
    using assms(1) replay_code.rejected by (simp add: replay_code.tracks_def)
  ultimately have "check_and_update w n = (False, w)"
    by (metis prod.collapse)
  then show ?case using Cons by simp
qed

section \<open>Properties\<close>

text \<open>C11: The bitmap window refines the set of recent nonces: on every well-formed window and
  every nonce, \<open>check_and_update\<close> answers and moves as the set specification does.\<close>

theorem check_and_update_refines:
  assumes "replay_wf w"
  shows "map_prod id replay_abs (check_and_update w n) = spec_check (replay_abs w) n"
  using check_abs [OF assms, of n] by (simp add: map_prod_def split_def)

theorem check_and_update_refines_witness:
  "map_prod id replay_abs (check_and_update replay_default 5) = spec_check (replay_abs replay_default) 5"
  by (rule check_and_update_refines) simp

text \<open>Over any sequence of nonces fed to a fresh window, no nonce is accepted twice.\<close>

theorem replay_never_accepts_twice:
  "distinct (accepted (fst (check_all replay_default ns)) ns)"
  using check_all_tracks [OF replay_code.tracks_init, of ns] by (simp add: split_def)

text \<open>C10: After any sequence of nonces, the next one is accepted exactly when it was not
  accepted before and is less than 1024 behind the highest accepted nonce.\<close>

theorem replay_accepts_exactly_fresh:
  fixes ns :: "u64 list"
  defines "w \<equiv> snd (check_all replay_default ns)"
    and "acc \<equiv> set (accepted (fst (check_all replay_default ns)) ns)"
  shows "fst (check_and_update w n) \<longleftrightarrow> n \<notin> acc \<and> unat (highest w) < unat n + 1024"
proof -
  have "replay_code.tracks acc w"
    using check_all_tracks [OF replay_code.tracks_init, of ns]
    by (simp add: split_def w_def acc_def)
  then show ?thesis
    using replay_code.tracks_accepts_iff [of acc w n] by (simp add: less_diff_conv2) linarith
qed

text \<open>The word loops of \<open>shift_left\<close> shift the bitmap, read as one 1024-bit number, and
  drop what passes its top.\<close>

theorem shift_left_is_shift:
  assumes "length bits = REPLAY_WORDS"
  shows "window_nat (shift_left bits s) = take_bit 1024 (push_bit s (window_nat bits))"
proof (rule bit_eqI)
  fix i
  show "bit (window_nat (shift_left bits s)) i
      \<longleftrightarrow> bit (take_bit 1024 (push_bit s (window_nat bits))) i"
  proof (cases "i < 1024")
    case True
    then show ?thesis
      using bit_at_shift_left [OF assms True, of s]
      by (simp add: bit_window_nat bit_take_bit_iff bit_push_bit_iff)
  next
    case False
    then have "\<not> bit_at (shift_left bits s) i"
      using length_shift_left [OF assms, of s] by (simp add: bit_at_def)
    with False show ?thesis by (simp add: bit_window_nat bit_take_bit_iff)
  qed
qed

theorem shift_left_is_shift_witness:
  "window_nat (shift_left (replicate 16 1) 70)
    = take_bit 1024 (push_bit 70 (window_nat (replicate 16 1)))"
  by (rule shift_left_is_shift) simp

end
