(* ===== verification/Noise_Session.thy ===== *)
theory Noise_Session
  imports Replay_Window
begin

text \<open>
  The transport session of \<open>src/src/crypto.rs\<close>: framing, the sending counter and the
  replay window around the transport state of the third-party crate \<open>snow\<close>. That state
  and its operations are parameters, the record \<open>transport_api\<close>: a write appends to the
  buffer it is given (its length is an argument), a read fails or returns the plaintext, and
  both may change the state. What the session relies on is \<open>noise_lawful\<close>.
\<close>

definition MAX_MESSAGE :: nat where
  "MAX_MESSAGE = 65535"

definition MAX_PAYLOAD :: nat where
  "MAX_PAYLOAD = 65519"

record 't transport_api =
  noise_write :: "'t \<Rightarrow> bytes \<Rightarrow> nat \<Rightarrow> bytes option \<times> 't"
  noise_read :: "'t \<Rightarrow> bytes \<Rightarrow> nat \<Rightarrow> bytes option \<times> 't"
  noise_set_receiving_nonce :: "'t \<Rightarrow> u64 \<Rightarrow> 't"
  noise_remote_static :: "'t \<Rightarrow> bytes option"

text \<open>The errors of \<open>crypto.rs\<close>, one constructor for each \<open>bail!\<close> and each \<open>?\<close>.\<close>

datatype crypto_error =
    PayloadTooLarge nat
  | EncryptBufferTooSmall
  | NoiseEncrypt
  | DataPacketTooShort
  | SessionIndexMismatch
  | ReplayedNonce u64
  | NoiseDecrypt
  | EmptyBuffer
  | ExpectedResponse
  | ResponseTooShort
  | ExpectedInit
  | ZeroIndex
  | NoiseBuild
  | NoiseHandshake

record 't session =
  sess_index :: u32
  transport :: 't
  send_nonce :: u64
  replay :: replay_window

definition from_transport :: "u32 \<Rightarrow> 't \<Rightarrow> 't session" where
  "from_transport idx t = \<lparr>sess_index = idx, transport = t, send_nonce = 0, replay = replay_default\<rparr>"

text \<open>
  \<open>encrypt\<close> writes into a buffer of \<open>out_len\<close> bytes; the model returns the bytes it
  fills on success.
\<close>

definition encrypt ::
  "'t transport_api \<Rightarrow> 't session \<Rightarrow> bytes \<Rightarrow> nat \<Rightarrow> (crypto_error + bytes) \<times> 't session" where
  "encrypt api self plaintext out_len =
     (if MAX_PAYLOAD < length plaintext then (Inl (PayloadTooLarge (length plaintext)), self)
      else if out_len < 12 + length plaintext + 16 then (Inl EncryptBufferTooSmall, self)
      else
        let nonce = send_nonce self
        in case noise_write api (transport self) plaintext (out_len - 12) of
             (None, t) \<Rightarrow> (Inl NoiseEncrypt, self\<lparr>transport := t\<rparr>)
           | (Some ciphertext, t) \<Rightarrow>
               (Inr (u32_to_le (sess_index self) @ u64_to_le nonce @ ciphertext),
                self\<lparr>transport := t, send_nonce := nonce + 1\<rparr>))"

definition decrypt ::
  "'t transport_api \<Rightarrow> 't session \<Rightarrow> bytes \<Rightarrow> nat \<Rightarrow> (crypto_error + bytes) \<times> 't session" where
  "decrypt api self packet out_len =
     (if length packet < 12 + 16 then (Inl DataPacketTooShort, self)
      else
        let idx = u32_from_le (byte_range 0 4 packet)
        in if idx \<noteq> sess_index self then (Inl SessionIndexMismatch, self)
           else
             let nonce = u64_from_le (byte_range 4 12 packet);
                 (fresh, window) = check_and_update (replay self) nonce;
                 self = self\<lparr>replay := window\<rparr>
             in if \<not> fresh then (Inl (ReplayedNonce nonce), self)
                else
                  let t = noise_set_receiving_nonce api (transport self) nonce
                  in case noise_read api t (drop 12 packet) out_len of
                       (None, t') \<Rightarrow> (Inl NoiseDecrypt, self\<lparr>transport := t'\<rparr>)
                     | (Some plaintext, t') \<Rightarrow> (Inr plaintext, self\<lparr>transport := t'\<rparr>))"

text \<open>
  The static key of the other side. The code copies the byte_range into a \<open>[u8; 32]\<close>; Noise
  over Curve25519 always yields 32 bytes.
\<close>

definition remote_static :: "'t transport_api \<Rightarrow> 't session \<Rightarrow> bytes option" where
  "remote_static api self = noise_remote_static api (transport self)"

section \<open>Framing\<close>

definition data_packet :: "u32 \<Rightarrow> u64 \<Rightarrow> bytes \<Rightarrow> bytes" where
  "data_packet idx nonce ciphertext = u32_to_le idx @ u64_to_le nonce @ ciphertext"

lemma length_data_packet [simp]: "length (data_packet i n c) = 12 + length c"
  by (simp add: data_packet_def)

lemma data_packet_parts [simp]:
  "byte_range 0 4 (data_packet i n c) = u32_to_le i"
  "byte_range 4 12 (data_packet i n c) = u64_to_le n"
  "drop 12 (data_packet i n c) = c"
  by (simp_all add: data_packet_def byte_range_full)

lemma data_packet_hd: "data_packet i n c \<noteq> []" "hd (data_packet i n c) = ucast i"
proof -
  have "u32_to_le i \<noteq> []" by (metis length_u32_to_le list.size(3) zero_neq_numeral)
  then show "data_packet i n c \<noteq> []" "hd (data_packet i n c) = ucast i"
    using u32_to_le_nth_0 [of i] by (simp_all add: data_packet_def hd_append hd_conv_nth)
qed

lemma data_packet_surj:
  assumes "12 \<le> length packet"
  shows "packet = data_packet (u32_from_le (byte_range 0 4 packet)) (u64_from_le (byte_range 4 12 packet)) (drop 12 packet)"
proof -
  have "packet = byte_range 0 4 packet @ byte_range 4 12 packet @ drop 12 packet"
    using append_take_drop_id [of 4 packet] append_take_drop_id [of 8 "drop 4 packet"]
    by (simp add: byte_range_def)
  then show ?thesis
    using assms by (simp add: data_packet_def u32_to_from_le u64_to_from_le)
qed

lemma encrypt_cases:
  obtains (too_large) "MAX_PAYLOAD < length pt" "encrypt api s pt k = (Inl (PayloadTooLarge (length pt)), s)"
  | (small) "length pt \<le> MAX_PAYLOAD" "k < 28 + length pt" "encrypt api s pt k = (Inl EncryptBufferTooSmall, s)"
  | (noise) t where "length pt \<le> MAX_PAYLOAD" "28 + length pt \<le> k"
      "noise_write api (transport s) pt (k - 12) = (None, t)"
      "encrypt api s pt k = (Inl NoiseEncrypt, s\<lparr>transport := t\<rparr>)"
  | (ok) t ct where "length pt \<le> MAX_PAYLOAD" "28 + length pt \<le> k"
      "noise_write api (transport s) pt (k - 12) = (Some ct, t)"
      "encrypt api s pt k = (Inr (data_packet (sess_index s) (send_nonce s) ct),
         s\<lparr>transport := t, send_nonce := send_nonce s + 1\<rparr>)"
proof -
  obtain r t where w: "noise_write api (transport s) pt (k - 12) = (r, t)" by force
  consider "MAX_PAYLOAD < length pt" | "length pt \<le> MAX_PAYLOAD" "k < 28 + length pt"
    | "length pt \<le> MAX_PAYLOAD" "28 + length pt \<le> k" by linarith
  then show thesis
  proof cases
    case 1
    then show thesis by (intro too_large) (simp_all add: encrypt_def)
  next
    case 2
    then show thesis by (intro small) (simp_all add: encrypt_def)
  next
    case 3
    show thesis
    proof (cases r)
      case None
      then show thesis using w 3 by (intro noise [of t]) (simp_all add: encrypt_def)
    next
      case (Some ct)
      then show thesis
        using w 3 by (intro ok [of ct t]) (simp_all add: encrypt_def data_packet_def Let_def)
    qed
  qed
qed

lemma decrypt_data_packet:
  assumes "16 \<le> length c"
  shows "decrypt api s (data_packet i n c) k =
    (if i \<noteq> sess_index s then (Inl SessionIndexMismatch, s)
     else let (fresh, window) = check_and_update (replay s) n; s' = s\<lparr>replay := window\<rparr>
       in if \<not> fresh then (Inl (ReplayedNonce n), s')
          else case noise_read api (noise_set_receiving_nonce api (transport s) n) c k of
              (None, t') \<Rightarrow> (Inl NoiseDecrypt, s'\<lparr>transport := t'\<rparr>)
            | (Some pt, t') \<Rightarrow> (Inr pt, s'\<lparr>transport := t'\<rparr>))"
  using assms by (simp add: decrypt_def Let_def split_def)

section \<open>What the session relies on\<close>

text \<open>
  The documented behaviour of a Noise transport, seen through its two keys, its sending
  counter and the AEAD function \<open>seal\<close>: a write that fits seals the plaintext under the
  sending key and the counter and advances the counter, and fails otherwise; a read with a
  given nonce opens exactly what \<open>seal\<close> made under the receiving key and that nonce, and
  never uses the reserved nonce; keys never change.
\<close>

record ('t, 'k) noise_view =
  seal :: "'k \<Rightarrow> u64 \<Rightarrow> bytes \<Rightarrow> bytes"
  tx_key :: "'t \<Rightarrow> 'k"
  rx_key :: "'t \<Rightarrow> 'k"
  counter :: "'t \<Rightarrow> u64"

definition same_keys :: "('t, 'k) noise_view \<Rightarrow> 't \<Rightarrow> 't \<Rightarrow> bool" where
  "same_keys v t t' \<longleftrightarrow> tx_key v t' = tx_key v t \<and> rx_key v t' = rx_key v t"

definition write_lawful :: "'t transport_api \<Rightarrow> ('t, 'k) noise_view \<Rightarrow> bool" where
  "write_lawful api v \<longleftrightarrow> (\<forall>t pt k r t'. noise_write api t pt k = (r, t') \<longrightarrow> same_keys v t t' \<and>
     (if length pt + 16 \<le> k \<and> length pt \<le> MAX_PAYLOAD \<and> counter v t \<noteq> - 1
      then r = Some (seal v (tx_key v t) (counter v t) pt) \<and> counter v t' = counter v t + 1
      else r = None \<and> counter v t' = counter v t))"

definition read_lawful :: "'t transport_api \<Rightarrow> ('t, 'k) noise_view \<Rightarrow> bool" where
  "read_lawful api v \<longleftrightarrow>
     (\<forall>t n ct k r t'. noise_read api (noise_set_receiving_nonce api t n) ct k = (r, t') \<longrightarrow>
       same_keys v t t' \<and> counter v t' = counter v t \<and>
       (\<forall>pt. r = Some pt \<longleftrightarrow>
          ct = seal v (rx_key v t) n pt \<and> length pt \<le> min k MAX_PAYLOAD \<and> n \<noteq> - 1))"

definition noise_lawful :: "'t transport_api \<Rightarrow> ('t, 'k) noise_view \<Rightarrow> bool" where
  "noise_lawful api v \<longleftrightarrow> (\<forall>k n pt. length (seal v k n pt) = length pt + 16)
     \<and> write_lawful api v \<and> read_lawful api v"

lemma seal_length: "noise_lawful api v \<Longrightarrow> length (seal v k n pt) = length pt + 16"
  by (simp add: noise_lawful_def)

lemma write_ok:
  assumes "noise_lawful api v" "length pt + 16 \<le> k" "length pt \<le> MAX_PAYLOAD" "counter v t \<noteq> - 1"
  obtains t' where "noise_write api t pt k = (Some (seal v (tx_key v t) (counter v t) pt), t')"
    "counter v t' = counter v t + 1" "same_keys v t t'"
proof -
  obtain r t' where w: "noise_write api t pt k = (r, t')" by force
  have "write_lawful api v" using assms(1) by (simp add: noise_lawful_def)
  from this [unfolded write_lawful_def, rule_format, OF w] show thesis
    using assms(2-4) w by (intro that [of t']) simp_all
qed

lemma write_Some:
  assumes "noise_lawful api v" "noise_write api t pt k = (Some ct, t')"
  shows "ct = seal v (tx_key v t) (counter v t) pt" "counter v t' = counter v t + 1"
    "same_keys v t t'" "counter v t \<noteq> - 1"
proof -
  have "write_lawful api v" using assms(1) by (simp add: noise_lawful_def)
  from this [unfolded write_lawful_def, rule_format, OF assms(2)]
  show "ct = seal v (tx_key v t) (counter v t) pt" "counter v t' = counter v t + 1"
    "same_keys v t t'" "counter v t \<noteq> - 1"
    by (simp_all split: if_splits)
qed

lemma write_None:
  assumes "noise_lawful api v" "noise_write api t pt k = (None, t')"
  shows "counter v t' = counter v t" "same_keys v t t'"
proof -
  have "write_lawful api v" using assms(1) by (simp add: noise_lawful_def)
  from this [unfolded write_lawful_def, rule_format, OF assms(2)]
  show "counter v t' = counter v t" "same_keys v t t'" by (simp_all split: if_splits)
qed

lemma read_view:
  assumes "noise_lawful api v" "noise_read api (noise_set_receiving_nonce api t n) ct k = (r, t')"
  shows "same_keys v t t'" "counter v t' = counter v t"
    "r = Some pt \<longleftrightarrow> ct = seal v (rx_key v t) n pt \<and> length pt \<le> min k MAX_PAYLOAD \<and> n \<noteq> - 1"
proof -
  have "read_lawful api v" using assms(1) by (simp add: noise_lawful_def)
  from this [unfolded read_lawful_def, rule_format, OF assms(2)]
  show "same_keys v t t'" "counter v t' = counter v t"
    "r = Some pt \<longleftrightarrow> ct = seal v (rx_key v t) n pt \<and> length pt \<le> min k MAX_PAYLOAD \<and> n \<noteq> - 1"
    by blast+
qed

section \<open>Sessions over a lawful transport\<close>

text \<open>The comment of the field \<open>send_nonce\<close>: it is kept in lockstep with \<open>snow\<close>.\<close>

definition lockstep :: "('t, 'k) noise_view \<Rightarrow> 't session \<Rightarrow> bool" where
  "lockstep v s \<longleftrightarrow> send_nonce s = counter v (transport s)"

definition connected :: "('t, 'k) noise_view \<Rightarrow> 't session \<Rightarrow> 't session \<Rightarrow> bool" where
  "connected v a b \<longleftrightarrow>
     sess_index a = sess_index b \<and> tx_key v (transport a) = rx_key v (transport b)"

lemma encrypt_lockstep:
  assumes "noise_lawful api v" "lockstep v s"
  shows "lockstep v (snd (encrypt api s pt k))"
  by (rule encrypt_cases [of pt api s k])
    (use assms write_Some write_None in \<open>fastforce simp: lockstep_def\<close>)+

lemma decrypt_lockstep:
  assumes "noise_lawful api v" "lockstep v s"
  shows "lockstep v (snd (decrypt api s packet k))"
  using assms read_view(2) [OF assms(1)]
  by (auto simp: lockstep_def decrypt_def Let_def split_def split: option.split)
    (metis prod.collapse)+

lemma decrypt_counters:
  assumes "noise_lawful api v" "decrypt api s packet k = (r, s')"
  shows "send_nonce s' = send_nonce s" "counter v (transport s') = counter v (transport s)"
    "same_keys v (transport s) (transport s')" "sess_index s' = sess_index s"
proof -
  have "send_nonce s' = send_nonce s \<and> counter v (transport s') = counter v (transport s)
      \<and> same_keys v (transport s) (transport s') \<and> sess_index s' = sess_index s"
    using assms(2) read_view(1,2) [OF assms(1)]
    by (auto simp: decrypt_def Let_def same_keys_def split: if_splits prod.splits option.splits)
  then show "send_nonce s' = send_nonce s" "counter v (transport s') = counter v (transport s)"
    "same_keys v (transport s) (transport s')" "sess_index s' = sess_index s" by simp_all
qed

lemma decrypt_sealed:
  assumes law: "noise_lawful api v"
    and fresh: "fst (check_and_update (replay b) n)"
    and fits: "length pt \<le> k" "length pt \<le> MAX_PAYLOAD" "n \<noteq> - 1"
  obtains t' where
    "decrypt api b (data_packet (sess_index b) n (seal v (rx_key v (transport b)) n pt)) k
      = (Inr pt, b\<lparr>replay := snd (check_and_update (replay b) n), transport := t'\<rparr>)"
    "same_keys v (transport b) t'"
proof -
  obtain r t' where r: "noise_read api (noise_set_receiving_nonce api (transport b) n)
      (seal v (rx_key v (transport b)) n pt) k = (r, t')" by force
  have "r = Some pt"
    using read_view(3) [OF law r, of pt] fits by simp
  then show thesis
    using r fresh seal_length [OF law] read_view(1) [OF law r]
    by (intro that [of t']) (simp_all add: decrypt_data_packet Let_def split_def)
qed

section \<open>Streams\<close>

fun encrypt_all ::
  "'t transport_api \<Rightarrow> nat \<Rightarrow> 't session \<Rightarrow> bytes list \<Rightarrow> (crypto_error + bytes) list \<times> 't session" where
  "encrypt_all api k s [] = ([], s)"
| "encrypt_all api k s (p # ps) =
     (let (r, s') = encrypt api s p k; (rs, s'') = encrypt_all api k s' ps in (r # rs, s''))"

fun decrypt_all ::
  "'t transport_api \<Rightarrow> nat \<Rightarrow> 't session \<Rightarrow> bytes list \<Rightarrow> (crypto_error + bytes) list \<times> 't session" where
  "decrypt_all api k s [] = ([], s)"
| "decrypt_all api k s (p # ps) =
     (let (r, s') = decrypt api s p k; (rs, s'') = decrypt_all api k s' ps in (r # rs, s''))"

text \<open>The nonce field of a packet, and the nonces of the packets that decrypted.\<close>

definition packet_nonce :: "bytes \<Rightarrow> u64" where
  "packet_nonce packet = u64_from_le (byte_range 4 12 packet)"

definition opened :: "(crypto_error + bytes) list \<Rightarrow> bytes list \<Rightarrow> bytes list" where
  "opened rs ps = map snd (filter (\<lambda>(r, _). \<not> isl r) (zip rs ps))"

lemma opened_simps [simp]:
  "opened [] ps = []"
  "opened (r # rs) (p # ps) = (if isl r then opened rs ps else p # opened rs ps)"
  by (simp_all add: opened_def)

lemma decrypt_replay_cases:
  obtains (kept) "isl (fst (decrypt api s p k))" "replay (snd (decrypt api s p k)) = replay s"
  | (moved) "replay (snd (decrypt api s p k)) = snd (check_and_update (replay s) (packet_nonce p))"
      "\<not> isl (fst (decrypt api s p k)) \<Longrightarrow> fst (check_and_update (replay s) (packet_nonce p))"
proof -
  consider "length p < 28 \<or> u32_from_le (byte_range 0 4 p) \<noteq> sess_index s"
    | "28 \<le> length p" "u32_from_le (byte_range 0 4 p) = sess_index s" by linarith
  then show thesis
  proof cases
    case 1
    then show thesis by (intro kept) (auto simp: decrypt_def Let_def)
  next
    case 2
    then show thesis
      by (intro moved) (auto simp: decrypt_def Let_def split_def packet_nonce_def
        split: option.splits if_splits)
  qed
qed

lemma decrypt_opened_replay:
  assumes "\<not> isl (fst (decrypt api s p k))"
  shows "fst (check_and_update (replay s) (packet_nonce p))"
    and "replay (snd (decrypt api s p k)) = snd (check_and_update (replay s) (packet_nonce p))"
  by (rule decrypt_replay_cases [of api s p k]; use assms in blast)+

lemma decrypt_all_opened:
  "replay_code.tracks A (replay s) \<Longrightarrow>
   distinct (map packet_nonce (opened (fst (decrypt_all api k s ps)) ps)) \<and>
   packet_nonce ` set (opened (fst (decrypt_all api k s ps)) ps) \<inter> A = {}"
proof (induction ps arbitrary: A s)
  case Nil
  then show ?case by simp
next
  case (Cons p ps)
  obtain r s1 where d: "decrypt api s p k = (r, s1)" by force
  let ?n = "packet_nonce p"
  have run: "fst (decrypt_all api k s (p # ps)) = r # fst (decrypt_all api k s1 ps)"
    by (simp add: d split_def Let_def)
  show ?case
  proof (cases "isl r")
    case True
    have "\<exists>B. A \<subseteq> B \<and> replay_code.tracks B (replay s1)"
    proof (rule decrypt_replay_cases [of api s p k])
      assume "replay (snd (decrypt api s p k)) = replay s"
      then show ?thesis using Cons.prems d by auto
    next
      assume "replay (snd (decrypt api s p k)) = snd (check_and_update (replay s) ?n)"
      then show ?thesis
        using Cons.prems d replay_code.tracks_accept [of A "replay s" ?n]
          replay_code.tracks_reject [of A "replay s" ?n]
        by (metis order_refl snd_conv subset_insertI)
    qed
    then obtain B where "A \<subseteq> B" "replay_code.tracks B (replay s1)" by blast
    then show ?thesis using Cons.IH [of B s1] True run by auto
  next
    case False
    then have "fst (check_and_update (replay s) ?n)" "replay s1 = snd (check_and_update (replay s) ?n)"
      using decrypt_opened_replay [of api s p k] by (simp_all add: d)
    then have "replay_code.tracks (insert ?n A) (replay s1)" "?n \<notin> A"
      using replay_code.tracks_accept [OF Cons.prems] replay_code.tracks_no_replay [OF Cons.prems]
      by auto
    then show ?thesis using Cons.IH [of "insert ?n A" s1] False run by auto
  qed
qed

lemma from_transport_fields [simp]:
  "sess_index (from_transport i t) = i"
  "transport (from_transport i t) = t"
  "send_nonce (from_transport i t) = 0"
  "replay (from_transport i t) = replay_default"
  by (simp_all add: from_transport_def)

section \<open>A concrete transport for the witnesses\<close>

text \<open>
  A stand-in for \<open>snow\<close> that satisfies \<open>noise_lawful\<close>: the seal appends the key, padding
  and the nonce as a tag of sixteen bytes.
\<close>

record demo_transport =
  demo_tx :: u8
  demo_rx :: u8
  demo_count :: u64
  demo_nonce :: u64
  demo_remote :: "bytes option"

definition demo_seal :: "u8 \<Rightarrow> u64 \<Rightarrow> bytes \<Rightarrow> bytes" where
  "demo_seal k n pt = pt @ k # replicate 7 0 @ u64_to_le n"

definition demo_write :: "demo_transport \<Rightarrow> bytes \<Rightarrow> nat \<Rightarrow> bytes option \<times> demo_transport" where
  "demo_write t pt k =
     (if length pt + 16 \<le> k \<and> length pt \<le> MAX_PAYLOAD \<and> demo_count t \<noteq> - 1
      then (Some (demo_seal (demo_tx t) (demo_count t) pt), t\<lparr>demo_count := demo_count t + 1\<rparr>)
      else (None, t))"

definition demo_read :: "demo_transport \<Rightarrow> bytes \<Rightarrow> nat \<Rightarrow> bytes option \<times> demo_transport" where
  "demo_read t ct k =
     (let pt = take (length ct - 16) ct
      in if ct = demo_seal (demo_rx t) (demo_nonce t) pt \<and> length pt \<le> min k MAX_PAYLOAD
            \<and> demo_nonce t \<noteq> - 1
         then (Some pt, t) else (None, t))"

definition demo_api :: "demo_transport transport_api" where
  "demo_api = \<lparr>noise_write = demo_write, noise_read = demo_read,
     noise_set_receiving_nonce = (\<lambda>t n. t\<lparr>demo_nonce := n\<rparr>), noise_remote_static = demo_remote\<rparr>"

definition demo_view :: "(demo_transport, u8) noise_view" where
  "demo_view = \<lparr>seal = demo_seal, tx_key = demo_tx, rx_key = demo_rx, counter = demo_count\<rparr>"

definition demo_end :: "u8 \<Rightarrow> u8 \<Rightarrow> demo_transport" where
  "demo_end tx rx = \<lparr>demo_tx = tx, demo_rx = rx, demo_count = 0, demo_nonce = 0, demo_remote = None\<rparr>"

lemma length_demo_seal [simp]: "length (demo_seal k n pt) = length pt + 16"
  by (simp add: demo_seal_def)

lemma demo_seal_take [simp]: "take (length pt) (demo_seal k n pt) = pt"
  by (simp add: demo_seal_def)

lemma demo_lawful: "noise_lawful demo_api demo_view"
  unfolding noise_lawful_def
proof (intro conjI)
  show "\<forall>k n pt. length (seal demo_view k n pt) = length pt + 16"
    by (simp add: demo_view_def)
  show "write_lawful demo_api demo_view"
    by (auto simp: write_lawful_def demo_api_def demo_view_def demo_write_def same_keys_def
        split: if_splits)
  show "read_lawful demo_api demo_view"
    by (auto simp: read_lawful_def demo_api_def demo_view_def demo_read_def same_keys_def Let_def
        split: if_splits)
qed

section \<open>Properties\<close>

definition sent :: "(crypto_error + bytes) list \<Rightarrow> bytes list" where
  "sent rs = map projr (filter (\<lambda>r. \<not> isl r) rs)"

lemma sent_simps [simp]:
  "sent [] = []"
  "sent (r # rs) = (if isl r then sent rs else projr r # sent rs)"
  by (simp_all add: sent_def)

lemma packet_nonce_data_packet [simp]: "packet_nonce (data_packet i n c) = n"
  by (simp add: packet_nonce_def)

lemma unat_Suc_word: "(n :: u64) \<noteq> - 1 \<Longrightarrow> unat (n + 1) = Suc (unat n)"
proof -
  assume "n \<noteq> - 1"
  then have "1 + n \<noteq> 0" by (metis add_eq_0_iff)
  then show ?thesis using unatSuc [of n] by (simp add: add.commute)
qed

lemma encrypt_all_nonces:
  assumes "noise_lawful api v" "lockstep v s"
  shows "sorted_wrt (<) (map (unat \<circ> packet_nonce) (sent (fst (encrypt_all api k s ps))))
    \<and> (\<forall>w \<in> set (sent (fst (encrypt_all api k s ps))). unat (send_nonce s) \<le> unat (packet_nonce w))"
  using assms(2)
proof (induction ps arbitrary: s)
  case Nil
  then show ?case by simp
next
  case (Cons p ps)
  obtain r s1 where e: "encrypt api s p k = (r, s1)" by force
  have run: "fst (encrypt_all api k s (p # ps)) = r # fst (encrypt_all api k s1 ps)"
    by (simp add: e split_def Let_def)
  have ls: "lockstep v s1"
    using encrypt_lockstep [OF assms(1) Cons.prems, of p k] e by simp
  note IH = Cons.IH [OF ls]
  have "isl r \<and> send_nonce s1 = send_nonce s \<or>
      (\<exists>ct. r = Inr (data_packet (sess_index s) (send_nonce s) ct)
        \<and> unat (send_nonce s1) = Suc (unat (send_nonce s)))"
  proof (rule encrypt_cases [of p api s k])
    fix t ct
    assume w: "noise_write api (transport s) p (k - 12) = (Some ct, t)"
      and "encrypt api s p k = (Inr (data_packet (sess_index s) (send_nonce s) ct),
         s\<lparr>transport := t, send_nonce := send_nonce s + 1\<rparr>)"
    moreover from this have "send_nonce s \<noteq> - 1"
      using write_Some(4) [OF assms(1) w] Cons.prems by (simp add: lockstep_def)
    ultimately show ?thesis using e by (auto simp: unat_Suc_word)
  qed (use e in auto)
  then show ?case
    using IH run by (auto simp: Suc_le_eq intro: less_imp_le)
qed

text \<open>C4: A packet made by one side of a connected pair of sessions decrypts to its
  plaintext on the other side, whatever the two have sent and received before, as long as the
  replay window takes its nonce: packets may be lost, delayed and reordered. The sender's counter
  stays in lockstep with its transport, and opening the packet touches neither the counter, nor
  the lockstep, nor the reverse connection of the receiver.\<close>

theorem session_roundtrip:
  assumes "noise_lawful api v" "lockstep v a" "connected v a b"
    and "encrypt api a pt k = (Inr wire, a')"
    and "fst (check_and_update (replay b) (packet_nonce wire))" "length pt \<le> m"
  shows "\<exists>b'. decrypt api b wire m = (Inr pt, b') \<and> connected v a' b' \<and> lockstep v a'
    \<and> send_nonce b' = send_nonce b \<and> (lockstep v b' \<longleftrightarrow> lockstep v b)
    \<and> (connected v b' a' \<longleftrightarrow> connected v b a)"
proof (rule encrypt_cases [of pt api a k])
  fix t ct
  assume fits: "length pt \<le> MAX_PAYLOAD" and w: "noise_write api (transport a) pt (k - 12) = (Some ct, t)"
    and e: "encrypt api a pt k = (Inr (data_packet (sess_index a) (send_nonce a) ct),
         a\<lparr>transport := t, send_nonce := send_nonce a + 1\<rparr>)"
  note W = write_Some [OF assms(1) w]
  have wire: "wire = data_packet (sess_index b) (send_nonce a)
      (seal v (rx_key v (transport b)) (send_nonce a) pt)"
    and a': "a' = a\<lparr>transport := t, send_nonce := send_nonce a + 1\<rparr>"
    using e assms(2-4) W(1) by (auto simp: lockstep_def connected_def)
  have "fst (check_and_update (replay b) (send_nonce a))" "send_nonce a \<noteq> - 1"
    using assms(2,5) W(4) wire by (auto simp: lockstep_def)
  then obtain b' where d: "decrypt api b wire m = (Inr pt, b')"
    using decrypt_sealed [OF assms(1), of b "send_nonce a" pt m] assms(6) fits wire by metis
  note B = decrypt_counters [OF assms(1) d]
  have A: "same_keys v (transport a) (transport a')" "sess_index a' = sess_index a"
    "send_nonce a' = send_nonce a + 1" "counter v (transport a') = counter v (transport a) + 1"
    using W(2,3) by (simp_all add: a')
  have "connected v a' b'" using assms(3) A(1,2) B(3,4) by (simp add: connected_def same_keys_def)
  moreover have "lockstep v a'" using assms(2) A(3,4) by (simp add: lockstep_def)
  moreover have "lockstep v b' \<longleftrightarrow> lockstep v b" by (simp only: lockstep_def B(1,2))
  moreover have "connected v b' a' \<longleftrightarrow> connected v b a"
    using A(1,2) B(3,4) by (simp add: connected_def same_keys_def)
  ultimately show ?thesis using d B(1) by blast
qed (use assms(4) in simp_all)

definition demo_wire :: bytes where
  "demo_wire = data_packet 7 0 (demo_seal 1 0 [42])"

lemma demo_encrypt: "encrypt demo_api (from_transport 7 (demo_end 1 2)) [42] 100
    = (Inr demo_wire, \<lparr>sess_index = 7, transport = (demo_end 1 2)\<lparr>demo_count := 1\<rparr>,
        send_nonce = 1, replay = replay_default\<rparr>)"
  by (simp add: encrypt_def demo_api_def demo_write_def demo_end_def from_transport_def MAX_PAYLOAD_def
      demo_wire_def data_packet_def Let_def)

lemma replay_default_fresh: "fst (check_and_update replay_default n)"
  using replay_code.tracks_accepts_iff [OF replay_code.tracks_init, of n]
  by (simp add: replay_default_def)

theorem session_roundtrip_witness:
  "\<exists>b'. decrypt demo_api (from_transport 7 (demo_end 2 1)) demo_wire 100 = (Inr [42], b') \<and> lockstep demo_view b'"
proof -
  have "lockstep demo_view (from_transport 7 (demo_end 1 2))" "lockstep demo_view (from_transport 7 (demo_end 2 1))"
    "connected demo_view (from_transport 7 (demo_end 1 2)) (from_transport 7 (demo_end 2 1))"
    by (simp_all add: lockstep_def connected_def demo_view_def demo_end_def)
  then show ?thesis
    using session_roundtrip [OF demo_lawful _ _ demo_encrypt, of "from_transport 7 (demo_end 2 1)" 100]
    by (auto simp: replay_default_fresh)
qed

text \<open>C1: The packets a session opens over any sequence of packets, forged ones included,
  have pairwise distinct nonces: no packet is ever delivered twice.\<close>

theorem decrypt_never_replays:
  "distinct (map packet_nonce (opened (fst (decrypt_all api k (from_transport i t) ps)) ps))"
  using decrypt_all_opened [of "{}" "from_transport i t" api k ps] replay_code.tracks_init by simp

text \<open>C16: The packets a session sends have strictly increasing nonces, so over a lawful
  transport no nonce is ever used twice under one key, not even where the counter would wrap.\<close>

theorem encrypt_never_reuses_nonce:
  assumes "noise_lawful api v" "counter v t = 0"
  shows "sorted_wrt (<) (map packet_nonce (sent (fst (encrypt_all api k (from_transport i t) ps))))
    \<and> distinct (map packet_nonce (sent (fst (encrypt_all api k (from_transport i t) ps))))"
proof -
  let ?ws = "sent (fst (encrypt_all api k (from_transport i t) ps))"
  have "lockstep v (from_transport i t)"
    using assms(2) by (simp add: lockstep_def)
  then have s: "sorted_wrt (<) (map (unat \<circ> packet_nonce) ?ws)"
    using encrypt_all_nonces [OF assms(1)] by blast
  then have "sorted_wrt (<) (map packet_nonce ?ws)"
    by (simp add: sorted_wrt_map word_less_nat_alt)
  moreover have "distinct (map unat (map packet_nonce ?ws))"
    using s by (simp add: strict_sorted_iff)
  ultimately show ?thesis by (simp only: distinct_map)
qed

theorem encrypt_never_reuses_nonce_witness:
  "sorted_wrt (<) (map packet_nonce (sent (fst (encrypt_all demo_api 100 (from_transport 7 (demo_end 1 2)) [[1], [], [2]]))))"
  using encrypt_never_reuses_nonce [OF demo_lawful, of "demo_end 1 2" 100 7 "[[1], [], [2]]"]
  by (simp add: demo_view_def demo_end_def)

text \<open>Which branch \<open>encrypt\<close> takes, over a lawful transport whose counter is not
  exhausted: it succeeds exactly when the plaintext is at most 65519 bytes and the buffer has
  28 bytes of room beyond it, and then the packet is 28 bytes longer than the plaintext.\<close>

theorem encrypt_outcome:
  assumes "noise_lawful api v" "lockstep v s" "send_nonce s \<noteq> - 1"
  shows "fst (encrypt api s pt k) =
    (if 65519 < length pt then Inl (PayloadTooLarge (length pt))
     else if k < length pt + 28 then Inl EncryptBufferTooSmall
     else Inr (data_packet (sess_index s) (send_nonce s)
       (seal v (tx_key v (transport s)) (send_nonce s) pt)))"
proof (rule encrypt_cases [of pt api s k])
  fix t
  assume "length pt \<le> MAX_PAYLOAD" "28 + length pt \<le> k"
    and w: "noise_write api (transport s) pt (k - 12) = (None, t)"
  have "length pt + 16 \<le> k - 12" using \<open>28 + length pt \<le> k\<close> by arith
  moreover have "counter v (transport s) \<noteq> - 1" using assms(2,3) by (simp add: lockstep_def)
  ultimately show ?thesis
    using write_ok [OF assms(1) _ \<open>length pt \<le> MAX_PAYLOAD\<close>] w by (metis option.distinct(1) prod.inject)
next
  fix t ct
  assume "length pt \<le> MAX_PAYLOAD" "28 + length pt \<le> k"
    and w: "noise_write api (transport s) pt (k - 12) = (Some ct, t)"
    and "encrypt api s pt k = (Inr (data_packet (sess_index s) (send_nonce s) ct),
         s\<lparr>transport := t, send_nonce := send_nonce s + 1\<rparr>)"
  then show ?thesis
    using write_Some(1) [OF assms(1) w] assms(2) by (simp add: lockstep_def MAX_PAYLOAD_def)
qed (simp_all add: MAX_PAYLOAD_def)

theorem encrypt_outcome_witness:
  "fst (encrypt demo_api (from_transport 7 (demo_end 1 2)) [42] 28) = Inl EncryptBufferTooSmall"
  using encrypt_outcome [OF demo_lawful, of "from_transport 7 (demo_end 1 2)" "[42]" 28]
  by (simp add: lockstep_def demo_view_def demo_end_def)

text \<open>Once the window has seen the largest nonce it stays there.\<close>

definition exhausted :: "'t session \<Rightarrow> bool" where
  "exhausted s \<longleftrightarrow> replay_wf (replay s) \<and> highest (replay s) = - 1"

lemma decrypt_sess_index: "sess_index (snd (decrypt api s packet k)) = sess_index s"
  by (simp add: decrypt_def Let_def split_def split: option.split)

lemma decrypt_exhausted:
  assumes "exhausted s"
  shows "exhausted (snd (decrypt api s packet k))"
proof -
  have s: "replay_wf (replay s)" "highest (replay s) = - 1" using assms by (simp_all add: exhausted_def)
  have "highest (snd (check_and_update (replay s) n)) = - 1" for n
    using replay_code.rejected [OF s(1), of n] replay_code.newest_accept [OF s(1), of n] s(2)
    by (cases "fst (check_and_update (replay s) n)") (simp_all add: max_def word_order.extremum_unique)
  then show ?thesis
    by (cases rule: decrypt_replay_cases [of api s packet k])
      (simp_all add: exhausted_def s replay_wf_check)
qed

lemma decrypt_all_exhausted:
  "exhausted s \<Longrightarrow> exhausted (snd (decrypt_all api k s ps)) \<and> sess_index (snd (decrypt_all api k s ps)) = sess_index s"
proof (induction ps arbitrary: s)
  case (Cons p ps)
  then show ?case
    using Cons.IH [OF decrypt_exhausted [OF Cons.prems, of api p k]] by (simp add: split_def Let_def decrypt_sess_index)
qed simp

lemma exhausted_refuses:
  assumes "exhausted s" "16 \<le> length ct" "unat n + 1024 \<le> 2 ^ 64 - 1"
  shows "fst (decrypt api s (data_packet (sess_index s) n ct) m) = Inl (ReplayedNonce n)"
proof -
  have s: "replay_wf (replay s)" "highest (replay s) = - 1" using assms(1) by (simp_all add: exhausted_def)
  have "unat (- 1 :: u64) = 2 ^ 64 - 1"
    by (simp add: unsigned_minus_1_eq_mask mask_eq_exp_minus_1)
  then have "\<not> fst (check_and_update (replay s) n)"
    using replay_code.accepts [OF s(1), of n] s(2) assms(3) by (simp only:) linarith
  then show ?thesis using assms(2) by (simp add: decrypt_data_packet split_def Let_def)
qed

text \<open>C30: One forged packet closes the receiving direction of a session. The window moves
  before the packet is authenticated, so a packet that carries the session index and the
  largest nonce fails to decrypt, and from then on, however many packets of whatever content come
  in between, every packet of the session whose nonce is 1024 or more below the largest is refused
  as a replay, whatever it holds. Only the last 1024 of the \<open>2^64\<close> nonces are not covered.\<close>

theorem forged_nonce_closes_session:
  assumes "replay_wf (replay s)" "16 \<le> length junk"
    and "fst (noise_read api (noise_set_receiving_nonce api (transport s) (- 1)) junk k) = None"
    and "16 \<le> length ct" "unat n + 1024 \<le> 2 ^ 64 - 1"
  shows "isl (fst (decrypt api s (data_packet (sess_index s) (- 1) junk) k))
    \<and> fst (decrypt api (snd (decrypt_all api j (snd (decrypt api s (data_packet (sess_index s) (- 1) junk) k)) between))
         (data_packet (sess_index s) n ct) m) = Inl (ReplayedNonce n)"
proof -
  let ?w = "snd (check_and_update (replay s) (- 1))"
  let ?s = "snd (decrypt api s (data_packet (sess_index s) (- 1) junk) k)"
  obtain t where r: "noise_read api (noise_set_receiving_nonce api (transport s) (- 1)) junk k = (None, t)"
    using assms(3) by (metis prod.collapse)
  have first: "isl (fst (decrypt api s (data_packet (sess_index s) (- 1) junk) k))"
    "replay ?s = ?w" "sess_index ?s = sess_index s"
    using assms(2) r by (simp_all add: decrypt_data_packet split_def Let_def)
  have wf: "replay_wf ?w" by (rule replay_wf_check [OF assms(1)])
  have "highest ?w = - 1"
  proof (cases "fst (check_and_update (replay s) (- 1))")
    case True
    then show ?thesis using replay_code.newest_accept [OF assms(1) True] by (simp add: max_def)
  next
    case False
    then have "- 1 \<in> seen (replay s) \<or> unat (highest (replay s)) - unat (- 1 :: u64) \<ge> 1024"
      using replay_code.accepts [OF assms(1), of "- 1"] by linarith
    moreover have "unat (highest (replay s)) - unat (- 1 :: u64) = 0"
      using unat_less [of "highest (replay s)"] by (simp add: unsigned_minus_1_eq_mask mask_eq_exp_minus_1)
    ultimately have "- 1 \<in> seen (replay s)" by linarith
    then have "highest (replay s) = - 1"
      using seen_bounds(1) [OF assms(1), of "- 1"] by (simp add: word_order.extremum_uniqueI)
    then show ?thesis using replay_code.rejected [OF assms(1) False] by simp
  qed
  then have "exhausted ?s" using first(2) wf by (simp add: exhausted_def)
  from decrypt_all_exhausted [OF this, of api j between] first(3) first(1)
  show ?thesis using exhausted_refuses [OF _ assms(4,5)] by metis
qed

theorem forged_nonce_closes_session_witness:
  "fst (decrypt demo_api (snd (decrypt_all demo_api 100 (snd (decrypt demo_api (from_transport 7 (demo_end 2 1))
        (data_packet 7 (- 1) (replicate 16 0)) 100)) [[1, 2, 3], demo_wire])) demo_wire 100) = Inl (ReplayedNonce 0)"
proof -
  have "fst (noise_read demo_api (noise_set_receiving_nonce demo_api (demo_end 2 1) (- 1))
      (replicate 16 0) 100) = None"
    by (simp add: demo_api_def demo_read_def Let_def)
  then show ?thesis
    using forged_nonce_closes_session [of "from_transport 7 (demo_end 2 1)" "replicate 16 0" demo_api 100
        "demo_seal 1 0 [42]" 0 100 "[[1, 2, 3], demo_wire]" 100]
    by (simp add: demo_wire_def del: decrypt_all.simps)
qed

end
