(* ===== verification/Noise_Handshake.thy ===== *)
theory Noise_Handshake
  imports Noise_Session
begin

text \<open>
  The handshake helpers of \<open>src/src/crypto.rs\<close>: the two ends of a Noise IK exchange around
  \<open>snow\<close>'s handshake state, which with its operations is a parameter (\<open>handshake_api\<close>),
  the key helpers around \<open>snow\<close> and \<open>x25519_dalek\<close>, and the choice of a random
  non-zero session index. \<open>ik_lawful\<close> says what Noise IK promises of an exchange.
\<close>

definition NOISE_PARAMS :: string where
  "NOISE_PARAMS = ''Noise_IK_25519_ChaChaPoly_BLAKE2s''"

record ('h, 't) handshake_api =
  hs_build_initiator :: "bytes \<Rightarrow> bytes \<Rightarrow> 'h option"
  hs_build_responder :: "bytes \<Rightarrow> 'h option"
  hs_write :: "'h \<Rightarrow> bytes \<Rightarrow> nat \<Rightarrow> bytes option \<times> 'h"
  hs_read :: "'h \<Rightarrow> bytes \<Rightarrow> nat \<Rightarrow> bytes option \<times> 'h"
  hs_into_transport :: "'h \<Rightarrow> 't option"

section \<open>Session indices\<close>

text \<open>
  \<open>random_session_index\<close> loops over four-byte draws of the random generator until the
  value is not zero. The draws are a list: \<open>None\<close> says that the loop has consumed them all
  and still runs. The rest of the draws is returned for the caller's own loop.
\<close>

fun random_session_index :: "bytes list \<Rightarrow> (u32 \<times> bytes list) option" where
  "random_session_index [] = None"
| "random_session_index (b # draws) =
     (let v = u32_from_le b in if v \<noteq> 0 then Some (v, draws) else random_session_index draws)"

lemma random_session_index_nonzero: "random_session_index draws = Some (v, rest) \<Longrightarrow> v \<noteq> 0"
  by (induction draws) (auto simp: Let_def split: if_splits)

lemma random_session_index_shorter:
  "random_session_index draws = Some (v, rest) \<Longrightarrow> length rest < length draws"
  by (induction draws) (auto simp: Let_def split: if_splits)

lemma random_session_index_None: "random_session_index draws = None \<longleftrightarrow> (\<forall>b \<in> set draws. u32_from_le b = 0)"
  by (induction draws) (auto simp: Let_def)

section \<open>Keys\<close>

text \<open>
  \<open>generate_keypair\<close> copies the two parts of \<open>snow\<close>'s pair into arrays;
  \<open>public_from_private\<close> is \<open>x25519_dalek\<close>'s base-point multiplication. Both crates are
  parameters.
\<close>

definition generate_keypair :: "(bytes \<times> bytes) option \<Rightarrow> crypto_error + bytes \<times> bytes" where
  "generate_keypair snow_pair =
     (case snow_pair of None \<Rightarrow> Inl NoiseBuild | Some (privk, pubk) \<Rightarrow> Inr (privk, pubk))"

definition public_from_private :: "(bytes \<Rightarrow> bytes) \<Rightarrow> bytes \<Rightarrow> bytes" where
  "public_from_private x25519_public private = x25519_public private"

section \<open>Initiator\<close>

definition initiator_new ::
  "('h, 't) handshake_api \<Rightarrow> bytes \<Rightarrow> bytes \<Rightarrow> crypto_error + 'h" where
  "initiator_new hapi private server_public =
     (case hs_build_initiator hapi private server_public of None \<Rightarrow> Inl NoiseBuild | Some h \<Rightarrow> Inr h)"

definition write_init ::
  "('h, 't) handshake_api \<Rightarrow> 'h \<Rightarrow> nat \<Rightarrow> (crypto_error + bytes) \<times> 'h" where
  "write_init hapi self out_len =
     (if out_len = 0 then (Inl EmptyBuffer, self)
      else case hs_write hapi self [] (out_len - 1) of
          (None, h) \<Rightarrow> (Inl NoiseHandshake, h)
        | (Some m, h) \<Rightarrow> (Inr (1 # m), h))"

definition initiator_finish ::
  "('h, 't) handshake_api \<Rightarrow> 'h \<Rightarrow> bytes \<Rightarrow> crypto_error + 't session" where
  "initiator_finish hapi self msg =
     (if (case msg of [] \<Rightarrow> True | b # _ \<Rightarrow> b \<noteq> 2) then Inl ExpectedResponse
      else if length msg < 1 + 4 then Inl ResponseTooShort
      else
        let idx = u32_from_le (byte_range 1 5 msg)
        in case hs_read hapi self (drop 5 msg) MAX_MESSAGE of
             (None, h) \<Rightarrow> Inl NoiseHandshake
           | (Some _, h) \<Rightarrow>
               (case hs_into_transport hapi h of
                  None \<Rightarrow> Inl NoiseHandshake
                | Some t \<Rightarrow> Inr (from_transport idx t)))"

section \<open>Responder\<close>

definition responder_new :: "('h, 't) handshake_api \<Rightarrow> bytes \<Rightarrow> crypto_error + 'h" where
  "responder_new hapi private =
     (case hs_build_responder hapi private of None \<Rightarrow> Inl NoiseBuild | Some h \<Rightarrow> Inr h)"

definition responder_finish ::
  "('h, 't) handshake_api \<Rightarrow> 'h \<Rightarrow> bytes \<Rightarrow> u32 \<Rightarrow> crypto_error + 't session \<times> bytes" where
  "responder_finish hapi self msg idx =
     (if (case msg of [] \<Rightarrow> True | b # _ \<Rightarrow> b \<noteq> 1) then Inl ExpectedInit
      else if idx = 0 then Inl ZeroIndex
      else case hs_read hapi self (drop 1 msg) MAX_MESSAGE of
          (None, h) \<Rightarrow> Inl NoiseHandshake
        | (Some _, h) \<Rightarrow>
            (case hs_write hapi h [] 128 of
               (None, h') \<Rightarrow> Inl NoiseHandshake
             | (Some m, h') \<Rightarrow>
                 (case hs_into_transport hapi h' of
                    None \<Rightarrow> Inl NoiseHandshake
                  | Some t \<Rightarrow> Inr (from_transport idx t, 2 # u32_to_le idx @ m))))"

section \<open>What the handshake relies on\<close>

text \<open>
  Noise IK: an initiator built with its private key and the responder's public key and a
  responder built with the matching private key complete the exchange in two messages of at
  most 128 bytes, end with crossed transport keys and counters at zero, and each learns the
  other's static public key. \<open>pub\<close> derives a public key. A handshake draws an ephemeral key, so
  a \<open>handshake_api\<close> stands for the implementation with one draw; \<open>ik_pair\<close> relates the initiator's
  with the responder's, which need not be the same, and \<open>ik_lawful\<close> is the case of one for both.
\<close>

definition ik_pair ::
  "('h, 't) handshake_api \<Rightarrow> ('h, 't) handshake_api \<Rightarrow> 't transport_api \<Rightarrow> ('t, 'k) noise_view
     \<Rightarrow> (bytes \<Rightarrow> bytes) \<Rightarrow> bool" where
  "ik_pair chapi shapi api v pub \<longleftrightarrow>
     (\<forall>priv spriv h r k. hs_build_initiator chapi priv (pub spriv) = Some h \<longrightarrow>
        hs_build_responder shapi spriv = Some r \<longrightarrow> 128 \<le> k \<longrightarrow>
        (\<exists>m1 h1 r1 m2 r2 h2 ti tr.
           hs_write chapi h [] k = (Some m1, h1)
         \<and> hs_read shapi r m1 MAX_MESSAGE = (Some [], r1)
         \<and> hs_write shapi r1 [] 128 = (Some m2, r2)
         \<and> hs_read chapi h1 m2 MAX_MESSAGE = (Some [], h2)
         \<and> hs_into_transport chapi h2 = Some ti \<and> hs_into_transport shapi r2 = Some tr
         \<and> tx_key v ti = rx_key v tr \<and> tx_key v tr = rx_key v ti
         \<and> counter v ti = 0 \<and> counter v tr = 0
         \<and> noise_remote_static api tr = Some (pub priv)
         \<and> noise_remote_static api ti = Some (pub spriv)))"

definition ik_lawful ::
  "('h, 't) handshake_api \<Rightarrow> 't transport_api \<Rightarrow> ('t, 'k) noise_view \<Rightarrow> (bytes \<Rightarrow> bytes) \<Rightarrow> bool" where
  "ik_lawful hapi api v pub \<longleftrightarrow> ik_pair hapi hapi api v pub"

subsection \<open>A concrete exchange for the witnesses\<close>

datatype demo_hs =
  DemoInit bytes bytes | DemoSent bytes | DemoResp bytes | DemoGot bytes | DemoDone demo_transport

fun demo_hs_write :: "demo_hs \<Rightarrow> bytes \<Rightarrow> nat \<Rightarrow> bytes option \<times> demo_hs" where
  "demo_hs_write (DemoInit priv spub) pt k =
     (if length priv = 32 \<and> 32 \<le> k then (Some priv, DemoSent spub) else (None, DemoInit priv spub))"
| "demo_hs_write (DemoGot c) pt k = (Some [9], DemoDone ((demo_end 2 1)\<lparr>demo_remote := Some c\<rparr>))"
| "demo_hs_write h pt k = (None, h)"

fun demo_hs_read :: "demo_hs \<Rightarrow> bytes \<Rightarrow> nat \<Rightarrow> bytes option \<times> demo_hs" where
  "demo_hs_read (DemoResp s) m k =
     (if 32 \<le> length m then (Some [], DemoGot (take 32 m)) else (None, DemoResp s))"
| "demo_hs_read (DemoSent sp) m k =
     (if m = [9] then (Some [], DemoDone ((demo_end 1 2)\<lparr>demo_remote := Some sp\<rparr>)) else (None, DemoSent sp))"
| "demo_hs_read h m k = (None, h)"

fun demo_into_transport :: "demo_hs \<Rightarrow> demo_transport option" where
  "demo_into_transport (DemoDone t) = Some t"
| "demo_into_transport h = None"

definition demo_hapi :: "(demo_hs, demo_transport) handshake_api" where
  "demo_hapi = \<lparr>
     hs_build_initiator = (\<lambda>p s. if length p = 32 then Some (DemoInit p s) else None),
     hs_build_responder = (\<lambda>p. if length p = 32 then Some (DemoResp p) else None),
     hs_write = demo_hs_write, hs_read = demo_hs_read, hs_into_transport = demo_into_transport\<rparr>"

lemma demo_ik_lawful: "ik_lawful demo_hapi demo_api demo_view (\<lambda>k. k)"
  by (auto simp: ik_lawful_def ik_pair_def demo_hapi_def demo_api_def demo_view_def demo_end_def split: if_splits)

section \<open>Properties\<close>

lemma responder_response_shape:
  assumes "responder_finish hapi r msg idx = Inr (s, response)"
  shows "\<exists>m. response = 2 # u32_to_le idx @ m" "sess_index s = idx" "idx \<noteq> 0"
    "send_nonce s = 0" "replay s = replay_default"
  using assms by (auto simp: responder_finish_def split: if_splits option.splits prod.splits)

text \<open>The whole exchange over a lawful implementation, with all a fresh session holds.\<close>

lemma ik_exchange:
  assumes "ik_pair chapi shapi api v pub" "idx \<noteq> 0" "129 \<le> k"
    and "initiator_new chapi priv (pub spriv) = Inr h" "responder_new shapi spriv = Inr r"
  obtains init h1 srv response cli where
    "write_init chapi h k = (Inr init, h1)" "responder_finish shapi r init idx = Inr (srv, response)"
    "initiator_finish chapi h1 response = Inr cli"
    "sess_index srv = idx" "sess_index cli = idx"
    "connected v cli srv" "connected v srv cli" "lockstep v cli" "lockstep v srv"
    "remote_static api srv = Some (pub priv)"
    "send_nonce srv = 0" "send_nonce cli = 0" "replay srv = replay_default" "replay cli = replay_default"
    "init \<noteq> []" "hd init = 1" "\<exists>m2 h r. response = 2 # u32_to_le idx @ m2 \<and> hs_write shapi h [] 128 = (Some m2, r)"
proof -
  have "hs_build_initiator chapi priv (pub spriv) = Some h" "hs_build_responder shapi spriv = Some r"
    using assms(4,5) by (auto simp: initiator_new_def responder_new_def split: option.splits)
  moreover have "128 \<le> k - 1" using assms(3) by simp
  ultimately obtain m1 h1 r1 m2 r2 h2 ti tr where
    "hs_write chapi h [] (k - 1) = (Some m1, h1)" "hs_read shapi r m1 MAX_MESSAGE = (Some [], r1)"
    "hs_write shapi r1 [] 128 = (Some m2, r2)" "hs_read chapi h1 m2 MAX_MESSAGE = (Some [], h2)"
    "hs_into_transport chapi h2 = Some ti" "hs_into_transport shapi r2 = Some tr"
    "tx_key v ti = rx_key v tr" "tx_key v tr = rx_key v ti" "counter v ti = 0" "counter v tr = 0"
    "noise_remote_static api tr = Some (pub priv)"
    using assms(1) unfolding ik_pair_def by meson
  note run = this
  have "write_init chapi h k = (Inr (1 # m1), h1)"
    using run assms(3) by (simp add: write_init_def)
  moreover have "responder_finish shapi r (1 # m1) idx
      = Inr (from_transport idx tr, 2 # u32_to_le idx @ m2)"
    using run assms(2) by (simp add: responder_finish_def)
  moreover have "initiator_finish chapi h1 (2 # u32_to_le idx @ m2) = Inr (from_transport idx ti)"
    using run by (simp add: initiator_finish_def byte_range_def)
  ultimately show thesis
    using run by (intro that) (auto simp: connected_def lockstep_def remote_static_def)
qed

text \<open>C9: A client and the server it is configured for complete the handshake: the client
  accepts the server's response, both ends hold the session index the server chose, their
  keys are crossed so that packets of either end open at the other, both counters are in
  lockstep, and the server has learnt the client's public key.\<close>

theorem handshake_roundtrip:
  assumes "ik_lawful hapi api v pub" "idx \<noteq> 0" "129 \<le> k"
    and "initiator_new hapi priv (pub spriv) = Inr h" "responder_new hapi spriv = Inr r"
  shows "\<exists>init h1 srv response cli.
      write_init hapi h k = (Inr init, h1)
    \<and> responder_finish hapi r init idx = Inr (srv, response)
    \<and> initiator_finish hapi h1 response = Inr cli
    \<and> sess_index srv = idx \<and> sess_index cli = idx
    \<and> connected v cli srv \<and> connected v srv cli \<and> lockstep v cli \<and> lockstep v srv
    \<and> remote_static api srv = Some (pub priv)"
  by (rule ik_exchange [OF assms(1) [unfolded ik_lawful_def] assms(2-5)]) blast

theorem handshake_roundtrip_witness:
  "\<exists>init h1 srv response cli.
      write_init demo_hapi (DemoInit (replicate 32 5) (replicate 32 6)) 256 = (Inr init, h1)
    \<and> responder_finish demo_hapi (DemoResp (replicate 32 6)) init 42 = Inr (srv, response)
    \<and> initiator_finish demo_hapi h1 response = Inr cli \<and> sess_index cli = 42"
  using handshake_roundtrip [OF demo_ik_lawful, of 42 256 "replicate 32 5" "replicate 32 6"
      "DemoInit (replicate 32 5) (replicate 32 6)" "DemoResp (replicate 32 6)"]
  by (simp add: initiator_new_def responder_new_def demo_hapi_def) blast

end
