(* ===== verification/Rate_Limit.thy ===== *)
theory Rate_Limit
  imports Net_Addr
begin

text \<open>
  The handshake rate limiter of \<open>src/src/server.rs\<close>: a sliding window of accepted
  attempts per source address. \<open>Instant::now()\<close> is an argument of every operation; it never
  goes backwards, so the runs below have sorted times. The interface \<open>rate_limiter\<close> says
  what the limiter remembers; the bound on every window is proved from it.
\<close>

record rate_limit =
  rl_window :: duration
  rl_max :: u32
  rl_hits :: "(ip_addr, instant list) hashmap"

definition rl_new :: "u32 \<Rightarrow> u64 \<Rightarrow> rate_limit" where
  "rl_new limit window_secs =
     \<lparr>rl_window = from_secs (unat (max window_secs 1)), rl_max = max limit 1, rl_hits = hm_empty\<rparr>"

definition rl_allow :: "rate_limit \<Rightarrow> ip_addr \<Rightarrow> instant \<Rightarrow> bool \<times> rate_limit" where
  "rl_allow self ip now =
     (let entry = (case hm_get (rl_hits self) ip of None \<Rightarrow> [] | Some v \<Rightarrow> v);
          entry = filter (\<lambda>t. duration_since now t < rl_window self) entry
      in if rl_max self \<le> of_nat (length entry)
         then (False, self\<lparr>rl_hits := hm_insert ip entry (rl_hits self)\<rparr>)
         else (True, self\<lparr>rl_hits := hm_insert ip (entry @ [now]) (rl_hits self)\<rparr>))"

definition rl_gc :: "rate_limit \<Rightarrow> instant \<Rightarrow> rate_limit" where
  "rl_gc self now =
     self\<lparr>rl_hits := hm_retain (\<lambda>_ v. list_ex (\<lambda>t. duration_since now t < rl_window self) v) (rl_hits self)\<rparr>"

section \<open>The interface of a rate limiter\<close>

definition fresh_times :: "duration \<Rightarrow> instant \<Rightarrow> instant list \<Rightarrow> instant list" where
  "fresh_times w now ts = filter (\<lambda>t. now - t < w) ts"

lemma fresh_times_append [simp]:
  "fresh_times w now (a @ b) = fresh_times w now a @ fresh_times w now b"
  by (simp add: fresh_times_def)

lemma fresh_times_Nil [simp]: "fresh_times w now [] = []"
  by (simp add: fresh_times_def)

lemma fresh_times_single: "fresh_times w now [t] = (if now - t < w then [t] else [])"
  by (simp add: fresh_times_def)

lemma fresh_times_later:
  "now \<le> now' \<Longrightarrow> fresh_times w now' (fresh_times w now ts) = fresh_times w now' ts"
  by (auto simp: fresh_times_def intro: filter_cong)

text \<open>The runs of a limiter: requests of clients and periodic clean-ups.\<close>

datatype 'i limiter_event = Ask 'i instant | Gc instant

fun event_time :: "'i limiter_event \<Rightarrow> instant" where
  "event_time (Ask ip t) = t"
| "event_time (Gc t) = t"

fun limiter_run ::
  "('r \<Rightarrow> 'i \<Rightarrow> instant \<Rightarrow> bool \<times> 'r) \<Rightarrow> ('r \<Rightarrow> instant \<Rightarrow> 'r) \<Rightarrow> 'r \<Rightarrow> 'i limiter_event list
     \<Rightarrow> ('i \<times> instant) list \<times> 'r" where
  "limiter_run allow gc r [] = ([], r)"
| "limiter_run allow gc r (Ask ip t # es) =
     (let (ok, r') = allow r ip t; (acc, r'') = limiter_run allow gc r' es
      in (if ok then (ip, t) # acc else acc, r''))"
| "limiter_run allow gc r (Gc t # es) = limiter_run allow gc (gc r t) es"

definition times_of :: "'i \<Rightarrow> ('i \<times> instant) list \<Rightarrow> instant list" where
  "times_of ip acc = map snd (filter (\<lambda>(i, t). i = ip) acc)"

lemma times_of_simps [simp]:
  "times_of ip [] = []" "times_of ip ((i, t) # acc) = (if i = ip then t # times_of ip acc else times_of ip acc)"
  "times_of ip (acc @ acc') = times_of ip acc @ times_of ip acc'"
  by (simp_all add: times_of_def)

text \<open>The accepted requests of one address in the window that ends at \<open>T\<close>.\<close>

definition in_window :: "duration \<Rightarrow> 'i \<Rightarrow> instant \<Rightarrow> ('i \<times> instant) list \<Rightarrow> instant list" where
  "in_window w ip T acc = filter (\<lambda>t. t \<le> T) (fresh_times w T (times_of ip acc))"

locale rate_limiter =
  fixes allow :: "'r \<Rightarrow> 'i \<Rightarrow> instant \<Rightarrow> bool \<times> 'r"
    and gc :: "'r \<Rightarrow> instant \<Rightarrow> 'r"
    and recent :: "'r \<Rightarrow> 'i \<Rightarrow> instant \<Rightarrow> instant list"
    and ok :: "'r \<Rightarrow> bool"
    and window :: duration
    and limit :: nat
  assumes allow_iff: "ok r \<Longrightarrow> fst (allow r ip now) \<longleftrightarrow> length (recent r ip now) < limit"
    and ok_allow: "ok r \<Longrightarrow> ok (snd (allow r ip now))"
    and ok_gc: "ok r \<Longrightarrow> ok (gc r now)"
    and recent_allow: "ok r \<Longrightarrow> now \<le> now' \<Longrightarrow> recent (snd (allow r ip now)) ip' now' =
      recent r ip' now' @ (if ip' = ip \<and> fst (allow r ip now) then fresh_times window now' [now] else [])"
    and recent_gc: "ok r \<Longrightarrow> now \<le> now' \<Longrightarrow> recent (gc r now) ip now' = recent r ip now'"
begin

definition remembers :: "('i \<times> instant) list \<Rightarrow> instant \<Rightarrow> 'r \<Rightarrow> bool" where
  "remembers acc now r \<longleftrightarrow> ok r \<and> (\<forall>(i, t) \<in> set acc. t \<le> now)
     \<and> (\<forall>ip now'. now \<le> now' \<longrightarrow> recent r ip now' = fresh_times window now' (times_of ip acc))
     \<and> (\<forall>ip T. length (in_window window ip T acc) \<le> limit)"

lemma remembers_gc: "remembers acc now r \<Longrightarrow> now \<le> t \<Longrightarrow> remembers acc t (gc r t)"
  by (fastforce simp: remembers_def ok_gc recent_gc)

lemma remembers_reject:
  "remembers acc now r \<Longrightarrow> now \<le> t \<Longrightarrow> \<not> fst (allow r ip t) \<Longrightarrow> remembers acc t (snd (allow r ip t))"
  by (fastforce simp: remembers_def ok_allow recent_allow)

lemma remembers_allow_iff:
  "remembers acc now r \<Longrightarrow> now \<le> t \<Longrightarrow>
     fst (allow r ip t) \<longleftrightarrow> length (fresh_times window t (times_of ip acc)) < limit"
  by (simp add: remembers_def allow_iff)

lemma in_window_accept:
  assumes old: "\<forall>(i, t) \<in> set acc. t \<le> now"
    and bound: "\<And>T. length (in_window window ip' T acc) \<le> limit"
    and room: "length (fresh_times window now (times_of ip acc)) < limit"
  shows "length (in_window window ip' T (acc @ [(ip, now)])) \<le> limit"
proof (cases "ip' = ip \<and> now \<le> T")
  case False
  then show ?thesis using bound [of T] by (auto simp: in_window_def fresh_times_single)
next
  case True
  have "in_window window ip T acc = filter (\<lambda>t. t \<le> T) (fresh_times window T (fresh_times window now (times_of ip acc)))"
    using True by (simp add: in_window_def fresh_times_later)
  also have "length \<dots> \<le> length (fresh_times window T (fresh_times window now (times_of ip acc)))"
    by (rule length_filter_le)
  also have "\<dots> \<le> length (fresh_times window now (times_of ip acc))"
    unfolding fresh_times_def [of window T] by (rule length_filter_le)
  finally have "length (in_window window ip T acc) \<le> length (fresh_times window now (times_of ip acc))" .
  moreover have "length (in_window window ip T (acc @ [(ip, now)])) \<le> Suc (length (in_window window ip T acc))"
    by (simp add: in_window_def fresh_times_single)
  ultimately show ?thesis using room True by simp
qed

lemma remembers_accept:
  assumes "remembers acc now r" "now \<le> t" "fst (allow r ip t)"
  shows "remembers (acc @ [(ip, t)]) t (snd (allow r ip t))"
  unfolding remembers_def
proof (intro conjI allI impI)
  have old: "\<forall>(i, u) \<in> set acc. u \<le> t" using assms(1,2) by (fastforce simp: remembers_def)
  show "ok (snd (allow r ip t))" using assms(1) by (simp add: remembers_def ok_allow)
  show "\<forall>(i, u) \<in> set (acc @ [(ip, t)]). u \<le> t" using old by auto
  show "recent (snd (allow r ip t)) ip' now' = fresh_times window now' (times_of ip' (acc @ [(ip, t)]))"
    if "t \<le> now'" for ip' now'
    using assms that by (simp add: remembers_def recent_allow)
  show "length (in_window window ip' T (acc @ [(ip, t)])) \<le> limit" for ip' T
  proof (rule in_window_accept [OF old])
    show "length (in_window window ip' T' acc) \<le> limit" for T'
      using assms(1) by (simp add: remembers_def)
    show "length (fresh_times window t (times_of ip acc)) < limit"
      using remembers_allow_iff [OF assms(1,2)] assms(3) by simp
  qed
qed

lemma remembers_run:
  assumes "remembers acc now r" "sorted (now # map event_time es)" "last (now # map event_time es) \<le> now'"
  shows "remembers (acc @ fst (limiter_run allow gc r es)) now' (snd (limiter_run allow gc r es))"
  using assms
proof (induction es arbitrary: acc now r)
  case Nil
  then show ?case by (fastforce simp: remembers_def)
next
  case (Cons e es)
  show ?case
  proof (cases e)
    case (Gc t)
    then show ?thesis using Cons.prems Cons.IH [OF remembers_gc [OF Cons.prems(1), of t]]
      by (simp split: if_splits)
  next
    case (Ask ip t)
    then have le: "now \<le> t" using Cons.prems(2) by simp
    show ?thesis
    proof (cases "fst (allow r ip t)")
      case True
      then show ?thesis
        using Ask Cons.prems Cons.IH [OF remembers_accept [OF Cons.prems(1) le True]]
        by (simp add: Let_def split_def split: if_splits)
    next
      case False
      then show ?thesis
        using Ask Cons.prems Cons.IH [OF remembers_reject [OF Cons.prems(1) le False]]
        by (simp add: Let_def split_def split: if_splits)
    qed
  qed
qed

lemma run_bounded:
  assumes "remembers [] 0 r" "sorted (map event_time es)"
  shows "length (in_window window ip T (fst (limiter_run allow gc r es))) \<le> limit"
  using remembers_run [OF assms(1), of es "last (0 # map event_time es)"] assms(2)
  by (simp add: remembers_def)

lemma run_exact:
  assumes "remembers [] 0 r" "sorted (map event_time es @ [now])"
  shows "fst (allow (snd (limiter_run allow gc r es)) ip now)
    \<longleftrightarrow> length (in_window window ip now (fst (limiter_run allow gc r es))) < limit"
proof -
  let ?acc = "fst (limiter_run allow gc r es)"
  have "last (0 # map event_time es) \<le> now"
    using assms(2) last_in_set [of "0 # map event_time es"] by (auto simp: sorted_append split: if_splits)
  then have rem: "remembers ?acc now (snd (limiter_run allow gc r es))"
    using remembers_run [OF assms(1), of es now] assms(2) by (simp add: sorted_append)
  then have "\<forall>t \<in> set (times_of ip ?acc). t \<le> now"
    by (fastforce simp: remembers_def times_of_def)
  then have "in_window window ip now ?acc = fresh_times window now (times_of ip ?acc)"
    by (auto simp: in_window_def fresh_times_def intro: filter_cong)
  then show ?thesis using remembers_allow_iff [OF rem order_refl] by simp
qed

end

section \<open>The code's limiter\<close>

definition rl_recent :: "rate_limit \<Rightarrow> ip_addr \<Rightarrow> instant \<Rightarrow> instant list" where
  "rl_recent self ip now =
     fresh_times (rl_window self) now (case hm_get (rl_hits self) ip of None \<Rightarrow> [] | Some v \<Rightarrow> v)"

definition rl_ok :: "duration \<Rightarrow> nat \<Rightarrow> rate_limit \<Rightarrow> bool" where
  "rl_ok w l self \<longleftrightarrow> rl_window self = w \<and> unat (rl_max self) = l \<and> hm_wf (rl_hits self)
     \<and> (\<forall>ip v. hm_get (rl_hits self) ip = Some v \<longrightarrow> length v \<le> l)"

lemma rl_recent_length: "rl_ok w l self \<Longrightarrow> length (rl_recent self ip now) \<le> l"
  by (auto simp: rl_ok_def rl_recent_def fresh_times_def split: option.split
      intro: le_trans [OF length_filter_le])

text \<open>The cast of the entry's length to \<open>u32\<close> loses nothing: an entry never outgrows \<open>max\<close>.\<close>

lemma rl_allow_step:
  assumes "rl_ok w l self"
  shows "rl_allow self ip now = (if length (rl_recent self ip now) < l
      then (True, self\<lparr>rl_hits := hm_insert ip (rl_recent self ip now @ [now]) (rl_hits self)\<rparr>)
      else (False, self\<lparr>rl_hits := hm_insert ip (rl_recent self ip now) (rl_hits self)\<rparr>))"
proof -
  let ?n = "length (rl_recent self ip now)"
  have "?n \<le> unat (rl_max self)" using rl_recent_length [OF assms] assms by (simp add: rl_ok_def)
  then have "?n < 2 ^ 32" using unat_less [of "rl_max self"] by simp
  then have "rl_max self \<le> of_nat ?n \<longleftrightarrow> l \<le> ?n"
    using assms by (simp add: word_le_nat_alt unat_of_nat rl_ok_def)
  then show ?thesis
    by (simp add: rl_allow_def Let_def rl_recent_def fresh_times_def duration_since_def not_le)
qed

interpretation rl: rate_limiter rl_allow rl_gc rl_recent "rl_ok w l" w l for w l
proof unfold_locales
  fix r :: rate_limit and ip ip' :: ip_addr and now now' :: instant
  assume ok: "rl_ok w l r"
  show "fst (rl_allow r ip now) \<longleftrightarrow> length (rl_recent r ip now) < l"
    by (simp add: rl_allow_step [OF ok])
  show "rl_ok w l (snd (rl_allow r ip now))"
    using ok rl_recent_length [OF ok, of ip now]
    by (auto simp: rl_allow_step [OF ok] rl_ok_def hm_simps split: if_splits)
  show "rl_ok w l (rl_gc r now)"
    using ok by (auto simp: rl_gc_def rl_ok_def hm_simps split: option.splits if_splits)
  assume le: "now \<le> now'"
  show "rl_recent (snd (rl_allow r ip now)) ip' now' =
      rl_recent r ip' now' @ (if ip' = ip \<and> fst (rl_allow r ip now) then fresh_times w now' [now] else [])"
    using ok fresh_times_later [OF le]
    by (auto simp: rl_allow_step [OF ok] rl_recent_def hm_simps rl_ok_def)
  have "fresh_times w now' v = []" if "\<forall>t \<in> set v. \<not> now - t < w" for v
    using that le by (fastforce simp: fresh_times_def filter_empty_conv)
  then show "rl_recent (rl_gc r now) ip now' = rl_recent r ip now'"
    using ok by (auto simp: rl_gc_def rl_recent_def rl_ok_def hm_simps duration_since_def list_ex_iff
        split: option.split)
qed

lemma rl_new_remembers:
  "rl.remembers (from_secs (unat (max s 1))) (unat (max m 1)) [] 0 (rl_new m s)"
  by (simp add: rl.remembers_def rl_ok_def rl_new_def rl_recent_def in_window_def)

section \<open>Properties\<close>

text \<open>C20: Over any run of requests and clean-ups whose times do not go backwards, no address
  gets more than \<open>max\<close> attempts (at least one) in any window of the configured length, wherever
  the window ends.\<close>

theorem rate_limit_bound:
  assumes "sorted (map event_time es)"
  shows "length (in_window (from_secs (unat (max window_secs 1))) ip T
      (fst (limiter_run rl_allow rl_gc (rl_new limit window_secs) es))) \<le> unat (max limit 1)"
  by (rule rl.run_bounded [OF rl_new_remembers assms])

theorem rate_limit_bound_witness:
  "length (in_window (from_secs (unat (max (10 :: u64) 1))) (IpV4 (Ipv4Addr 1 2 3 4)) 7
      (fst (limiter_run rl_allow rl_gc (rl_new 1 10)
        [Ask (IpV4 (Ipv4Addr 1 2 3 4)) 5, Gc 6, Ask (IpV4 (Ipv4Addr 1 2 3 4)) 7]))) \<le> unat (max (1 :: u32) 1)"
  by (rule rate_limit_bound) simp

text \<open>C21: The limiter refuses nobody it need not refuse: after any run, a request is accepted
  exactly when fewer than \<open>max\<close> requests of the same address were accepted in the window that
  ends now. Clean-ups and other addresses do not change the answer.\<close>

theorem rate_limit_exact:
  assumes "sorted (map event_time es @ [now])"
  shows "let run = limiter_run rl_allow rl_gc (rl_new limit window_secs) es
    in fst (rl_allow (snd run) ip now) \<longleftrightarrow>
      length (in_window (from_secs (unat (max window_secs 1))) ip now (fst run)) < unat (max limit 1)"
  unfolding Let_def by (rule rl.run_exact [OF rl_new_remembers assms])

theorem rate_limit_exact_witness:
  "fst (rl_allow (snd (limiter_run rl_allow rl_gc (rl_new 1 10) [Ask (IpV4 (Ipv4Addr 1 2 3 4)) 5]))
      (IpV4 (Ipv4Addr 1 2 3 4)) (from_secs 11))"
  using rate_limit_exact [of "[Ask (IpV4 (Ipv4Addr 1 2 3 4)) 5]" "from_secs 11" 1 10 "IpV4 (Ipv4Addr 1 2 3 4)"]
  by (simp add: rl_allow_def rl_new_def Let_def in_window_def fresh_times_def from_secs_def max_def
      duration_since_def word_le_nat_alt)

end
