(* ===== verification/Stats.thy ===== *)
theory Stats
  imports Rust_Text Net_Addr
begin

text \<open>
  The runtime counters of \<open>src/src/stats.rs\<close>: the enable flag, the atomic counters (each a
  64-bit word, \<open>fetch_add\<close> wraps), the snapshot the control socket sends and the text the
  command line and the dashboard print from it. The wall clock is an argument (\<open>wall\<close>: the
  time since the Unix epoch, \<open>None\<close> when the clock is set before it), so is the monotonic
  clock of \<open>Instant::now\<close>.

  Numbers that the code prints through \<open>f64\<close> are modelled exactly: a \<open>u64\<close> is rounded
  to 53 significant bits (ties to even), dividing by 1024 only changes the exponent, and
  \<open>{:.2}\<close> rounds the exact value of the double to two decimals, ties to even.
\<close>

section \<open>State\<close>

datatype role = Client | Server

record peer_snapshot =
  ps_tunnel_ip :: string
  ps_endpoint :: string
  ps_session_index :: u32
  ps_last_handshake_ago_secs :: u64
  ps_idle_secs :: u64

record runtime_stats =
  rs_role :: role
  rs_started :: instant
  rs_endpoint :: string
  rs_address :: string
  rs_tun_name :: string
  rs_enabled :: bool
  rs_tx_packets :: u64
  rs_rx_packets :: u64
  rs_tx_bytes :: u64
  rs_rx_bytes :: u64
  rs_encrypt_errors :: u64
  rs_decrypt_errors :: u64
  rs_policy_drops :: u64
  rs_handshakes_ok :: u64
  rs_handshakes_fail :: u64
  rs_reconnects :: u64
  rs_active_sessions :: u64
  rs_last_activity_ms :: u64
  rs_peers :: "peer_snapshot list"

text \<open>The wall clock, in nanoseconds since the epoch.\<close>

type_synonym wall_clock = "duration option"

definition now_ms :: "wall_clock \<Rightarrow> u64" where
  "now_ms wall = (case wall of None \<Rightarrow> 0 | Some d \<Rightarrow> of_nat (d div 1000000))"

definition stats_new ::
  "role \<Rightarrow> string \<Rightarrow> string \<Rightarrow> string \<Rightarrow> instant \<Rightarrow> wall_clock \<Rightarrow> runtime_stats" where
  "stats_new role endpoint address tun_name now wall =
     \<lparr>rs_role = role, rs_started = now, rs_endpoint = endpoint, rs_address = address,
      rs_tun_name = tun_name, rs_enabled = True, rs_tx_packets = 0, rs_rx_packets = 0,
      rs_tx_bytes = 0, rs_rx_bytes = 0, rs_encrypt_errors = 0, rs_decrypt_errors = 0,
      rs_policy_drops = 0, rs_handshakes_ok = 0, rs_handshakes_fail = 0, rs_reconnects = 0,
      rs_active_sessions = 0, rs_last_activity_ms = now_ms wall, rs_peers = []\<rparr>"

section \<open>Operations\<close>

definition is_enabled :: "runtime_stats \<Rightarrow> bool" where
  "is_enabled s = rs_enabled s"

definition touch :: "wall_clock \<Rightarrow> runtime_stats \<Rightarrow> runtime_stats" where
  "touch wall s = s\<lparr>rs_last_activity_ms := now_ms wall\<rparr>"

definition set_enabled :: "wall_clock \<Rightarrow> bool \<Rightarrow> runtime_stats \<Rightarrow> runtime_stats" where
  "set_enabled wall on s = touch wall (s\<lparr>rs_enabled := on\<rparr>)"

definition record_tx :: "wall_clock \<Rightarrow> u64 \<Rightarrow> runtime_stats \<Rightarrow> runtime_stats" where
  "record_tx wall bytes s =
     touch wall (s\<lparr>rs_tx_packets := rs_tx_packets s + 1, rs_tx_bytes := rs_tx_bytes s + bytes\<rparr>)"

definition record_rx :: "wall_clock \<Rightarrow> u64 \<Rightarrow> runtime_stats \<Rightarrow> runtime_stats" where
  "record_rx wall bytes s =
     touch wall (s\<lparr>rs_rx_packets := rs_rx_packets s + 1, rs_rx_bytes := rs_rx_bytes s + bytes\<rparr>)"

definition touch_activity :: "wall_clock \<Rightarrow> runtime_stats \<Rightarrow> runtime_stats" where
  "touch_activity wall s = touch wall s"

definition record_encrypt_err :: "runtime_stats \<Rightarrow> runtime_stats" where
  "record_encrypt_err s = s\<lparr>rs_encrypt_errors := rs_encrypt_errors s + 1\<rparr>"

definition record_decrypt_err :: "runtime_stats \<Rightarrow> runtime_stats" where
  "record_decrypt_err s = s\<lparr>rs_decrypt_errors := rs_decrypt_errors s + 1\<rparr>"

definition record_policy_drop :: "runtime_stats \<Rightarrow> runtime_stats" where
  "record_policy_drop s = s\<lparr>rs_policy_drops := rs_policy_drops s + 1\<rparr>"

definition record_handshake_ok :: "wall_clock \<Rightarrow> runtime_stats \<Rightarrow> runtime_stats" where
  "record_handshake_ok wall s = touch wall (s\<lparr>rs_handshakes_ok := rs_handshakes_ok s + 1\<rparr>)"

definition record_handshake_fail :: "runtime_stats \<Rightarrow> runtime_stats" where
  "record_handshake_fail s = s\<lparr>rs_handshakes_fail := rs_handshakes_fail s + 1\<rparr>"

definition record_reconnect :: "runtime_stats \<Rightarrow> runtime_stats" where
  "record_reconnect s = s\<lparr>rs_reconnects := rs_reconnects s + 1\<rparr>"

definition set_sessions :: "u64 \<Rightarrow> runtime_stats \<Rightarrow> runtime_stats" where
  "set_sessions n s = s\<lparr>rs_active_sessions := n\<rparr>"

definition set_peers :: "peer_snapshot list \<Rightarrow> runtime_stats \<Rightarrow> runtime_stats" where
  "set_peers ps s = s\<lparr>rs_peers := ps\<rparr>"

lemmas stats_defs = is_enabled_def touch_def set_enabled_def record_tx_def record_rx_def
  touch_activity_def record_encrypt_err_def record_decrypt_err_def record_policy_drop_def
  record_handshake_ok_def record_handshake_fail_def record_reconnect_def set_sessions_def
  set_peers_def

text \<open>Only \<open>set_enabled\<close> writes the enable flag.\<close>

lemma rs_enabled_ops [simp]:
  "rs_enabled (touch w s) = rs_enabled s" "rs_enabled (set_enabled w on s) = on"
  "rs_enabled (record_tx w b s) = rs_enabled s" "rs_enabled (record_rx w b s) = rs_enabled s"
  "rs_enabled (touch_activity w s) = rs_enabled s"
  "rs_enabled (record_encrypt_err s) = rs_enabled s"
  "rs_enabled (record_decrypt_err s) = rs_enabled s"
  "rs_enabled (record_policy_drop s) = rs_enabled s"
  "rs_enabled (record_handshake_ok w s) = rs_enabled s"
  "rs_enabled (record_handshake_fail s) = rs_enabled s"
  "rs_enabled (record_reconnect s) = rs_enabled s"
  "rs_enabled (set_sessions n s) = rs_enabled s" "rs_enabled (set_peers ps s) = rs_enabled s"
  by (simp_all add: stats_defs)

section \<open>Snapshots\<close>

record status_snapshot =
  ss_role :: role
  ss_enabled :: bool
  ss_uptime_secs :: u64
  ss_tx_packets :: u64
  ss_rx_packets :: u64
  ss_tx_bytes :: u64
  ss_rx_bytes :: u64
  ss_encrypt_errors :: u64
  ss_decrypt_errors :: u64
  ss_policy_drops :: u64
  ss_handshakes_ok :: u64
  ss_handshakes_fail :: u64
  ss_reconnects :: u64
  ss_active_sessions :: u64
  ss_last_activity_ms :: u64
  ss_endpoint :: string
  ss_address :: string
  ss_tun_name :: string
  ss_pid :: u32
  ss_peers :: "peer_snapshot list"

definition snapshot :: "u32 \<Rightarrow> instant \<Rightarrow> runtime_stats \<Rightarrow> status_snapshot" where
  "snapshot pid now s =
     \<lparr>ss_role = rs_role s, ss_enabled = is_enabled s,
      ss_uptime_secs = of_nat (as_secs (duration_since now (rs_started s))),
      ss_tx_packets = rs_tx_packets s, ss_rx_packets = rs_rx_packets s,
      ss_tx_bytes = rs_tx_bytes s, ss_rx_bytes = rs_rx_bytes s,
      ss_encrypt_errors = rs_encrypt_errors s, ss_decrypt_errors = rs_decrypt_errors s,
      ss_policy_drops = rs_policy_drops s, ss_handshakes_ok = rs_handshakes_ok s,
      ss_handshakes_fail = rs_handshakes_fail s, ss_reconnects = rs_reconnects s,
      ss_active_sessions = rs_active_sessions s, ss_last_activity_ms = rs_last_activity_ms s,
      ss_endpoint = rs_endpoint s, ss_address = rs_address s, ss_tun_name = rs_tun_name s,
      ss_pid = pid, ss_peers = rs_peers s\<rparr>"

section \<open>Text\<close>

definition pad2 :: "nat \<Rightarrow> string" where
  "pad2 n = (if n < 10 then CHR ''0'' # show_nat n else show_nat n)"

definition format_duration :: "duration \<Rightarrow> string" where
  "format_duration d =
     (let s = as_secs d; h = s div 3600; m = (s mod 3600) div 60; sec = s mod 60
      in if 0 < h then show_nat h @ ''h'' @ pad2 m @ ''m'' @ pad2 sec @ ''s''
         else if 0 < m then show_nat m @ ''m'' @ pad2 sec @ ''s''
         else show_nat sec @ ''s'')"

text \<open>\<open>n as f64\<close> for a \<open>u64\<close>; the result is a natural number of at most 53 significant bits.\<close>

fun bit_length :: "nat \<Rightarrow> nat" where
  "bit_length n = (if n = 0 then 0 else Suc (bit_length (n div 2)))"

declare bit_length.simps [simp del]

text \<open>The quotient \<open>n / d\<close> rounded to the nearest natural number, ties to even.\<close>

definition round_div :: "nat \<Rightarrow> nat \<Rightarrow> nat" where
  "round_div n d =
     (let q = n div d; r = n mod d
      in if 2 * r < d \<or> 2 * r = d \<and> even q then q else q + 1)"

definition f64_of_nat :: "nat \<Rightarrow> nat" where
  "f64_of_nat n = (let e = bit_length n - 53 in round_div n (2 ^ e) * 2 ^ e)"

definition UNITS :: "string list" where
  "UNITS = [''B'', ''KiB'', ''MiB'', ''GiB'', ''TiB'']"

text \<open>
  The loop of \<open>format_bytes\<close> from unit \<open>i\<close> on: the double is \<open>r / 1024 ^ i\<close>, and the
  result is the unit at which the loop stops.
\<close>

function unit_loop :: "nat \<Rightarrow> nat \<Rightarrow> nat" where
  "unit_loop r i =
     (if 1024 * 1024 ^ i \<le> r \<and> i < length UNITS - 1 then unit_loop r (i + 1) else i)"
  by auto
termination
  by (relation "measure (\<lambda>(r, i). length UNITS - i)") auto

declare unit_loop.simps [simp del]

definition show_hundredths :: "nat \<Rightarrow> string" where
  "show_hundredths h = show_nat (h div 100) @ ''.'' @ pad2 (h mod 100)"

definition format_bytes :: "u64 \<Rightarrow> string" where
  "format_bytes n =
     (let v = f64_of_nat (unat n); i = unit_loop v 0
      in if i = 0 then show_nat (unat n) @ '' B''
         else show_hundredths (round_div (100 * v) (1024 ^ i)) @ '' '' @ UNITS ! i)"

text \<open>
  \<open>bytes_per_sec.max(0.0) as u64\<close>: a cast from \<open>f64\<close> truncates and saturates. The
  argument is the integer part of the double (the callers pass finite rates).
\<close>

definition format_rate :: "int \<Rightarrow> string" where
  "format_rate bytes_per_sec =
     format_bytes (if 2 ^ 64 \<le> bytes_per_sec then - 1 else of_int (max 0 bytes_per_sec)) @ ''/s''"

definition show_role :: "role \<Rightarrow> string" where
  "show_role r = (case r of Client \<Rightarrow> ''Client'' | Server \<Rightarrow> ''Server'')"

definition newline :: string where
  "newline = [CHR 0x0A]"

definition format_peer :: "peer_snapshot \<Rightarrow> string" where
  "format_peer p = ''  '' @ ps_tunnel_ip p @ ''  via '' @ ps_endpoint p @ ''  idx=''
     @ show_nat (unat (ps_session_index p)) @ ''  hs=''
     @ show_nat (unat (ps_last_handshake_ago_secs p)) @ ''s ago  idle=''
     @ show_nat (unat (ps_idle_secs p)) @ ''s'' @ newline"

text \<open>\<open>Duration::from_millis(now_ms().saturating_sub(..))\<close>.\<close>

definition activity_age :: "wall_clock \<Rightarrow> status_snapshot \<Rightarrow> duration" where
  "activity_age wall s = (unat (now_ms wall) - unat (ss_last_activity_ms s)) * 1000000"

definition format_human :: "wall_clock \<Rightarrow> status_snapshot \<Rightarrow> string" where
  "format_human wall s =
     (let state = (if ss_enabled s then ''ON '' else ''OFF'');
          out = ''soulvpn '' @ show_role (ss_role s) @ ''  ['' @ state @ '']  pid ''
            @ show_nat (unat (ss_pid s)) @ newline
            @ ''endpoint   '' @ ss_endpoint s @ newline
            @ ''address    '' @ ss_address s @ newline
            @ ''tun        '' @ ss_tun_name s @ newline
            @ ''uptime     '' @ format_duration (from_secs (unat (ss_uptime_secs s))) @ newline
            @ ''sessions   '' @ show_nat (unat (ss_active_sessions s)) @ newline
            @ ''tx         '' @ show_nat (unat (ss_tx_packets s)) @ '' pkts  ''
            @ format_bytes (ss_tx_bytes s) @ newline
            @ ''rx         '' @ show_nat (unat (ss_rx_packets s)) @ '' pkts  ''
            @ format_bytes (ss_rx_bytes s) @ newline
            @ ''handshakes ok='' @ show_nat (unat (ss_handshakes_ok s))
            @ ''  fail='' @ show_nat (unat (ss_handshakes_fail s))
            @ ''  reconnects='' @ show_nat (unat (ss_reconnects s)) @ newline
            @ ''errors     encrypt='' @ show_nat (unat (ss_encrypt_errors s))
            @ ''  decrypt='' @ show_nat (unat (ss_decrypt_errors s))
            @ ''  policy='' @ show_nat (unat (ss_policy_drops s)) @ newline
            @ ''last act   '' @ format_duration (activity_age wall s) @ '' ago''
      in if ss_peers s \<noteq> []
         then out @ newline @ ''peers:'' @ newline @ concat (map format_peer (ss_peers s))
         else out)"

section \<open>Durations read back\<close>

definition read_nat :: "string \<Rightarrow> nat" where
  "read_nat s = digits_value 10 0 (map (\<lambda>c. the (to_digit 10 c)) s)"

text \<open>The reading of the \<open>1h02m03s\<close> notation that \<open>format_duration\<close> writes.\<close>

definition read_duration :: "string \<Rightarrow> nat" where
  "read_duration s =
     (let (h, rest) = (case split_once (CHR ''h'') s of None \<Rightarrow> (0, s) | Some (a, b) \<Rightarrow> (read_nat a, b));
          (m, rest') = (case split_once (CHR ''m'') rest of None \<Rightarrow> (0, rest) | Some (a, b) \<Rightarrow> (read_nat a, b))
      in h * 3600 + m * 60 + read_nat (butlast rest'))"

lemma split_once_None: "c \<notin> set s \<Longrightarrow> split_once c s = None"
  by (induction s) auto

lemma show_nat_chars: "c \<in> set (show_nat n) \<Longrightarrow> 48 \<le> (of_char c :: nat) \<and> of_char c \<le> (57 :: nat)"
proof -
  assume "c \<in> set (show_nat n)"
  then obtain d :: nat where "d < 10" "c = char_of (48 + d)"
    using digits_of_less [of 10 _ n] by (auto simp: show_radix_def digit_char_def)
  then show ?thesis by (simp add: of_char_of)
qed

lemma pad2_chars: "c \<in> set (pad2 n) \<Longrightarrow> 48 \<le> (of_char c :: nat) \<and> of_char c \<le> (57 :: nat)"
  by (auto simp: pad2_def dest: show_nat_chars split: if_splits)

lemma number_no_letter:
  "CHR ''h'' \<notin> set (show_nat n)" "CHR ''m'' \<notin> set (show_nat n)"
  "CHR ''h'' \<notin> set (pad2 n)" "CHR ''m'' \<notin> set (pad2 n)"
  by (fastforce dest: show_nat_chars pad2_chars)+

lemma read_nat_show [simp]: "read_nat (show_nat n) = n"
proof -
  have "map (\<lambda>c. the (to_digit 10 c)) (show_nat n) = digits_of 10 n"
    using digits_of_less [of 10 _ n]
    by (auto simp: show_radix_def to_digit_digit_char intro!: map_idI)
  then show ?thesis by (simp add: read_nat_def digits_of_value)
qed

lemma read_nat_pad2 [simp]: "read_nat (pad2 n) = n"
proof -
  have "read_nat (CHR ''0'' # s) = read_nat s" for s
    by (simp add: read_nat_def to_digit_def)
  then show ?thesis by (simp add: pad2_def)
qed

lemmas split_letter = split_once_append [OF number_no_letter(1)] split_once_append [OF number_no_letter(2)]
  split_once_append [OF number_no_letter(3)] split_once_append [OF number_no_letter(4)]

text \<open>The duration texts of the status output lose nothing down to the second: reading
  the printed hours, minutes and seconds back gives the number of whole seconds.\<close>

theorem format_duration_roundtrip: "read_duration (format_duration d) = as_secs d"
proof -
  define s where "s = as_secs d"
  have sum: "s = s div 3600 * 3600 + (s mod 3600) div 60 * 60 + s mod 60"
  proof -
    have "s mod 3600 mod 60 = s mod 60" by (rule mod_mod_cancel) simp
    then show ?thesis
      using div_mult_mod_eq [of s 3600] div_mult_mod_eq [of "s mod 3600" 60] by linarith
  qed
  consider "0 < s div 3600" | "s div 3600 = 0" "0 < (s mod 3600) div 60"
    | "s div 3600 = 0" "(s mod 3600) div 60 = 0" by blast
  then show ?thesis
  proof cases
    case 1
    then show ?thesis
      using sum by (simp add: format_duration_def read_duration_def Let_def split_letter s_def [symmetric])
  next
    case 2
    then show ?thesis
      using sum number_no_letter
      by (simp add: format_duration_def read_duration_def Let_def split_letter s_def [symmetric]
          split_once_None)
  next
    case 3
    then show ?thesis
      using sum number_no_letter
      by (simp add: format_duration_def read_duration_def Let_def s_def [symmetric] split_once_None)
  qed
qed

section \<open>Byte counts\<close>

lemma bit_length_le: "bit_length n \<le> k \<longleftrightarrow> n < 2 ^ k"
proof (induction n arbitrary: k rule: bit_length.induct)
  case (1 n)
  show ?case
  proof (cases "n = 0 \<or> k = 0")
    case True
    then show ?thesis by (auto simp: bit_length.simps [of n])
  next
    case False
    then obtain j where "k = Suc j" by (cases k) auto
    then show ?thesis using False 1 [of j] by (simp add: bit_length.simps [of n]) linarith
  qed
qed

lemma round_div_1 [simp]: "round_div n (Suc 0) = n"
  by (simp add: round_div_def)

lemma f64_of_nat_exact: "n < 2 ^ 53 \<Longrightarrow> f64_of_nat n = n"
  using bit_length_le [of n 53] by (simp add: f64_of_nat_def)

lemma round_div_near:
  assumes "0 < d"
  shows "2 * n \<le> 2 * (round_div n d * d) + d" "2 * (round_div n d * d) \<le> 2 * n + d"
proof -
  have n: "n = n div d * d + n mod d" by simp
  have r: "n mod d < d" using assms by simp
  have "round_div n d * d = n div d * d \<and> 2 * (n mod d) \<le> d
      \<or> round_div n d * d = n div d * d + d \<and> d \<le> 2 * (n mod d)"
    by (auto simp: round_div_def Let_def)
  then show "2 * n \<le> 2 * (round_div n d * d) + d" "2 * (round_div n d * d) \<le> 2 * n + d"
    using n r by linarith+
qed

lemma unit_loop_bounds:
  assumes "i < length UNITS" "i = 0 \<or> 1024 ^ i \<le> r"
  shows "unit_loop r i < length UNITS" "unit_loop r i = 0 \<or> 1024 ^ unit_loop r i \<le> r"
    "unit_loop r i = length UNITS - 1 \<or> r < 1024 ^ (unit_loop r i + 1)"
  using assms
proof (induction r i rule: unit_loop.induct)
  case (1 r i)
  { case 1 then show ?case using "1.IH"(1) by (subst unit_loop.simps) auto
  next
    case 2 then show ?case using "1.IH"(2) by (subst (1 2) unit_loop.simps) auto
  next
    case 3 then show ?case using "1.IH"(3) by (subst (1 2) unit_loop.simps) auto }
qed

text \<open>A byte count below \<open>2 ^ 53\<close>, where the conversion to \<open>f64\<close> is exact, prints
  in the largest unit that is not larger than the count (at most TiB), plain below 1024 and
  otherwise with two decimals that are within half a hundredth of the exact quotient.\<close>

theorem format_bytes_accurate:
  assumes "unat n < 2 ^ 53"
  shows "\<exists>i h. i < length UNITS
    \<and> format_bytes n = (if i = 0 then show_nat (unat n) @ '' B''
                        else show_hundredths h @ '' '' @ UNITS ! i)
    \<and> (i = 0 \<or> 1024 ^ i \<le> unat n) \<and> (i = length UNITS - 1 \<or> unat n < 1024 ^ (i + 1))
    \<and> 2 * (100 * unat n) \<le> 2 * (h * 1024 ^ i) + 1024 ^ i
    \<and> 2 * (h * 1024 ^ i) \<le> 2 * (100 * unat n) + 1024 ^ i"
proof -
  define i where "i = unit_loop (unat n) 0"
  define h where "h = round_div (100 * unat n) (1024 ^ i)"
  have "format_bytes n = (if i = 0 then show_nat (unat n) @ '' B''
                        else show_hundredths h @ '' '' @ UNITS ! i)"
    using assms by (simp add: format_bytes_def f64_of_nat_exact Let_def i_def h_def)
  moreover have "0 < length UNITS" by (simp add: UNITS_def)
  note bounds = unit_loop_bounds [of 0 "unat n", OF this, simplified, folded i_def]
  moreover have "2 * (100 * unat n) \<le> 2 * (h * 1024 ^ i) + 1024 ^ i"
    "2 * (h * 1024 ^ i) \<le> 2 * (100 * unat n) + 1024 ^ i"
    unfolding h_def by (rule round_div_near; simp)+
  ultimately show ?thesis
    by (intro exI [of _ i] exI [of _ h] conjI) auto
qed

theorem format_bytes_accurate_witness:
  "let n = 1536 :: u64 in \<exists>i h. i < length UNITS
    \<and> format_bytes n = (if i = 0 then show_nat (unat n) @ '' B''
                        else show_hundredths h @ '' '' @ UNITS ! i)
    \<and> (i = 0 \<or> 1024 ^ i \<le> unat n) \<and> (i = length UNITS - 1 \<or> unat n < 1024 ^ (i + 1))
    \<and> 2 * (100 * unat n) \<le> 2 * (h * 1024 ^ i) + 1024 ^ i
    \<and> 2 * (h * 1024 ^ i) \<le> 2 * (100 * unat n) + 1024 ^ i"
  unfolding Let_def by (rule format_bytes_accurate) simp

section \<open>Counting\<close>

text \<open>The updates of the counters as events, and their effect on a \<open>RuntimeStats\<close>.\<close>

datatype stat_event =
    EvTx u64 | EvRx u64 | EvTouch | EvEncryptErr | EvDecryptErr | EvPolicyDrop
  | EvHandshakeOk | EvHandshakeFail | EvReconnect | EvSessions u64 | EvPeers "peer_snapshot list"
  | EvEnabled bool

fun stat_apply :: "wall_clock \<Rightarrow> stat_event \<Rightarrow> runtime_stats \<Rightarrow> runtime_stats" where
  "stat_apply w (EvTx b) s = record_tx w b s"
| "stat_apply w (EvRx b) s = record_rx w b s"
| "stat_apply w EvTouch s = touch_activity w s"
| "stat_apply w EvEncryptErr s = record_encrypt_err s"
| "stat_apply w EvDecryptErr s = record_decrypt_err s"
| "stat_apply w EvPolicyDrop s = record_policy_drop s"
| "stat_apply w EvHandshakeOk s = record_handshake_ok w s"
| "stat_apply w EvHandshakeFail s = record_handshake_fail s"
| "stat_apply w EvReconnect s = record_reconnect s"
| "stat_apply w (EvSessions n) s = set_sessions n s"
| "stat_apply w (EvPeers ps) s = set_peers ps s"
| "stat_apply w (EvEnabled on) s = set_enabled w on s"

fun stat_run :: "(wall_clock \<times> stat_event) list \<Rightarrow> runtime_stats \<Rightarrow> runtime_stats" where
  "stat_run [] s = s"
| "stat_run ((w, e) # es) s = stat_run es (stat_apply w e s)"

definition count_events :: "(stat_event \<Rightarrow> bool) \<Rightarrow> (wall_clock \<times> stat_event) list \<Rightarrow> nat" where
  "count_events p es = length (filter (\<lambda>(w, e). p e) es)"

fun tx_size :: "stat_event \<Rightarrow> nat" where
  "tx_size (EvTx b) = unat b"
| "tx_size _ = 0"

lemma count_events_simps [simp]:
  "count_events p [] = 0"
  "count_events p ((w, e) # es) = (if p e then Suc (count_events p es) else count_events p es)"
  by (simp_all add: count_events_def)

lemma stat_run_tx:
  "rs_tx_packets (stat_run es s) = rs_tx_packets s + of_nat (count_events (\<lambda>e. \<exists>b. e = EvTx b) es)
   \<and> rs_tx_bytes (stat_run es s) = rs_tx_bytes s + of_nat (sum_list (map (tx_size \<circ> snd) es))"
proof (induction es s rule: stat_run.induct)
  case (2 w e es s)
  show ?case using 2 by (cases e) (auto simp: stats_defs)
qed simp

lemma stat_run_policy:
  "rs_policy_drops (stat_run es s) = rs_policy_drops s + of_nat (count_events (\<lambda>e. e = EvPolicyDrop) es)"
proof (induction es s rule: stat_run.induct)
  case (2 w e es s)
  show ?case using 2 by (cases e) (auto simp: stats_defs)
qed simp

text \<open>From the start, the transmit counters of a snapshot are the number and the total
  size of the packets recorded, and the policy counter the number of drops recorded, each modulo
  \<open>2 ^ 64\<close>, whatever other updates are interleaved.\<close>

theorem counters_count:
  "let s = snapshot pid t (stat_run es (stats_new r ep addr tun t0 w0))
   in unat (ss_tx_packets s) = count_events (\<lambda>e. \<exists>b. e = EvTx b) es mod 2 ^ 64
    \<and> unat (ss_tx_bytes s) = sum_list (map (tx_size \<circ> snd) es) mod 2 ^ 64
    \<and> unat (ss_policy_drops s) = count_events (\<lambda>e. e = EvPolicyDrop) es mod 2 ^ 64"
  using stat_run_tx [of es "stats_new r ep addr tun t0 w0"]
    stat_run_policy [of es "stats_new r ep addr tun t0 w0"]
  by (simp add: snapshot_def stats_new_def unat_of_nat)

end
