(* ===== verification/Host.thy ===== *)
theory Host
  imports Rust_Text
begin

unbundle bit_operations_syntax

text \<open>
  The part of the operating system the program reaches through \<open>std::fs\<close>: files with a
  content and permission bits, a umask that new files are created under, and a set of paths
  whose writes fail. Reading fails for a missing file and for one whose content cannot be read
  (\<open>readable\<close>); writing replaces the content, after which it reads back, keeps the mode of an
  existing file and creates a missing one with mode 0666 less the umask.
\<close>

text \<open>Permission bits from their three octal digits: \<open>0o640\<close> is \<open>perm 6 4 0\<close>.\<close>

definition perm :: "u32 \<Rightarrow> u32 \<Rightarrow> u32 \<Rightarrow> u32" where
  "perm u g w = u * 64 + g * 8 + w"

record fs_file =
  content :: string
  utf8 :: bool
  readable :: bool
  mode :: u32

record host =
  files :: "string \<Rightarrow> fs_file option"
  umask :: u32
  denied :: "string \<Rightarrow> bool"

definition fs_exists :: "host \<Rightarrow> string \<Rightarrow> bool" where
  "fs_exists h p = (case files h p of None \<Rightarrow> False | Some _ \<Rightarrow> True)"

definition fs_read :: "host \<Rightarrow> string \<Rightarrow> string option" where
  "fs_read h p =
     (case files h p of None \<Rightarrow> None | Some f \<Rightarrow> if readable f then Some (content f) else None)"

definition fs_read_to_string :: "host \<Rightarrow> string \<Rightarrow> string option" where
  "fs_read_to_string h p =
     (case files h p of None \<Rightarrow> None | Some f \<Rightarrow> if readable f \<and> utf8 f then Some (content f) else None)"

definition fs_mode :: "host \<Rightarrow> string \<Rightarrow> u32 option" where
  "fs_mode h p = map_option mode (files h p)"

definition fs_write :: "host \<Rightarrow> string \<Rightarrow> string \<Rightarrow> host option" where
  "fs_write h p c =
     (if denied h p then None
      else Some (h\<lparr>files := (files h)(p \<mapsto>
        (case files h p of
           None \<Rightarrow> \<lparr>content = c, utf8 = True, readable = True, mode = perm 6 6 6 AND NOT (umask h)\<rparr>
         | Some f \<Rightarrow> f\<lparr>content := c, utf8 := True, readable := True\<rparr>))\<rparr>))"

definition fs_set_mode :: "host \<Rightarrow> string \<Rightarrow> u32 \<Rightarrow> host option" where
  "fs_set_mode h p m =
     (case files h p of
        None \<Rightarrow> None
      | Some f \<Rightarrow> if denied h p then None else Some (h\<lparr>files := (files h)(p \<mapsto> f\<lparr>mode := m\<rparr>)\<rparr>))"

definition fs_remove :: "host \<Rightarrow> string \<Rightarrow> host option" where
  "fs_remove h p =
     (if fs_exists h p \<and> \<not> denied h p then Some (h\<lparr>files := (files h)(p := None)\<rparr>) else None)"

lemma fs_exists_iff [simp]: "fs_exists h p \<longleftrightarrow> files h p \<noteq> None"
  by (simp add: fs_exists_def split: option.split)

lemma fs_write_read:
  "fs_write h p c = Some h' \<Longrightarrow> fs_read h' q = (if q = p then Some c else fs_read h q)"
  by (auto simp: fs_write_def fs_read_def split: if_splits option.splits)

lemma fs_write_read_to_string:
  "fs_write h p c = Some h' \<Longrightarrow>
   fs_read_to_string h' q = (if q = p then Some c else fs_read_to_string h q)"
  by (auto simp: fs_write_def fs_read_to_string_def split: if_splits option.splits)

lemma fs_write_mode:
  "fs_write h p c = Some h' \<Longrightarrow>
   fs_mode h' q = (if q = p then Some (case files h p of None \<Rightarrow> perm 6 6 6 AND NOT (umask h) | Some f \<Rightarrow> mode f)
                   else fs_mode h q)"
  by (auto simp: fs_write_def fs_mode_def split: if_splits option.splits)

lemma fs_write_env:
  "fs_write h p c = Some h' \<Longrightarrow> umask h' = umask h \<and> denied h' = denied h"
  by (auto simp: fs_write_def split: if_splits)

end
