(* ===== verification/Config.thy ===== *)
theory Config
  imports Net_Addr Host
begin

unbundle bit_operations_syntax

text \<open>
  Configuration, \<open>src/src/config.rs\<close>: the two configuration structs with their serde
  defaults, loading and validating them, key material from inline text or files, CIDR and
  mode parsing, network arithmetic, and writing key files. The TOML parser and the base64
  codec are third-party: \<open>toml_server\<close> and \<open>toml_client\<close> turn a text into the table of
  fields present in it, \<open>b64_decode\<close> and \<open>b64_encode\<close> are the codec.
\<close>

section \<open>Errors and tables\<close>

datatype config_error =
    ReadFile string
  | ParseToml
  | NoPeers
  | InvalidMode string
  | MtuRange
  | NotCidr
  | BadIpv4
  | BadPrefix
  | PrefixTooLong
  | Base64Decode
  | KeyLength nat
  | DuplicateAllowedIp ipv4
  | DuplicatePublicKey
  | OutsideNetwork ipv4 ipv4 u8
  | EqualsServer ipv4
  | EqualsNetwork ipv4
  | StatKeyFile string
  | KeyFileMode string u32
  | KeysDisagree string
  | NoKeyMaterial
  | DnsNotIpv4 string
  | CreateDir string
  | WriteFile string
  | SetPermissions string

record peer_config =
  public_key :: string
  allowed_ip :: string

record server_config =
  sc_listen :: socket_addr
  sc_private_key :: "string option"
  sc_private_key_file :: "string option"
  sc_address :: string
  sc_mtu :: u16
  sc_nat :: bool
  sc_handshake_rate_limit :: u32
  sc_handshake_rate_window_secs :: u64
  sc_session_idle_secs :: u64
  sc_control_mode :: string
  sc_peers :: "peer_config list"

record client_config =
  cc_endpoint :: socket_addr
  cc_private_key :: "string option"
  cc_private_key_file :: "string option"
  cc_server_public_key :: "string option"
  cc_server_public_key_file :: "string option"
  cc_address :: string
  cc_mtu :: u16
  cc_redirect_all :: bool
  cc_kill_switch :: bool
  cc_disable_ipv6 :: bool
  cc_dns :: "string list"
  cc_keepalive_secs :: u64
  cc_rekey_secs :: u64
  cc_reconnect_timeout_secs :: u64
  cc_control_mode :: string

text \<open>The fields a TOML text gives, typed as the struct's; a missing field is \<open>None\<close>.\<close>

record server_table =
  st_listen :: "socket_addr option"
  st_private_key :: "string option"
  st_private_key_file :: "string option"
  st_address :: "string option"
  st_mtu :: "u16 option"
  st_nat :: "bool option"
  st_handshake_rate_limit :: "u32 option"
  st_handshake_rate_window_secs :: "u64 option"
  st_session_idle_secs :: "u64 option"
  st_control_mode :: "string option"
  st_peers :: "peer_config list option"

record client_table =
  ct_endpoint :: "socket_addr option"
  ct_private_key :: "string option"
  ct_private_key_file :: "string option"
  ct_server_public_key :: "string option"
  ct_server_public_key_file :: "string option"
  ct_address :: "string option"
  ct_mtu :: "u16 option"
  ct_redirect_all :: "bool option"
  ct_kill_switch :: "bool option"
  ct_disable_ipv6 :: "bool option"
  ct_dns :: "string list option"
  ct_keepalive_secs :: "u64 option"
  ct_rekey_secs :: "u64 option"
  ct_reconnect_timeout_secs :: "u64 option"
  ct_control_mode :: "string option"

section \<open>Defaults\<close>

definition default_mtu :: u16 where "default_mtu = 1400"
definition default_true :: bool where "default_true = True"
definition default_hs_rate :: u32 where "default_hs_rate = 10"
definition default_hs_window :: u64 where "default_hs_window = 10"
definition default_session_idle :: u64 where "default_session_idle = 180"
definition default_keepalive :: u64 where "default_keepalive = 25"
definition default_rekey :: u64 where "default_rekey = 120"
definition default_reconnect :: u64 where "default_reconnect = 45"
definition default_control_mode :: string where "default_control_mode = ''0600''"

definition or_default :: "'a option \<Rightarrow> 'a \<Rightarrow> 'a" where
  "or_default x d = (case x of None \<Rightarrow> d | Some v \<Rightarrow> v)"

definition server_of_table :: "server_table \<Rightarrow> server_config option" where
  "server_of_table t =
     (case (st_listen t, st_address t, st_peers t) of
        (Some listen, Some addr, Some peers) \<Rightarrow>
          Some \<lparr>sc_listen = listen,
            sc_private_key = st_private_key t,
            sc_private_key_file = st_private_key_file t,
            sc_address = addr,
            sc_mtu = or_default (st_mtu t) default_mtu,
            sc_nat = or_default (st_nat t) False,
            sc_handshake_rate_limit = or_default (st_handshake_rate_limit t) default_hs_rate,
            sc_handshake_rate_window_secs = or_default (st_handshake_rate_window_secs t) default_hs_window,
            sc_session_idle_secs = or_default (st_session_idle_secs t) default_session_idle,
            sc_control_mode = or_default (st_control_mode t) default_control_mode,
            sc_peers = peers\<rparr>
      | _ \<Rightarrow> None)"

definition client_of_table :: "client_table \<Rightarrow> client_config option" where
  "client_of_table t =
     (case (ct_endpoint t, ct_address t) of
        (Some endpoint, Some addr) \<Rightarrow>
          Some \<lparr>cc_endpoint = endpoint,
            cc_private_key = ct_private_key t,
            cc_private_key_file = ct_private_key_file t,
            cc_server_public_key = ct_server_public_key t,
            cc_server_public_key_file = ct_server_public_key_file t,
            cc_address = addr,
            cc_mtu = or_default (ct_mtu t) default_mtu,
            cc_redirect_all = or_default (ct_redirect_all t) default_true,
            cc_kill_switch = or_default (ct_kill_switch t) False,
            cc_disable_ipv6 = or_default (ct_disable_ipv6 t) default_true,
            cc_dns = or_default (ct_dns t) [],
            cc_keepalive_secs = or_default (ct_keepalive_secs t) default_keepalive,
            cc_rekey_secs = or_default (ct_rekey_secs t) default_rekey,
            cc_reconnect_timeout_secs = or_default (ct_reconnect_timeout_secs t) default_reconnect,
            cc_control_mode = or_default (ct_control_mode t) default_control_mode\<rparr>
      | _ \<Rightarrow> None)"

section \<open>Parsing\<close>

definition parse_mode :: "string \<Rightarrow> config_error + u32" where
  "parse_mode s =
     (let t = strip_prefixes (CHR ''0'') (CHR ''o'') (trim s)
      in case parse_unsigned 8 (2 ^ 32 - 1) t of
           None \<Rightarrow> Inl (InvalidMode s)
         | Some m \<Rightarrow> Inr (word_of_nat m))"

definition decode_key :: "(string \<Rightarrow> bytes option) \<Rightarrow> string \<Rightarrow> config_error + bytes" where
  "decode_key b64_decode s =
     (case b64_decode (trim s) of
        None \<Rightarrow> Inl Base64Decode
      | Some bs \<Rightarrow> if length bs \<noteq> 32 then Inl (KeyLength (length bs)) else Inr bs)"

definition encode_key :: "(bytes \<Rightarrow> string) \<Rightarrow> bytes \<Rightarrow> string" where
  "encode_key b64_encode key = b64_encode key"

definition resolve_key_inline :: "(string \<Rightarrow> bytes option) \<Rightarrow> string \<Rightarrow> config_error + bytes" where
  "resolve_key_inline b64_decode s = decode_key b64_decode s"

definition parse_cidr :: "string \<Rightarrow> config_error + ipv4 \<times> u8" where
  "parse_cidr s =
     (case split_once (CHR ''/'') s of
        None \<Rightarrow> Inl NotCidr
      | Some (ip, prefix) \<Rightarrow>
          (case parse_ipv4_addr ip of
             None \<Rightarrow> Inl BadIpv4
           | Some ip \<Rightarrow>
               (case parse_unsigned 10 255 prefix of
                  None \<Rightarrow> Inl BadPrefix
                | Some prefix \<Rightarrow>
                    if 32 < prefix then Inl PrefixTooLong else Inr (ip, word_of_nat prefix))))"

definition parse_ipv4 :: "string \<Rightarrow> config_error + ipv4" where
  "parse_ipv4 s =
     (let host = (case split_on (CHR ''/'') s of [] \<Rightarrow> s | h # _ \<Rightarrow> h)
      in case parse_ipv4_addr host of None \<Rightarrow> Inl BadIpv4 | Some ip \<Rightarrow> Inr ip)"

section \<open>Networks\<close>

definition network_addr :: "ipv4 \<Rightarrow> u8 \<Rightarrow> ipv4" where
  "network_addr ip prefix =
     (if prefix = 0 then Ipv4Addr 0 0 0 0
      else ipv4_of_u32 (ipv4_to_u32 ip AND shl_mask prefix))"

definition ip_in_network :: "ipv4 \<Rightarrow> ipv4 \<Rightarrow> u8 \<Rightarrow> bool" where
  "ip_in_network ip network prefix =
     (if prefix = 0 then True
      else (ipv4_to_u32 ip AND shl_mask prefix) = (ipv4_to_u32 network AND shl_mask prefix))"

section \<open>Key material\<close>

definition check_key_file_permissions :: "host \<Rightarrow> string \<Rightarrow> config_error + unit" where
  "check_key_file_permissions h path =
     (case fs_mode h path of
        None \<Rightarrow> Inl (StatKeyFile path)
      | Some m \<Rightarrow>
          let mode = m AND perm 7 7 7
          in if mode AND perm 0 7 7 \<noteq> 0 then Inl (KeyFileMode path mode) else Inr ())"

definition read_key_file ::
  "(string \<Rightarrow> bytes option) \<Rightarrow> host \<Rightarrow> string \<Rightarrow> config_error + bytes" where
  "read_key_file b64_decode h path =
     (case fs_read_to_string h path of
        None \<Rightarrow> Inl (ReadFile path)
      | Some text \<Rightarrow>
          decode_key b64_decode (trim (case first_line text of None \<Rightarrow> '''' | Some l \<Rightarrow> l)))"

definition load_key_material ::
  "(string \<Rightarrow> bytes option) \<Rightarrow> host \<Rightarrow> string option \<Rightarrow> string option \<Rightarrow> config_error + bytes" where
  "load_key_material b64_decode h inline key_file =
     (case (inline, key_file) of
        (Some s, None) \<Rightarrow> decode_key b64_decode s
      | (None, Some path) \<Rightarrow>
          (case check_key_file_permissions h path of
             Inl e \<Rightarrow> Inl e
           | Inr _ \<Rightarrow> read_key_file b64_decode h path)
      | (Some s, Some path) \<Rightarrow>
          (case check_key_file_permissions h path of
             Inl e \<Rightarrow> Inl e
           | Inr _ \<Rightarrow>
               (case read_key_file b64_decode h path of
                  Inl e \<Rightarrow> Inl e
                | Inr from_file \<Rightarrow>
                    (case decode_key b64_decode s of
                       Inl e \<Rightarrow> Inl e
                     | Inr from_inline \<Rightarrow>
                         if from_file \<noteq> from_inline then Inl (KeysDisagree path)
                         else Inr from_file)))
      | (None, None) \<Rightarrow> Inl NoKeyMaterial)"

definition server_load_private_key ::
  "(string \<Rightarrow> bytes option) \<Rightarrow> host \<Rightarrow> server_config \<Rightarrow> config_error + bytes" where
  "server_load_private_key b64_decode h cfg =
     load_key_material b64_decode h (sc_private_key cfg) (sc_private_key_file cfg)"

definition client_load_private_key ::
  "(string \<Rightarrow> bytes option) \<Rightarrow> host \<Rightarrow> client_config \<Rightarrow> config_error + bytes" where
  "client_load_private_key b64_decode h cfg =
     load_key_material b64_decode h (cc_private_key cfg) (cc_private_key_file cfg)"

definition client_load_server_public_key ::
  "(string \<Rightarrow> bytes option) \<Rightarrow> host \<Rightarrow> client_config \<Rightarrow> config_error + bytes" where
  "client_load_server_public_key b64_decode h cfg =
     load_key_material b64_decode h (cc_server_public_key cfg) (cc_server_public_key_file cfg)"

section \<open>Loading\<close>

text \<open>The loop over the peers, with the addresses and keys seen so far.\<close>

fun check_peers ::
  "(string \<Rightarrow> bytes option) \<Rightarrow> ipv4 \<Rightarrow> u8 \<Rightarrow> ipv4 set \<Rightarrow> bytes set \<Rightarrow> peer_config list
    \<Rightarrow> config_error + unit" where
  "check_peers b64_decode server_ip prefix seen_ips seen_keys [] = Inr ()"
| "check_peers b64_decode server_ip prefix seen_ips seen_keys (p # ps) =
     (let network = network_addr server_ip prefix in
      case parse_ipv4 (allowed_ip p) of
        Inl e \<Rightarrow> Inl e
      | Inr tip \<Rightarrow>
          (case resolve_key_inline b64_decode (public_key p) of
             Inl e \<Rightarrow> Inl e
           | Inr pk \<Rightarrow>
               if tip \<in> seen_ips then Inl (DuplicateAllowedIp tip)
               else if pk \<in> seen_keys then Inl DuplicatePublicKey
               else if \<not> ip_in_network tip network prefix then Inl (OutsideNetwork tip network prefix)
               else if tip = server_ip then Inl (EqualsServer tip)
               else if tip = network then Inl (EqualsNetwork tip)
               else check_peers b64_decode server_ip prefix (insert tip seen_ips) (insert pk seen_keys) ps))"

definition server_load ::
  "(string \<Rightarrow> server_table option) \<Rightarrow> (string \<Rightarrow> bytes option) \<Rightarrow> host \<Rightarrow> string
    \<Rightarrow> config_error + server_config" where
  "server_load toml_server b64_decode h path =
     (case fs_read_to_string h path of
        None \<Rightarrow> Inl (ReadFile path)
      | Some text \<Rightarrow>
          (case Option.bind (toml_server text) server_of_table of
             None \<Rightarrow> Inl ParseToml
           | Some cfg \<Rightarrow>
               if sc_peers cfg = [] then Inl NoPeers
               else case parse_mode (sc_control_mode cfg) of
                   Inl e \<Rightarrow> Inl e
                 | Inr _ \<Rightarrow>
                     if sc_mtu cfg < 576 \<or> 9000 < sc_mtu cfg then Inl MtuRange
                     else case parse_cidr (sc_address cfg) of
                         Inl e \<Rightarrow> Inl e
                       | Inr (server_ip, prefix) \<Rightarrow>
                           (case check_peers b64_decode server_ip prefix {} {} (sc_peers cfg) of
                              Inl e \<Rightarrow> Inl e
                            | Inr _ \<Rightarrow>
                                (case server_load_private_key b64_decode h cfg of
                                   Inl e \<Rightarrow> Inl e
                                 | Inr _ \<Rightarrow> Inr cfg))))"

fun check_dns :: "string list \<Rightarrow> config_error + unit" where
  "check_dns [] = Inr ()"
| "check_dns (d # ds) =
     (case parse_ipv4_addr d of None \<Rightarrow> Inl (DnsNotIpv4 d) | Some _ \<Rightarrow> check_dns ds)"

definition client_load ::
  "(string \<Rightarrow> client_table option) \<Rightarrow> (string \<Rightarrow> bytes option) \<Rightarrow> host \<Rightarrow> string
    \<Rightarrow> config_error + client_config" where
  "client_load toml_client b64_decode h path =
     (case fs_read_to_string h path of
        None \<Rightarrow> Inl (ReadFile path)
      | Some text \<Rightarrow>
          (case Option.bind (toml_client text) client_of_table of
             None \<Rightarrow> Inl ParseToml
           | Some cfg \<Rightarrow>
               (case parse_mode (cc_control_mode cfg) of
                  Inl e \<Rightarrow> Inl e
                | Inr _ \<Rightarrow>
                    if cc_mtu cfg < 576 \<or> 9000 < cc_mtu cfg then Inl MtuRange
                    else case client_load_private_key b64_decode h cfg of
                        Inl e \<Rightarrow> Inl e
                      | Inr _ \<Rightarrow>
                          (case client_load_server_public_key b64_decode h cfg of
                             Inl e \<Rightarrow> Inl e
                           | Inr _ \<Rightarrow>
                               (case check_dns (cc_dns cfg) of
                                  Inl e \<Rightarrow> Inl e
                                | Inr _ \<Rightarrow> Inr cfg)))))"

section \<open>Writing keys\<close>

text \<open>
  \<open>write_keypair_files\<close>; the directory creation is the argument \<open>create_dir_all\<close>.
  \<open>path_join\<close> is \<open>Path::join\<close>: an absolute name replaces the directory, otherwise one
  slash separates the two.
\<close>

definition path_join :: "string \<Rightarrow> string \<Rightarrow> string" where
  "path_join dir name =
     (if name \<noteq> [] \<and> hd name = CHR ''/'' then name
      else if dir = [] \<or> last dir = CHR ''/'' then dir @ name
      else dir @ ''/'' @ name)"

definition write_keypair_files ::
  "(bytes \<Rightarrow> string) \<Rightarrow> (host \<Rightarrow> string \<Rightarrow> host option) \<Rightarrow> host \<Rightarrow> string \<Rightarrow> string \<Rightarrow> bytes \<Rightarrow> bytes
    \<Rightarrow> (config_error + string \<times> string) \<times> host" where
  "write_keypair_files b64_encode create_dir_all h dir prefix privk pubk =
     (case create_dir_all h dir of
        None \<Rightarrow> (Inl (CreateDir dir), h)
      | Some h1 \<Rightarrow>
          let priv_path = path_join dir (prefix @ ''.priv'');
              pub_path = path_join dir (prefix @ ''.pub'')
          in case fs_write h1 priv_path (encode_key b64_encode privk @ [CHR 0x0A]) of
               None \<Rightarrow> (Inl (WriteFile priv_path), h1)
             | Some h2 \<Rightarrow>
                 (case fs_set_mode h2 priv_path (perm 6 0 0) of
                    None \<Rightarrow> (Inl (SetPermissions priv_path), h2)
                  | Some h3 \<Rightarrow>
                      (case fs_write h3 pub_path (encode_key b64_encode pubk @ [CHR 0x0A]) of
                         None \<Rightarrow> (Inl (WriteFile pub_path), h3)
                       | Some h4 \<Rightarrow> (Inr (priv_path, pub_path), h4))))"

section \<open>Lemmas\<close>

lemma parse_mode_octal:
  assumes "m < 2 ^ 32"
  shows "parse_mode (show_radix 8 m) = Inr (word_of_nat m)"
    and "parse_mode (CHR ''0'' # show_radix 8 m) = Inr (word_of_nat m)"
proof -
  have range: "33 \<le> (of_char c :: nat) \<and> of_char c < (128 :: nat) \<and> c \<noteq> CHR ''o'' \<and> c \<noteq> CHR ''+''"
    if c: "c \<in> set (show_radix 8 m)" for c
  proof -
    obtain d where "d \<in> set (digits_of 8 m)" "c = digit_char d"
      using c by (auto simp: show_radix_def)
    moreover from this have d: "d < 8" by (simp add: digits_of_less)
    ultimately have n: "of_char c = 48 + d" by (simp add: digit_char_def of_char_of)
    moreover have "c \<noteq> CHR ''o''" "c \<noteq> CHR ''+''" using n d by auto
    ultimately show ?thesis using d by simp
  qed
  have strip: "strip_prefixes (CHR ''0'') (CHR ''o'') s = s" if "CHR ''o'' \<notin> set s" for s
    using that by (cases "(CHR ''0'', CHR ''o'', s)" rule: strip_prefixes.cases) auto
  have trims: "trim (show_radix 8 m) = show_radix 8 m"
    "trim (CHR ''0'' # show_radix 8 m) = CHR ''0'' # show_radix 8 m"
    using range by (auto intro!: trim_id)
  have strips: "strip_prefixes (CHR ''0'') (CHR ''o'') (show_radix 8 m) = show_radix 8 m"
    "strip_prefixes (CHR ''0'') (CHR ''o'') (CHR ''0'' # show_radix 8 m) = CHR ''0'' # show_radix 8 m"
    using range [of "CHR ''o''"] by (auto intro!: strip simp del: strip_prefixes.simps)
  have parse: "parse_unsigned 8 (2 ^ 32 - 1) (show_radix 8 m) = Some m"
    using assms by (intro parse_unsigned_show) auto
  moreover have "parse_unsigned 8 (2 ^ 32 - 1) (CHR ''0'' # show_radix 8 m) = Some m"
  proof -
    obtain c cs where s: "show_radix 8 m = c # cs"
      using digits_of_nonempty [of 8 m] by (cases "digits_of 8 m") (auto simp: show_radix_def)
    then have "c \<noteq> CHR ''+''" using range [of c] by simp
    moreover have "to_digit 8 (CHR ''0'') = Some 0" by code_simp
    ultimately show ?thesis using parse s by (simp add: parse_unsigned_def)
  qed
  ultimately show "parse_mode (show_radix 8 m) = Inr (word_of_nat m)"
    "parse_mode (CHR ''0'' # show_radix 8 m) = Inr (word_of_nat m)"
    by (simp_all add: parse_mode_def trims strips)
qed

lemma shl_mask_and:
  assumes "0 < p" "p \<le> 32"
  shows "w AND shl_mask p = push_bit (32 - unat p) (drop_bit (32 - unat p) w)"
proof (rule bit_word_eqI)
  fix n
  assume "n < LENGTH(32)"
  then show "bit (w AND shl_mask p) n
      \<longleftrightarrow> bit (push_bit (32 - unat p) (drop_bit (32 - unat p) w)) n"
    using bit_shl_mask [OF assms, of n]
    by (cases "32 - unat p \<le> n") (simp_all add: bit_and_iff bit_push_bit_iff bit_drop_bit_eq)
qed

lemma shl_mask_and_eq_iff:
  assumes "0 < p" "p \<le> 32"
  shows "(a AND shl_mask p) = (b AND shl_mask p)
    \<longleftrightarrow> unat a div 2 ^ (32 - unat p) = unat b div 2 ^ (32 - unat p)"
proof -
  let ?k = "32 - unat p"
  have "(a AND shl_mask p) = (b AND shl_mask p) \<longleftrightarrow> drop_bit ?k a = drop_bit ?k b"
  proof
    assume eq: "(a AND shl_mask p) = (b AND shl_mask p)"
    have "drop_bit ?k (push_bit ?k (drop_bit ?k w)) = drop_bit ?k w" for w :: u32
      by (rule bit_eqI) (auto simp: bit_push_bit_iff bit_drop_bit_eq dest: bit_imp_le_length)
    then show "drop_bit ?k a = drop_bit ?k b"
      using eq by (metis shl_mask_and [OF assms])
  qed (simp add: shl_mask_and [OF assms])
  also have "\<dots> \<longleftrightarrow> unat (drop_bit ?k a) = unat (drop_bit ?k b)"
    by (simp add: word_unat_eq_iff)
  also have "\<dots> \<longleftrightarrow> drop_bit ?k (unat a) = drop_bit ?k (unat b)"
    by (simp only: unat_drop_bit_eq)
  finally show ?thesis
    by (simp only: drop_bit_eq_div)
qed

definition peers_valid ::
  "(string \<Rightarrow> bytes option) \<Rightarrow> ipv4 \<Rightarrow> u8 \<Rightarrow> peer_config list \<Rightarrow> ipv4 list \<Rightarrow> bytes list \<Rightarrow> bool" where
  "peers_valid b64_decode server_ip prefix ps tips keys \<longleftrightarrow>
     map (\<lambda>p. parse_ipv4 (allowed_ip p)) ps = map Inr tips \<and>
     map (\<lambda>p. decode_key b64_decode (public_key p)) ps = map Inr keys \<and>
     distinct tips \<and> distinct keys \<and>
     (\<forall>t \<in> set tips. ip_in_network t (network_addr server_ip prefix) prefix
        \<and> t \<noteq> server_ip \<and> t \<noteq> network_addr server_ip prefix)"

lemma peers_valid_Nil [simp]: "peers_valid d s p [] tips keys \<longleftrightarrow> tips = [] \<and> keys = []"
  by (auto simp: peers_valid_def)

lemma peers_valid_Cons:
  "peers_valid d s p (x # ps) tips keys \<longleftrightarrow>
   (\<exists>t ts k ks. tips = t # ts \<and> keys = k # ks \<and> parse_ipv4 (allowed_ip x) = Inr t
      \<and> decode_key d (public_key x) = Inr k \<and> t \<notin> set ts \<and> k \<notin> set ks
      \<and> ip_in_network t (network_addr s p) p \<and> t \<noteq> s \<and> t \<noteq> network_addr s p
      \<and> peers_valid d s p ps ts ks)"
  by (cases tips; cases keys) (auto simp: peers_valid_def)

lemma check_peers_iff:
  "check_peers d s p ips ks ps = Inr () \<longleftrightarrow>
   (\<exists>tips keys. peers_valid d s p ps tips keys \<and> set tips \<inter> ips = {} \<and> set keys \<inter> ks = {})"
proof (induction ps arbitrary: ips ks)
  case Nil
  then show ?case by auto
next
  case (Cons x ps)
  show ?case
  proof (cases "\<exists>t k. parse_ipv4 (allowed_ip x) = Inr t \<and> decode_key d (public_key x) = Inr k
      \<and> t \<notin> ips \<and> k \<notin> ks \<and> ip_in_network t (network_addr s p) p \<and> t \<noteq> s \<and> t \<noteq> network_addr s p")
    case True
    then obtain t k where tk: "parse_ipv4 (allowed_ip x) = Inr t" "decode_key d (public_key x) = Inr k"
      "t \<notin> ips" "k \<notin> ks" "ip_in_network t (network_addr s p) p" "t \<noteq> s" "t \<noteq> network_addr s p"
      by blast
    then have "check_peers d s p ips ks (x # ps) = check_peers d s p (insert t ips) (insert k ks) ps"
      by (simp add: Let_def resolve_key_inline_def)
    also have "\<dots> = Inr () \<longleftrightarrow> (\<exists>tips keys. peers_valid d s p ps tips keys
        \<and> set tips \<inter> insert t ips = {} \<and> set keys \<inter> insert k ks = {})"
      by (rule Cons.IH)
    also have "\<dots> \<longleftrightarrow> (\<exists>tips keys. peers_valid d s p (x # ps) tips keys
        \<and> set tips \<inter> ips = {} \<and> set keys \<inter> ks = {})"
      (is "?L = ?R")
    proof
      assume ?L
      then obtain tips keys where v: "peers_valid d s p ps tips keys"
        "set tips \<inter> insert t ips = {}" "set keys \<inter> insert k ks = {}" by blast
      then have "peers_valid d s p (x # ps) (t # tips) (k # keys)"
        using tk by (simp add: peers_valid_Cons)
      moreover have "set (t # tips) \<inter> ips = {}" "set (k # keys) \<inter> ks = {}"
        using v tk by auto
      ultimately show ?R by blast
    next
      assume ?R
      then obtain ts' ks' where v: "peers_valid d s p (x # ps) ts' ks'" "set ts' \<inter> ips = {}" "set ks' \<inter> ks = {}"
        by blast
      then obtain tips keys where "ts' = t # tips" "ks' = k # keys" "t \<notin> set tips" "k \<notin> set keys"
        "peers_valid d s p ps tips keys"
        using tk by (auto simp: peers_valid_Cons)
      moreover from this v have "set tips \<inter> insert t ips = {}" "set keys \<inter> insert k ks = {}" by auto
      ultimately show ?L by blast
    qed
    finally show ?thesis .
  next
    case False
    then have "check_peers d s p ips ks (x # ps) \<noteq> Inr ()"
      by (auto simp: Let_def resolve_key_inline_def split: sum.splits if_splits)
    moreover have "\<not> (\<exists>tips keys. peers_valid d s p (x # ps) tips keys
        \<and> set tips \<inter> ips = {} \<and> set keys \<inter> ks = {})"
      using False by (auto simp: peers_valid_Cons)
    ultimately show ?thesis by blast
  qed
qed

lemma check_peers_ok:
  "check_peers d s p {} {} ps = Inr () \<longleftrightarrow> (\<exists>tips keys. peers_valid d s p ps tips keys)"
  by (simp add: check_peers_iff)

section \<open>Properties\<close>

text \<open>An address is in the network of another one exactly when the two agree on their
  first \<open>prefix\<close> bits, for every prefix length the parser lets through.\<close>

theorem ip_in_network_iff:
  assumes "prefix \<le> 32"
  shows "ip_in_network ip (network_addr server_ip prefix) prefix \<longleftrightarrow>
    unat (ipv4_to_u32 ip) div 2 ^ (32 - unat prefix)
      = unat (ipv4_to_u32 server_ip) div 2 ^ (32 - unat prefix)"
proof (cases "prefix = 0")
  case True
  then show ?thesis
    using unat_less [of "ipv4_to_u32 ip"] unat_less [of "ipv4_to_u32 server_ip"]
    by (simp add: ip_in_network_def)
next
  case False
  then have pos: "0 < prefix" by (simp add: word_neq_0_conv)
  have "(ipv4_to_u32 server_ip AND shl_mask prefix) AND shl_mask prefix
      = ipv4_to_u32 server_ip AND shl_mask prefix"
    by (simp add: and.assoc)
  then show ?thesis
    using False shl_mask_and_eq_iff [OF pos assms]
    by (simp add: ip_in_network_def network_addr_def)
qed

theorem ip_in_network_iff_witness:
  "ip_in_network (Ipv4Addr 10 66 66 2) (network_addr (Ipv4Addr 10 66 66 1) 24) 24"
  using ip_in_network_iff [of 24 "Ipv4Addr 10 66 66 2" "Ipv4Addr 10 66 66 1"]
  by (simp add: unat_ipv4_to_u32)

text \<open>Printing an address with a prefix length and parsing it as CIDR gives both back, and
  a prefix length above 32 is refused.\<close>

theorem parse_cidr_roundtrip:
  "parse_cidr (show_ipv4 ip @ ''/'' @ show_nat (unat (prefix :: u8)))
    = (if prefix \<le> 32 then Inr (ip, prefix) else Inl PrefixTooLong)"
proof -
  have "split_once (CHR ''/'') (show_ipv4 ip @ ''/'' @ show_nat (unat prefix))
      = Some (show_ipv4 ip, show_nat (unat prefix))"
    using split_once_append [OF show_ipv4_no_slash] by simp
  moreover have "parse_unsigned 10 255 (show_nat (unat prefix)) = Some (unat prefix)"
    using unat_u8_less [of prefix] by (intro parse_unsigned_show) auto
  moreover have "prefix \<le> 32 \<longleftrightarrow> \<not> 32 < unat prefix"
    by (simp add: word_le_nat_alt not_less)
  ultimately show ?thesis
    by (simp add: parse_cidr_def parse_show_ipv4)
qed

text \<open>The check of the peers in a server configuration succeeds exactly when every peer's
  address and key parse, the addresses are pairwise distinct, the keys are pairwise distinct,
  and every address lies in the tunnel network and is neither the server's nor the network's
  own.\<close>

theorem check_peers_exact:
  "check_peers b64_decode server_ip prefix {} {} ps = Inr () \<longleftrightarrow>
   (\<exists>tips keys. peers_valid b64_decode server_ip prefix ps tips keys)"
  by (rule check_peers_ok)

text \<open>C22: A server configuration that loads has at least one peer, a parsing control mode, an MTU
  between 576 and 9000, valid peers for its tunnel network, and a private key that loads.\<close>

theorem server_load_sound:
  assumes "server_load toml_server b64_decode h path = Inr cfg"
  shows "sc_peers cfg \<noteq> [] \<and> (\<exists>m. parse_mode (sc_control_mode cfg) = Inr m)
    \<and> 576 \<le> sc_mtu cfg \<and> sc_mtu cfg \<le> 9000
    \<and> (\<exists>ip prefix tips keys. parse_cidr (sc_address cfg) = Inr (ip, prefix)
         \<and> peers_valid b64_decode ip prefix (sc_peers cfg) tips keys)
    \<and> (\<exists>k. server_load_private_key b64_decode h cfg = Inr k)"
  using assms
  by (auto simp: server_load_def check_peers_ok [symmetric] not_less
      split: option.splits sum.splits if_splits prod.splits)

definition demo_b64 :: "string \<Rightarrow> bytes option" where
  "demo_b64 s = (if s = ''K'' then Some (replicate 32 1) else if s = ''P'' then Some (replicate 32 2) else None)"

definition demo_server_table :: server_table where
  "demo_server_table = \<lparr>st_listen = Some (V4 (Ipv4Addr 0 0 0 0) 51820), st_private_key = Some ''K'',
     st_private_key_file = None, st_address = Some ''10.66.66.1/24'', st_mtu = None, st_nat = None,
     st_handshake_rate_limit = None, st_handshake_rate_window_secs = None, st_session_idle_secs = None,
     st_control_mode = None,
     st_peers = Some [\<lparr>public_key = ''P'', allowed_ip = ''10.66.66.2''\<rparr>]\<rparr>"

definition demo_host :: host where
  "demo_host = \<lparr>files = [''server.toml'' \<mapsto> \<lparr>content = '''', utf8 = True, readable = True, mode = perm 6 4 4\<rparr>],
     umask = perm 0 2 2, denied = (\<lambda>p. False)\<rparr>"

definition demo_server_config :: server_config where
  "demo_server_config = the (server_of_table demo_server_table)"

lemma demo_server_load:
  "server_load (\<lambda>_. Some demo_server_table) demo_b64 demo_host ''server.toml'' = Inr demo_server_config"
proof -
  have "parse_mode ''0600'' = Inr 384"
    by (simp add: parse_mode_def trim_def ascii_ws_def ws2_def ws3_def parse_unsigned_def to_digit_def)
  moreover have "parse_cidr ''10.66.66.1/24'' = Inr (Ipv4Addr 10 66 66 1, 24)"
    by code_simp
  moreover have "check_peers demo_b64 (Ipv4Addr 10 66 66 1) 24 {} {}
      [\<lparr>public_key = ''P'', allowed_ip = ''10.66.66.2''\<rparr>] = Inr ()"
  proof -
    have "parse_ipv4 ''10.66.66.2'' = Inr (Ipv4Addr 10 66 66 2)"
      "decode_key demo_b64 ''P'' = Inr (replicate 32 2)" by code_simp+
    moreover have "network_addr (Ipv4Addr 10 66 66 1) 24 = Ipv4Addr 10 66 66 0"
      "ip_in_network (Ipv4Addr 10 66 66 2) (Ipv4Addr 10 66 66 0) 24"
      by (simp_all add: network_addr_def ip_in_network_def ipv4_eval)
    ultimately show ?thesis by (simp add: resolve_key_inline_def)
  qed
  moreover have "decode_key demo_b64 ''K'' = Inr (replicate 32 1)"
    by code_simp
  ultimately show ?thesis
    by (simp add: server_load_def demo_host_def fs_read_to_string_def demo_server_table_def
        server_of_table_def demo_server_config_def or_default_def default_mtu_def
        default_control_mode_def server_load_private_key_def load_key_material_def)
qed

theorem server_load_sound_witness:
  "sc_peers demo_server_config \<noteq> [] \<and> sc_mtu demo_server_config \<le> 9000"
  using server_load_sound [OF demo_server_load] by blast

text \<open>The base64 codec: decoding undoes encoding, and an encoding is printable ASCII.\<close>

definition b64_lawful :: "(bytes \<Rightarrow> string) \<Rightarrow> (string \<Rightarrow> bytes option) \<Rightarrow> bool" where
  "b64_lawful b64_encode b64_decode \<longleftrightarrow>
     (\<forall>bs. b64_decode (b64_encode bs) = Some bs \<and>
       (\<forall>c \<in> set (b64_encode bs). 33 \<le> (of_char c :: nat) \<and> of_char c < (128 :: nat)))"

lemma decode_encode_key:
  assumes "b64_lawful b64_encode b64_decode" "length k = 32"
  shows "decode_key b64_decode (encode_key b64_encode k) = Inr k"
  using assms by (auto simp: decode_key_def encode_key_def b64_lawful_def trim_id)

lemma first_line_newline:
  assumes "CHR 0x0A \<notin> set s" "CHR 0x0D \<notin> set s"
  shows "first_line (s @ [CHR 0x0A]) = Some s"
proof -
  have "split_once (CHR 0x0A) (s @ CHR 0x0A # []) = Some (s, [])"
    by (rule split_once_append [OF assms(1)])
  moreover have "s \<noteq> [] \<Longrightarrow> last s \<noteq> CHR 0x0D"
    using assms(2) last_in_set by fastforce
  ultimately show ?thesis by (auto simp: first_line_def)
qed

lemma key_file_reads:
  assumes law: "b64_lawful b64_encode b64_decode" and len: "length k = 32"
    and "fs_read_to_string h path = Some (encode_key b64_encode k @ [CHR 0x0A])"
  shows "read_key_file b64_decode h path = Inr k"
proof -
  let ?s = "encode_key b64_encode k"
  have range: "33 \<le> (of_char c :: nat) \<and> of_char c < (128 :: nat)" if "c \<in> set ?s" for c
    using that law by (auto simp: b64_lawful_def encode_key_def)
  then have "CHR 0x0A \<notin> set ?s" "CHR 0x0D \<notin> set ?s" "trim ?s = ?s"
    using range [of "CHR 0x0A"] range [of "CHR 0x0D"] by (auto intro: trim_id)
  then show ?thesis
    using assms(3) decode_encode_key [OF law len] by (simp add: read_key_file_def first_line_newline)
qed

lemma path_join_suffix_distinct: "path_join dir (name @ ''.priv'') \<noteq> path_join dir (name @ ''.pub'')"
proof
  assume eq: "path_join dir (name @ ''.priv'') = path_join dir (name @ ''.pub'')"
  have "hd (name @ ''.priv'') = hd (name @ ''.pub'')" by (cases name) auto
  then have "length (path_join dir (name @ ''.priv'')) = Suc (length (path_join dir (name @ ''.pub'')))"
    by (simp add: path_join_def)
  with eq show False by simp
qed

lemma write_keypair_files_ok:
  assumes "write_keypair_files b64_encode create_dir_all h dir name privk pubk = (Inr (priv_path, pub_path), h')"
  obtains h1 h2 h3 where
    "priv_path = path_join dir (name @ ''.priv'')" "pub_path = path_join dir (name @ ''.pub'')"
    "priv_path \<noteq> pub_path" "create_dir_all h dir = Some h1"
    "fs_write h1 priv_path (encode_key b64_encode privk @ [CHR 0x0A]) = Some h2"
    "fs_set_mode h2 priv_path (perm 6 0 0) = Some h3"
    "fs_write h3 pub_path (encode_key b64_encode pubk @ [CHR 0x0A]) = Some h'"
  using assms path_join_suffix_distinct [of dir name] that
  by (auto simp: write_keypair_files_def Let_def split: option.splits)

lemma fs_set_mode_read:
  "fs_set_mode h p m = Some h' \<Longrightarrow>
   fs_read_to_string h' q = fs_read_to_string h q \<and> fs_mode h' q = (if q = p then Some m else fs_mode h q)
   \<and> umask h' = umask h \<and> (files h' q = None \<longleftrightarrow> files h q = None)"
  by (auto simp: fs_set_mode_def fs_read_to_string_def fs_mode_def split: option.splits if_splits)

text \<open>C35: A private key written by \<open>genkey --write-dir\<close> loads back from its file, whatever
  the umask and whatever the file was before.\<close>

theorem private_key_file_roundtrip:
  assumes "b64_lawful b64_encode b64_decode" "length privk = 32"
    and "write_keypair_files b64_encode create_dir_all h dir name privk pubk = (Inr (priv_path, pub_path), h')"
  shows "load_key_material b64_decode h' None (Some priv_path) = Inr privk"
proof (rule write_keypair_files_ok [OF assms(3)])
  fix h1 h2 h3
  assume ne: "priv_path \<noteq> pub_path"
    and w: "fs_write h1 priv_path (encode_key b64_encode privk @ [CHR 0x0A]) = Some h2"
    and m: "fs_set_mode h2 priv_path (perm 6 0 0) = Some h3"
    and w': "fs_write h3 pub_path (encode_key b64_encode pubk @ [CHR 0x0A]) = Some h'"
  have "fs_mode h' priv_path = Some (perm 6 0 0)"
    using ne fs_write_mode [OF w'] fs_set_mode_read [OF m] by simp
  moreover have "(perm 6 0 0 AND perm 7 7 7) AND perm 0 7 7 = 0" by code_simp
  moreover have "fs_read_to_string h' priv_path = Some (encode_key b64_encode privk @ [CHR 0x0A])"
    using ne fs_write_read_to_string [OF w'] fs_set_mode_read [OF m] fs_write_read_to_string [OF w] by simp
  ultimately show ?thesis
    using key_file_reads [OF assms(1,2)]
    by (simp add: load_key_material_def check_key_file_permissions_def)
qed

text \<open>The public key files that \<open>genkey --write-dir\<close> writes under the usual umask 022
  are refused when a client names one as \<open>server_public_key_file\<close>, as the example
  configuration does: they have mode 0644, and the permission check meant for private keys is
  applied to them too.\<close>

theorem public_key_file_refused:
  assumes "write_keypair_files b64_encode create_dir_all h dir name privk pubk = (Inr (priv_path, pub_path), h')"
    and "\<And>h1. create_dir_all h dir = Some h1 \<Longrightarrow> umask h1 = perm 0 2 2 \<and> files h1 pub_path = None"
  shows "load_key_material b64_decode h' None (Some pub_path) = Inl (KeyFileMode pub_path (perm 6 4 4))"
proof (rule write_keypair_files_ok [OF assms(1)])
  fix h1 h2 h3
  assume ne: "priv_path \<noteq> pub_path" and c: "create_dir_all h dir = Some h1"
    and w: "fs_write h1 priv_path (encode_key b64_encode privk @ [CHR 0x0A]) = Some h2"
    and m: "fs_set_mode h2 priv_path (perm 6 0 0) = Some h3"
    and w': "fs_write h3 pub_path (encode_key b64_encode pubk @ [CHR 0x0A]) = Some h'"
  have "files h2 pub_path = None" "umask h3 = perm 0 2 2"
    using assms(2) [OF c] ne w fs_write_env [OF w] fs_set_mode_read [OF m]
    by (auto simp: fs_write_def split: if_splits)
  then have "files h3 pub_path = None" using fs_set_mode_read [OF m, of pub_path] by simp
  then have "fs_mode h' pub_path = Some (perm 6 6 6 AND NOT (perm 0 2 2))"
    using fs_write_mode [OF w', of pub_path] \<open>umask h3 = perm 0 2 2\<close> by simp
  moreover have "(perm 6 6 6 AND NOT (perm 0 2 2)) AND perm 7 7 7 = perm 6 4 4"
    "perm 6 4 4 AND perm 0 7 7 \<noteq> 0" by code_simp+
  ultimately show ?thesis
    by (simp add: load_key_material_def check_key_file_permissions_def Let_def)
qed

subsection \<open>A concrete codec for the witnesses\<close>

definition demo_hex :: "bytes \<Rightarrow> string" where
  "demo_hex bs = concat (map (\<lambda>b. [digit_char (unat b div 16), digit_char (unat b mod 16)]) bs)"

fun demo_unhex :: "string \<Rightarrow> bytes option" where
  "demo_unhex [] = Some []"
| "demo_unhex [c] = None"
| "demo_unhex (a # b # cs) =
     (case (to_digit 16 a, to_digit 16 b, demo_unhex cs) of
        (Some x, Some y, Some bs) \<Rightarrow> Some (word_of_nat (16 * x + y) # bs)
      | _ \<Rightarrow> None)"

lemma digit_char_ascii:
  assumes "d < 36"
  shows "33 \<le> (of_char (digit_char d) :: nat) \<and> of_char (digit_char d) < (128 :: nat)"
  using assms by (auto simp: digit_char_def of_char_of)

lemma demo_hex_lawful: "b64_lawful demo_hex demo_unhex"
  unfolding b64_lawful_def
proof (intro allI conjI ballI)
  fix bs
  show "demo_unhex (demo_hex bs) = Some bs"
  proof (induction bs)
    case Nil
    then show ?case by (simp add: demo_hex_def)
  next
    case (Cons b bs)
    have "unat b div 16 < 16" using unat_u8_less [of b] by simp
    then show ?case
      using Cons by (simp add: demo_hex_def to_digit_digit_char)
  qed
  fix c
  assume "c \<in> set (demo_hex bs)"
  then obtain b :: u8 where "c = digit_char (unat b div 16) \<or> c = digit_char (unat b mod 16)"
    by (auto simp: demo_hex_def)
  moreover have "unat b div 16 < 36" "unat b mod 16 < 36"
    using unat_u8_less [of b] by simp_all
  ultimately show "33 \<le> (of_char c :: nat)" "of_char c < (128 :: nat)"
    using digit_char_ascii by blast+
qed

definition demo_keys_host :: host where
  "demo_keys_host = snd (write_keypair_files demo_hex (\<lambda>h d. Some h) demo_host ''/etc/soulvpn'' ''server''
     (replicate 32 1) (replicate 32 2))"

lemma demo_keys_written:
  "write_keypair_files demo_hex (\<lambda>h d. Some h) demo_host ''/etc/soulvpn'' ''server''
     (replicate 32 1) (replicate 32 2)
   = (Inr (''/etc/soulvpn/server.priv'', ''/etc/soulvpn/server.pub''), demo_keys_host)"
  by (simp add: demo_keys_host_def write_keypair_files_def path_join_def demo_host_def fs_write_def
      fs_set_mode_def Let_def)

theorem private_key_file_roundtrip_witness:
  "load_key_material demo_unhex demo_keys_host None (Some ''/etc/soulvpn/server.priv'')
     = Inr (replicate 32 1)"
  by (rule private_key_file_roundtrip [OF demo_hex_lawful _ demo_keys_written]) simp

theorem public_key_file_refused_witness:
  "load_key_material demo_unhex demo_keys_host None (Some ''/etc/soulvpn/server.pub'')
     = Inl (KeyFileMode ''/etc/soulvpn/server.pub'' (perm 6 4 4))"
  by (rule public_key_file_refused [OF demo_keys_written]) (auto simp: demo_host_def)

text \<open>C34: A key is only ever loaded from a file that neither the group nor others can access in
  any way; group-readable files are refused, not warned about.\<close>

theorem key_file_must_be_private:
  assumes "load_key_material b64_decode h inline (Some path) = Inr k"
  shows "\<exists>m. fs_mode h path = Some m \<and> m AND perm 0 7 7 = 0"
proof -
  have "check_key_file_permissions h path = Inr ()"
    using assms by (auto simp: load_key_material_def split: option.splits sum.splits)
  then obtain m where m: "fs_mode h path = Some m" "(m AND perm 7 7 7) AND perm 0 7 7 = 0"
    by (auto simp: check_key_file_permissions_def Let_def split: option.splits if_splits)
  have "perm 7 7 7 AND perm 0 7 7 = perm 0 7 7" by code_simp
  then show ?thesis using m by (simp add: and.assoc)
qed

theorem key_file_must_be_private_witness:
  "\<exists>m. fs_mode demo_keys_host ''/etc/soulvpn/server.priv'' = Some m \<and> m AND perm 0 7 7 = 0"
proof -
  have "load_key_material demo_unhex demo_keys_host None (Some ''/etc/soulvpn/server.priv'')
     = Inr (replicate 32 1)"
  proof -
    have "fs_read_to_string demo_keys_host ''/etc/soulvpn/server.priv''
        = Some (encode_key demo_hex (replicate 32 1) @ [CHR 0x0A])"
      "fs_mode demo_keys_host ''/etc/soulvpn/server.priv'' = Some (perm 6 0 0)"
      by (simp_all add: demo_keys_host_def write_keypair_files_def path_join_def demo_host_def
          fs_write_def fs_set_mode_def fs_read_to_string_def fs_mode_def Let_def)
    moreover have "(perm 6 0 0 AND perm 7 7 7) AND perm 0 7 7 = 0" by code_simp
    ultimately show ?thesis
      using key_file_reads [OF demo_hex_lawful]
      by (simp add: load_key_material_def check_key_file_permissions_def)
  qed
  then show ?thesis by (rule key_file_must_be_private)
qed

end
