(* ===== verification/Server_State.thy ===== *)
theory Server_State
  imports Noise_Handshake Packet Rate_Limit Stats Config
begin

text \<open>
  The shared state of \<open>src/src/server.rs\<close>: the peers, the live sessions by index, the index
  of each tunnel address and the rate limiter, with the operations that change it under its
  mutex: choosing a session index, the three locked sections of \<open>handle_handshake\<close>, and the
  reaper. The hash maps are association lists; where the code iterates over one, the order of
  the list stands for the unspecified order of \<open>HashMap\<close>. \<open>table_wf\<close> is the invariant every
  operation keeps.
\<close>

record peer_meta =
  pm_tunnel_ip :: ipv4

record 't live_session =
  ls_session :: "'t session"
  ls_peer_addr :: socket_addr
  ls_tunnel_ip :: ipv4
  ls_last_seen :: instant
  ls_established :: instant

record 't server_state =
  by_index :: "(u32, 't live_session) hashmap"
  by_ip :: "(ipv4, u32) hashmap"
  peers :: "(bytes, peer_meta) hashmap"
  rate :: rate_limit

datatype server_error =
    RateLimited ip_addr
  | CryptoError crypto_error
  | MissingRemoteStatic
  | UnknownPeer socket_addr
  | IndexCollision

section \<open>Start-up\<close>

text \<open>The loop of \<open>run\<close> over the configured peers, and the state it starts from.\<close>

fun server_peers ::
  "(string \<Rightarrow> bytes option) \<Rightarrow> peer_config list \<Rightarrow> (bytes, peer_meta) hashmap
     \<Rightarrow> config_error + (bytes, peer_meta) hashmap" where
  "server_peers b64 [] m = Inr m"
| "server_peers b64 (p # ps) m =
     (case decode_key b64 (public_key p) of
        Inl e \<Rightarrow> Inl e
      | Inr pk \<Rightarrow>
          (case parse_ipv4 (allowed_ip p) of
             Inl e \<Rightarrow> Inl e
           | Inr tip \<Rightarrow> server_peers b64 ps (hm_insert pk \<lparr>pm_tunnel_ip = tip\<rparr> m)))"

definition server_init :: "(bytes, peer_meta) hashmap \<Rightarrow> u32 \<Rightarrow> u64 \<Rightarrow> 't server_state" where
  "server_init ps limit window_secs =
     \<lparr>by_index = hm_empty, by_ip = hm_empty, peers = ps, rate = rl_new limit window_secs\<rparr>"

definition ipv4_network :: "ipv4 \<Rightarrow> u8 \<Rightarrow> ipv4" where
  "ipv4_network addr prefix =
     (if prefix = 0 then Ipv4Addr 0 0 0 0
      else ipv4_of_u32 (and (ipv4_to_u32 addr) (shl_mask prefix)))"

section \<open>Choosing a session index\<close>

text \<open>
  The loop of \<open>State::alloc_index\<close> over the random generator's draws; \<open>None\<close> says that it
  has consumed them all and still runs.
\<close>

function alloc_index :: "'t server_state \<Rightarrow> bytes list \<Rightarrow> (u32 \<times> bytes list) option" where
  "alloc_index self draws =
     (case random_session_index draws of
        None \<Rightarrow> None
      | Some (idx, rest) \<Rightarrow>
          if \<not> hm_contains (by_index self) idx then Some (idx, rest) else alloc_index self rest)"
  by auto
termination
  by (relation "measure (\<lambda>(self, draws). length draws)") (auto dest: random_session_index_shorter)

declare alloc_index.simps [simp del]

lemma alloc_index_fresh:
  "alloc_index self draws = Some (idx, rest) \<Longrightarrow> idx \<noteq> 0 \<and> hm_get (by_index self) idx = None"
proof (induction self draws rule: alloc_index.induct)
  case (1 self draws)
  then obtain i r where d: "random_session_index draws = Some (i, r)"
    by (auto simp: alloc_index.simps [of self draws] split: option.splits)
  then show ?case
    using 1 random_session_index_nonzero [OF d]
    by (auto simp: alloc_index.simps [of self draws] split: if_splits)
qed

lemma alloc_index_same:
  assumes "by_index st = by_index st'"
  shows "alloc_index st draws = alloc_index st' draws"
proof (induction draws rule: length_induct)
  case (1 draws)
  then show ?case
    using assms
    by (subst (1 2) alloc_index.simps) (auto split: option.split dest: random_session_index_shorter)
qed

section \<open>Snapshots of the peers\<close>

definition peer_snapshot_of :: "instant \<Rightarrow> 't live_session \<Rightarrow> peer_snapshot" where
  "peer_snapshot_of now live =
     \<lparr>ps_tunnel_ip = show_ipv4 (ls_tunnel_ip live),
      ps_endpoint = show_socket_addr (ls_peer_addr live),
      ps_session_index = sess_index (ls_session live),
      ps_last_handshake_ago_secs = of_nat (as_secs (duration_since now (ls_established live))),
      ps_idle_secs = of_nat (as_secs (duration_since now (ls_last_seen live)))\<rparr>"

definition peer_snapshots :: "'t server_state \<Rightarrow> instant \<Rightarrow> peer_snapshot list" where
  "peer_snapshots self now = map (\<lambda>(_, live). peer_snapshot_of now live) (by_index self)"

definition refresh_stats :: "'t server_state \<Rightarrow> instant \<Rightarrow> runtime_stats \<Rightarrow> runtime_stats" where
  "refresh_stats self now stats =
     set_peers (peer_snapshots self now) (set_sessions (of_nat (length (by_index self))) stats)"

section \<open>Handshakes\<close>

text \<open>
  \<open>handle_handshake\<close> takes the lock three times: to ask the rate limiter, to choose an
  index, and, after the Noise exchange outside the lock, to install the session. The readings
  of the clocks are in the order the code makes them.
\<close>

record hs_clock =
  hc_admit :: instant
  hc_last_seen :: instant
  hc_established :: instant
  hc_snapshot :: instant
  hc_wall :: wall_clock

definition hs_admit :: "'t server_state \<Rightarrow> socket_addr \<Rightarrow> instant \<Rightarrow> bool \<times> 't server_state" where
  "hs_admit st src now =
     (let (ok, r) = rl_allow (rate st) (sock_ip src) now in (ok, st\<lparr>rate := r\<rparr>))"

definition replace_session :: "'t server_state \<Rightarrow> ipv4 \<Rightarrow> 't server_state" where
  "replace_session st tip =
     (case hm_get (by_ip st) tip of
        None \<Rightarrow> st
      | Some old \<Rightarrow> st\<lparr>by_ip := hm_remove tip (by_ip st), by_index := hm_remove old (by_index st)\<rparr>)"

definition install_session :: "'t server_state \<Rightarrow> u32 \<Rightarrow> 't live_session \<Rightarrow> 't server_state" where
  "install_session st idx live =
     st\<lparr>by_ip := hm_insert (ls_tunnel_ip live) idx (by_ip st), by_index := hm_insert idx live (by_index st)\<rparr>"

definition hs_commit ::
  "'t transport_api \<Rightarrow> hs_clock \<Rightarrow> 't server_state \<Rightarrow> runtime_stats \<Rightarrow> socket_addr \<Rightarrow> u32
     \<Rightarrow> 't session \<Rightarrow> (server_error + unit) \<times> 't server_state \<times> runtime_stats" where
  "hs_commit api clock st stats src idx session =
     (case remote_static api session of
        None \<Rightarrow> (Inl MissingRemoteStatic, st, stats)
      | Some remote \<Rightarrow>
          (case hm_get (peers st) remote of
             None \<Rightarrow> (Inl (UnknownPeer src), st, stats)
           | Some meta \<Rightarrow>
               let tip = pm_tunnel_ip meta; st = replace_session st tip
               in if hm_contains (by_index st) idx then (Inl IndexCollision, st, stats)
                  else
                    let live = \<lparr>ls_session = session, ls_peer_addr = src, ls_tunnel_ip = tip,
                               ls_last_seen = hc_last_seen clock, ls_established = hc_established clock\<rparr>;
                        st = install_session st idx live
                    in (Inr (), st,
                        record_handshake_ok (hc_wall clock) (refresh_stats st (hc_snapshot clock) stats))))"

text \<open>
  The whole of \<open>handle_handshake\<close> when no other task takes the lock in between. The outer
  \<open>None\<close> stands for an index loop that still runs on the given draws.
\<close>

definition handle_handshake ::
  "('h, 't) handshake_api \<Rightarrow> 't transport_api \<Rightarrow> bytes \<Rightarrow> bytes list \<Rightarrow> hs_clock \<Rightarrow> bytes \<Rightarrow> socket_addr
     \<Rightarrow> 't server_state \<Rightarrow> runtime_stats \<Rightarrow> ((server_error + bytes) \<times> 't server_state \<times> runtime_stats) option" where
  "handle_handshake hapi api private draws clock msg src st stats =
     (let (ok, st) = hs_admit st src (hc_admit clock)
      in if \<not> ok then Some (Inl (RateLimited (sock_ip src)), st, stats)
         else case responder_new hapi private of
           Inl e \<Rightarrow> Some (Inl (CryptoError e), st, stats)
         | Inr responder \<Rightarrow>
             (case alloc_index st draws of
                None \<Rightarrow> None
              | Some (idx, _) \<Rightarrow>
                  (case responder_finish hapi responder msg idx of
                     Inl e \<Rightarrow> Some (Inl (CryptoError e), st, stats)
                   | Inr (session, response) \<Rightarrow>
                       let (r, st, stats) = hs_commit api clock st stats src idx session
                       in Some (case r of Inl e \<Rightarrow> Inl e | Inr _ \<Rightarrow> Inr response, st, stats))))"

section \<open>The reaper\<close>

definition stale_sessions :: "duration \<Rightarrow> instant \<Rightarrow> 't server_state \<Rightarrow> (u32 \<times> ipv4) list" where
  "stale_sessions idle now st =
     map (\<lambda>(idx, s). (idx, ls_tunnel_ip s))
       (filter (\<lambda>(idx, s). idle < duration_since now (ls_last_seen s)) (by_index st))"

fun expire :: "(u32 \<times> ipv4) list \<Rightarrow> 't server_state \<Rightarrow> 't server_state" where
  "expire [] st = st"
| "expire ((idx, tip) # stale) st =
     (let st = st\<lparr>by_index := hm_remove idx (by_index st)\<rparr>;
          st = (if hm_get (by_ip st) tip = Some idx then st\<lparr>by_ip := hm_remove tip (by_ip st)\<rparr> else st)
      in expire stale st)"

text \<open>One tick: clean the limiter, drop the idle sessions, publish what is left.\<close>

definition reap ::
  "u64 \<Rightarrow> instant \<Rightarrow> instant \<Rightarrow> instant \<Rightarrow> 't server_state \<Rightarrow> runtime_stats
     \<Rightarrow> 't server_state \<times> runtime_stats" where
  "reap session_idle_secs t_gc now t_snap st stats =
     (let st = st\<lparr>rate := rl_gc (rate st) t_gc\<rparr>;
          idle = from_secs (unat (max session_idle_secs 30));
          st = expire (stale_sessions idle now st) st
      in (st, refresh_stats st t_snap stats))"

section \<open>The invariant of the session table\<close>

text \<open>
  Every index is that of its session and not zero, each session is the one of its tunnel
  address, belongs to the configured peer of that address, and no tunnel address points to a
  session that is not there.
\<close>

definition session_ok :: "'t transport_api \<Rightarrow> 't server_state \<Rightarrow> u32 \<Rightarrow> 't live_session \<Rightarrow> bool" where
  "session_ok api st i live \<longleftrightarrow>
     i \<noteq> 0 \<and> sess_index (ls_session live) = i \<and> hm_get (by_ip st) (ls_tunnel_ip live) = Some i
     \<and> (\<exists>pk meta. remote_static api (ls_session live) = Some pk
          \<and> hm_get (peers st) pk = Some meta \<and> pm_tunnel_ip meta = ls_tunnel_ip live)"

definition table_wf :: "'t transport_api \<Rightarrow> 't server_state \<Rightarrow> bool" where
  "table_wf api st \<longleftrightarrow>
     hm_wf (by_index st) \<and> hm_wf (by_ip st)
     \<and> (\<forall>i live. hm_get (by_index st) i = Some live \<longrightarrow> session_ok api st i live)
     \<and> (\<forall>ip i. hm_get (by_ip st) ip = Some i \<longrightarrow>
          (\<exists>live. hm_get (by_index st) i = Some live \<and> ls_tunnel_ip live = ip))"

text \<open>What the table stands for: the session of each tunnel address.\<close>

definition session_of :: "'t server_state \<Rightarrow> ipv4 \<Rightarrow> 't live_session option" where
  "session_of st ip = Option.bind (hm_get (by_ip st) ip) (hm_get (by_index st))"

lemma table_wfD:
  assumes "table_wf api st"
  shows "hm_wf (by_index st)" "hm_wf (by_ip st)"
    "hm_get (by_index st) i = Some live \<Longrightarrow> session_ok api st i live"
    "hm_get (by_ip st) ip = Some i \<Longrightarrow> \<exists>live. hm_get (by_index st) i = Some live \<and> ls_tunnel_ip live = ip"
  using assms by (auto simp: table_wf_def)

lemma table_wf_init [vpn_inv]: "table_wf api (server_init ps limit w)"
  by (simp add: table_wf_def server_init_def)

lemma table_wf_rate [simp]: "table_wf api (st\<lparr>rate := r\<rparr>) \<longleftrightarrow> table_wf api st"
  by (simp add: table_wf_def session_ok_def)

lemma session_of_rate [simp]: "session_of (st\<lparr>rate := r\<rparr>) = session_of st"
  by (simp add: session_of_def fun_eq_iff)

lemma session_of_iff:
  assumes "table_wf api st"
  shows "session_of st ip = Some live \<longleftrightarrow>
    hm_get (by_index st) (sess_index (ls_session live)) = Some live \<and> ls_tunnel_ip live = ip"
proof
  assume "session_of st ip = Some live"
  then obtain i where i: "hm_get (by_ip st) ip = Some i" "hm_get (by_index st) i = Some live"
    by (auto simp: session_of_def bind_eq_Some_conv)
  moreover obtain live' where "hm_get (by_index st) i = Some live'" "ls_tunnel_ip live' = ip"
    using table_wfD(4) [OF assms i(1)] by blast
  ultimately show "hm_get (by_index st) (sess_index (ls_session live)) = Some live \<and> ls_tunnel_ip live = ip"
    using table_wfD(3) [OF assms i(2)] by (auto simp: session_ok_def)
next
  assume r: "hm_get (by_index st) (sess_index (ls_session live)) = Some live \<and> ls_tunnel_ip live = ip"
  then have "session_ok api st (sess_index (ls_session live)) live"
    using table_wfD(3) [OF assms] by blast
  then show "session_of st ip = Some live"
    using r by (simp add: session_of_def session_ok_def)
qed

lemma table_wfI:
  assumes "hm_wf (by_index st)" "hm_wf (by_ip st)"
    and "\<And>i live. hm_get (by_index st) i = Some live \<Longrightarrow> session_ok api st i live"
    and "\<And>ip i. hm_get (by_ip st) ip = Some i \<Longrightarrow>
      \<exists>live. hm_get (by_index st) i = Some live \<and> ls_tunnel_ip live = ip"
  shows "table_wf api st"
  using assms by (auto simp: table_wf_def)

lemma replace_session_spec:
  assumes wf: "table_wf api st"
  shows "table_wf api (replace_session st tip) \<and>
    session_of (replace_session st tip) = (session_of st)(tip := None) \<and>
    peers (replace_session st tip) = peers st \<and> rate (replace_session st tip) = rate st \<and>
    hm_get (by_ip (replace_session st tip)) tip = None"
proof (cases "hm_get (by_ip st) tip")
  case None
  then show ?thesis
    using wf by (auto simp: replace_session_def session_of_def fun_eq_iff)
next
  case (Some old)
  note w = table_wfD [OF wf]
  obtain l where l: "hm_get (by_index st) old = Some l" "ls_tunnel_ip l = tip"
    using w(4) [OF Some] by blast
  have uniq: "i = old" if "hm_get (by_index st) i = Some live" "ls_tunnel_ip live = tip" for i live
    using w(3) [OF that(1)] that(2) Some by (simp add: session_ok_def)
  have uniq': "ip = tip" if "hm_get (by_ip st) ip = Some old" for ip
    using w(4) [OF that] l by auto
  let ?st = "replace_session st tip"
  have get: "hm_get (by_index ?st) = (hm_get (by_index st))(old := None)"
    "hm_get (by_ip ?st) = (hm_get (by_ip st))(tip := None)"
    "hm_wf (by_index ?st)" "hm_wf (by_ip ?st)"
    "peers ?st = peers st" "rate ?st = rate st"
    using Some w(1,2) by (simp_all add: replace_session_def hm.get_del)
  have "table_wf api ?st"
  proof (rule table_wfI [OF get(3,4)])
    fix i live assume "hm_get (by_index ?st) i = Some live"
    then have i: "hm_get (by_index st) i = Some live" "i \<noteq> old" by (auto simp: get split: if_splits)
    then have "ls_tunnel_ip live \<noteq> tip" using uniq by blast
    then show "session_ok api ?st i live" using w(3) [OF i(1)] by (simp add: session_ok_def get)
  next
    fix ip i assume "hm_get (by_ip ?st) ip = Some i"
    then have i: "hm_get (by_ip st) ip = Some i" "ip \<noteq> tip" by (auto simp: get split: if_splits)
    then have "i \<noteq> old" using uniq' by blast
    then show "\<exists>live. hm_get (by_index ?st) i = Some live \<and> ls_tunnel_ip live = ip"
      using w(4) [OF i(1)] by (simp add: get)
  qed
  moreover have "session_of ?st = (session_of st)(tip := None)"
  proof
    fix ip
    show "session_of ?st ip = ((session_of st)(tip := None)) ip"
      using uniq' by (cases "hm_get (by_ip st) ip") (auto simp: session_of_def get)
  qed
  ultimately show ?thesis
    using get by simp
qed

lemmas session_of_replace = replace_session_spec [THEN conjunct1]
  replace_session_spec [THEN conjunct2, THEN conjunct1]
  replace_session_spec [THEN conjunct2, THEN conjunct2, THEN conjunct1]
  replace_session_spec [THEN conjunct2, THEN conjunct2, THEN conjunct2, THEN conjunct1]
  replace_session_spec [THEN conjunct2, THEN conjunct2, THEN conjunct2, THEN conjunct2]

lemma session_of_install:
  assumes wf: "table_wf api st" and free: "hm_get (by_ip st) (ls_tunnel_ip live) = None"
    "hm_get (by_index st) idx = None"
    and new: "idx \<noteq> 0" "sess_index (ls_session live) = idx"
    and peer: "remote_static api (ls_session live) = Some pk" "hm_get (peers st) pk = Some meta"
      "pm_tunnel_ip meta = ls_tunnel_ip live"
  shows "table_wf api (install_session st idx live)"
    "session_of (install_session st idx live) = (session_of st)(ls_tunnel_ip live \<mapsto> live)"
proof -
  note w = table_wfD [OF wf]
  let ?st = "install_session st idx live"
  have get: "hm_get (by_index ?st) = (hm_get (by_index st))(idx \<mapsto> live)"
    "hm_get (by_ip ?st) = (hm_get (by_ip st))(ls_tunnel_ip live \<mapsto> idx)"
    "hm_wf (by_index ?st)" "hm_wf (by_ip ?st)" "peers ?st = peers st"
    using w(1,2) by (simp_all add: install_session_def hm.get_ins)
  have other: "ip \<noteq> ls_tunnel_ip live" if "hm_get (by_index st) i = Some l" "ls_tunnel_ip l = ip" for i l ip
    using w(3) [OF that(1)] that(2) free(1) by (auto simp: session_ok_def)
  have other': "i \<noteq> idx" if "hm_get (by_ip st) ip = Some i" for ip i
    using w(4) [OF that] free(2) by auto
  show "table_wf api ?st"
  proof (rule table_wfI [OF get(3,4)])
    fix i l assume "hm_get (by_index ?st) i = Some l"
    then consider "i = idx" "l = live" | "i \<noteq> idx" "hm_get (by_index st) i = Some l"
      by (auto simp: get split: if_splits)
    then show "session_ok api ?st i l"
    proof cases
      case 1
      then show ?thesis using new peer by (auto simp: session_ok_def get)
    next
      case 2
      then show ?thesis using w(3) [OF 2(2)] other [OF 2(2)] by (simp add: session_ok_def get)
    qed
  next
    fix ip i assume "hm_get (by_ip ?st) ip = Some i"
    then consider "ip = ls_tunnel_ip live" "i = idx" | "hm_get (by_ip st) ip = Some i"
      by (cases "ip = ls_tunnel_ip live") (simp_all add: get(2))
    then show "\<exists>l. hm_get (by_index ?st) i = Some l \<and> ls_tunnel_ip l = ip"
    proof cases
      case 1
      then show ?thesis by (simp add: get)
    next
      case 2
      then show ?thesis using w(4) [OF 2] other' [OF 2] by (simp add: get)
    qed
  qed
  show "session_of ?st = (session_of st)(ls_tunnel_ip live \<mapsto> live)"
  proof
    fix ip
    show "session_of ?st ip = ((session_of st)(ls_tunnel_ip live \<mapsto> live)) ip"
      using other' by (cases "hm_get (by_ip st) ip") (auto simp: session_of_def get)
  qed
qed

section \<open>The operations keep it\<close>

lemma refresh_stats_enabled [simp]: "rs_enabled (refresh_stats st t s) = rs_enabled s"
  by (simp add: refresh_stats_def)

lemma hs_admit_table [simp]:
  "table_wf api (snd (hs_admit st src t)) \<longleftrightarrow> table_wf api st"
  "session_of (snd (hs_admit st src t)) = session_of st"
  "peers (snd (hs_admit st src t)) = peers st"
  "by_index (snd (hs_admit st src t)) = by_index st"
  by (simp_all add: hs_admit_def split_def Let_def)

lemma hs_admit_keeps:
  assumes "hs_admit st src t = (ok, st')"
  shows "table_wf api st' \<longleftrightarrow> table_wf api st" "session_of st' = session_of st"
    "peers st' = peers st" "by_index st' = by_index st" "by_ip st' = by_ip st"
  using assms by (auto simp: hs_admit_def split: prod.splits)

lemma hs_commit_cases:
  assumes wf: "table_wf api st" and new: "idx \<noteq> 0" "sess_index session = idx"
  obtains
    (missing) "remote_static api session = None"
      "hs_commit api clock st stats src idx session = (Inl MissingRemoteStatic, st, stats)"
  | (unknown) pk where "remote_static api session = Some pk" "hm_get (peers st) pk = None"
      "hs_commit api clock st stats src idx session = (Inl (UnknownPeer src), st, stats)"
  | (collision) pk meta where "remote_static api session = Some pk" "hm_get (peers st) pk = Some meta"
      "hm_contains (by_index (replace_session st (pm_tunnel_ip meta))) idx"
      "hs_commit api clock st stats src idx session
         = (Inl IndexCollision, replace_session st (pm_tunnel_ip meta), stats)"
  | (established) pk meta live st' stats' where "remote_static api session = Some pk"
      "hm_get (peers st) pk = Some meta"
      "live = \<lparr>ls_session = session, ls_peer_addr = src, ls_tunnel_ip = pm_tunnel_ip meta,
         ls_last_seen = hc_last_seen clock, ls_established = hc_established clock\<rparr>"
      "hs_commit api clock st stats src idx session = (Inr (), st', stats')"
      "table_wf api st'" "session_of st' = (session_of st)(pm_tunnel_ip meta \<mapsto> live)"
      "peers st' = peers st" "rate st' = rate st"
      "stats' = record_handshake_ok (hc_wall clock) (refresh_stats st' (hc_snapshot clock) stats)"
proof (cases "remote_static api session")
  case None
  then show thesis by (intro missing) (simp_all add: hs_commit_def)
next
  case (Some pk)
  show thesis
  proof (cases "hm_get (peers st) pk")
    case None
    then show thesis using Some by (intro unknown [of pk]) (simp_all add: hs_commit_def)
  next
    case (Some meta)
    note pk = \<open>remote_static api session = Some pk\<close> Some
    let ?st = "replace_session st (pm_tunnel_ip meta)"
    define live where "live = \<lparr>ls_session = session, ls_peer_addr = src, ls_tunnel_ip = pm_tunnel_ip meta,
         ls_last_seen = hc_last_seen clock, ls_established = hc_established clock\<rparr>"
    show thesis
    proof (cases "hm_contains (by_index ?st) idx")
      case True
      then show thesis using pk by (intro collision [of pk meta]) (simp_all add: hs_commit_def Let_def)
    next
      case False
      have fields: "ls_tunnel_ip live = pm_tunnel_ip meta" "ls_session live = session"
        by (simp_all add: live_def)
      have free: "hm_get (by_ip ?st) (ls_tunnel_ip live) = None" "hm_get (by_index ?st) idx = None"
        using False session_of_replace(5) [OF wf] by (simp_all add: fields)
      have inst: "table_wf api (install_session ?st idx live)"
        "session_of (install_session ?st idx live) = (session_of ?st)(ls_tunnel_ip live \<mapsto> live)"
      proof -
        have "sess_index (ls_session live) = idx" "remote_static api (ls_session live) = Some pk"
          "hm_get (peers ?st) pk = Some meta" "pm_tunnel_ip meta = ls_tunnel_ip live"
          using pk new(2) session_of_replace(3) [OF wf] by (simp_all add: fields)
        note inst = session_of_install [OF session_of_replace(1) [OF wf] free new(1) this]
        show "table_wf api (install_session ?st idx live)"
          "session_of (install_session ?st idx live) = (session_of ?st)(ls_tunnel_ip live \<mapsto> live)"
          by (rule inst)+
      qed
      have keep: "peers (install_session ?st idx live) = peers st" "rate (install_session ?st idx live) = rate st"
        using session_of_replace(3,4) [OF wf] by (simp_all add: install_session_def)
      have commit: "hs_commit api clock st stats src idx session = (Inr (), install_session ?st idx live,
          record_handshake_ok (hc_wall clock)
            (refresh_stats (install_session ?st idx live) (hc_snapshot clock) stats))"
        using False pk by (simp add: hs_commit_def Let_def live_def)
      have "session_of (install_session ?st idx live) = (session_of st)(pm_tunnel_ip meta \<mapsto> live)"
        using inst(2) session_of_replace(2) [OF wf] by (simp add: fields)
      then show thesis
        by (rule established [OF pk live_def commit inst(1) _ keep refl])
    qed
  qed
qed

lemma hs_commit_wf [vpn_inv]:
  assumes "table_wf api st" "idx \<noteq> 0" "sess_index session = idx"
    and "hs_commit api clock st stats src idx session = (r, st', stats')"
  shows "table_wf api st'" "peers st' = peers st"
  using assms(4) session_of_replace(1,3) [OF assms(1)] assms(1)
  by (cases rule: hs_commit_cases [OF assms(1-3), of clock stats src]; simp)+

lemma remove_absent: "hm_get m k = None \<Longrightarrow> hm_remove k m = m"
  by (simp add: delete_id map_of_eq_None_iff)

lemma table_updates_commute:
  "st\<lparr>by_index := a, by_ip := b\<rparr> = (st\<lparr>by_ip := b, by_index := a\<rparr> :: 't server_state)"
  by simp

lemma expire_step:
  assumes wf: "table_wf api st"
    and ip: "\<And>l. hm_get (by_index st) idx = Some l \<Longrightarrow> ls_tunnel_ip l = tip"
  shows "expire ((idx, tip) # stale) st =
    expire stale (if hm_get (by_ip st) tip = Some idx then replace_session st tip else st)"
proof (cases "hm_get (by_index st) idx")
  case None
  then have "hm_get (by_ip st) tip \<noteq> Some idx" using table_wfD(4) [OF wf] by fastforce
  then show ?thesis using None by (simp add: Let_def remove_absent)
next
  case (Some l)
  then have "hm_get (by_ip st) tip = Some idx"
    using table_wfD(3) [OF wf Some] ip [OF Some] by (simp add: session_ok_def)
  then show ?thesis by (simp add: Let_def replace_session_def table_updates_commute)
qed

lemma replace_session_keeps:
  assumes "table_wf api st" "hm_get (by_index (replace_session st tip)) i = Some l"
  shows "hm_get (by_index st) i = Some l"
  using assms table_wfD(1) [OF assms(1)]
  by (auto simp: replace_session_def hm_simps split: option.splits if_splits)

text \<open>A known peer with an index that is free gets its session.\<close>

lemma commit_known:
  assumes wf: "table_wf api st" and idx: "idx \<noteq> 0" "sess_index session = idx"
    and pk: "remote_static api session = Some pk" "hm_get (peers st) pk = Some meta"
    and free: "hm_get (by_index st) idx = None"
  obtains st' stats' live where "hs_commit api clock st stats src idx session = (Inr (), st', stats')"
    "table_wf api st'" "session_of st' (pm_tunnel_ip meta) = Some live" "ls_session live = session"
  using wf idx
proof (cases rule: hs_commit_cases [where clock = clock and stats = stats and src = src])
  case missing
  then show thesis using pk by simp
next
  case (unknown k)
  then show thesis using pk by simp
next
  case (collision k m)
  then show thesis using free replace_session_keeps [OF wf] by fastforce
next
  case (established k m live st' stats')
  then show thesis using pk by (intro that [of st' stats' live]) simp_all
qed

lemma expire_spec:
  assumes "table_wf api st"
    and "\<And>i t l. (i, t) \<in> set stale \<Longrightarrow> hm_get (by_index st) i = Some l \<Longrightarrow> ls_tunnel_ip l = t"
  shows "table_wf api (expire stale st) \<and> peers (expire stale st) = peers st \<and> rate (expire stale st) = rate st
    \<and> session_of (expire stale st) =
        (\<lambda>ip. case session_of st ip of None \<Rightarrow> None
              | Some l \<Rightarrow> if (sess_index (ls_session l), ip) \<in> set stale then None else Some l)"
  using assms
proof (induction stale arbitrary: st)
  case Nil
  then show ?case by (auto simp: fun_eq_iff split: option.split)
next
  case (Cons e stale)
  obtain i t where e: "e = (i, t)" by force
  let ?st = "if hm_get (by_ip st) t = Some i then replace_session st t else st"
  note wf = Cons.prems(1)
  have st: "table_wf api ?st" "peers ?st = peers st" "rate ?st = rate st"
    using session_of_replace [OF wf] wf by simp_all
  have "ls_tunnel_ip l = t'" if "(j, t') \<in> set stale" "hm_get (by_index ?st) j = Some l" for j t' l
    using that Cons.prems(2) [of j t' l] replace_session_keeps [OF wf] by (auto split: if_splits)
  note IH = Cons.IH [OF st(1) this]
  have sess: "session_of ?st ip = (case session_of st ip of None \<Rightarrow> None
      | Some l \<Rightarrow> if (sess_index (ls_session l), ip) = (i, t) then None else Some l)" for ip
  proof (cases "session_of st ip")
    case None
    then show ?thesis using session_of_replace(2) [OF wf] by simp
  next
    case (Some l)
    then have l: "hm_get (by_index st) (sess_index (ls_session l)) = Some l" "ls_tunnel_ip l = ip"
      using session_of_iff [OF wf] by simp_all
    then have "hm_get (by_ip st) ip = Some (sess_index (ls_session l))"
      using table_wfD(3) [OF wf l(1)] by (simp add: session_ok_def)
    then show ?thesis using Some session_of_replace(2) [OF wf] by auto
  qed
  have "ls_tunnel_ip l = t" if "hm_get (by_index st) i = Some l" for l
    using Cons.prems(2) [of i t l] that e by simp
  then have "expire (e # stale) st = expire stale ?st"
    unfolding e by (rule expire_step [OF wf])
  moreover have "(case session_of ?st ip of None \<Rightarrow> None
      | Some l \<Rightarrow> if (sess_index (ls_session l), ip) \<in> set stale then None else Some l)
    = (case session_of st ip of None \<Rightarrow> None
      | Some l \<Rightarrow> if (sess_index (ls_session l), ip) \<in> set (e # stale) then None else Some l)" for ip
    by (simp add: sess e split: option.split)
  ultimately show ?case
    using IH st by simp
qed

lemma reap_spec:
  assumes "table_wf api st" "reap secs t_gc now t_snap st stats = (st', stats')"
  shows "table_wf api st'" "peers st' = peers st" "rate st' = rl_gc (rate st) t_gc"
    "session_of st' = (\<lambda>ip. case session_of st ip of None \<Rightarrow> None
        | Some l \<Rightarrow> if from_secs (unat (max secs 30)) < duration_since now (ls_last_seen l) then None else Some l)"
    "stats' = refresh_stats st' t_snap stats"
proof -
  let ?idle = "from_secs (unat (max secs 30))"
  let ?st = "st\<lparr>rate := rl_gc (rate st) t_gc\<rparr>"
  have wf: "table_wf api ?st" using assms(1) by simp
  note w = table_wfD(1) [OF wf]
  have stale: "(i, t) \<in> set (stale_sessions ?idle now ?st) \<longleftrightarrow>
      (\<exists>l. hm_get (by_index st) i = Some l \<and> ls_tunnel_ip l = t \<and> ?idle < duration_since now (ls_last_seen l))" for i t
    using w by (force simp: stale_sessions_def hm.entries_iff [OF w, symmetric, simplified])
  have "ls_tunnel_ip l = t"
    if "(i, t) \<in> set (stale_sessions ?idle now ?st)" "hm_get (by_index ?st) i = Some l" for i t l
    using that by (auto simp: stale)
  note spec = expire_spec [OF wf this]
  have st': "st' = expire (stale_sessions ?idle now ?st) ?st" "stats' = refresh_stats st' t_snap stats"
    using assms(2) by (auto simp: reap_def Let_def)
  then show "table_wf api st'" "peers st' = peers st" "rate st' = rl_gc (rate st) t_gc"
    "stats' = refresh_stats st' t_snap stats"
    using spec by simp_all
  show "session_of st' = (\<lambda>ip. case session_of st ip of None \<Rightarrow> None
        | Some l \<Rightarrow> if ?idle < duration_since now (ls_last_seen l) then None else Some l)"
  proof
    fix ip
    have "(sess_index (ls_session l), ip) \<in> set (stale_sessions ?idle now ?st)
        \<longleftrightarrow> ?idle < duration_since now (ls_last_seen l)" if "session_of st ip = Some l" for l
      using that session_of_iff [OF assms(1)] by (auto simp: stale)
    then show "session_of st' ip = (case session_of st ip of None \<Rightarrow> None
        | Some l \<Rightarrow> if ?idle < duration_since now (ls_last_seen l) then None else Some l)"
      using spec by (auto simp: st' split: option.split)
  qed
qed

end
