(* ===== verification/Server.thy ===== *)
theory Server
  imports Server_State
begin

text \<open>
  The tasks of \<open>src/src/server.rs\<close> as handlers: one UDP datagram (\<open>downlink\<close>), one TUN
  packet (\<open>uplink\<close>). Each is split where the code releases the mutex, so that
  \<open>Server_Steps\<close> can interleave the parts; here they are also composed the way the task runs
  when nobody comes in between. Sending on the socket and writing to the TUN device are
  outputs; whether they succeed is an argument.
\<close>

datatype downlink_out = DlQuiet | DlSend bytes socket_addr | DlTun bytes | DlTunError

datatype uplink_out = UpQuiet | UpSend bytes socket_addr | UpBreak

section \<open>UDP to TUN\<close>

text \<open>What happens to a decrypted packet, outside the lock.\<close>

definition deliver :: "bytes \<Rightarrow> ipv4 \<Rightarrow> wall_clock \<Rightarrow> bool \<Rightarrow> runtime_stats \<Rightarrow> downlink_out \<times> runtime_stats" where
  "deliver plain tip wall tun_ok stats =
     (if plain = [] then (DlQuiet, touch_activity wall stats)
      else if \<not> is_ipv4 plain then (DlQuiet, record_policy_drop stats)
      else case ipv4_src plain of
          None \<Rightarrow> (DlQuiet, record_policy_drop stats)
        | Some pkt_src \<Rightarrow>
            if pkt_src \<noteq> tip then (DlQuiet, record_policy_drop stats)
            else if tun_ok then (DlTun plain, record_rx wall (of_nat (length plain)) stats)
            else (DlTunError, stats))"

text \<open>The guards before the lock: the enable flag and the length.\<close>

definition data_admit :: "runtime_stats \<Rightarrow> bytes \<Rightarrow> bool" where
  "data_admit stats buf \<longleftrightarrow> is_enabled stats \<and> 12 \<le> length buf"

text \<open>
  The locked section: look the session up, decrypt, and only after success trust the source
  address. The result is the tunnel address of the session and the plaintext.
\<close>

definition data_locked ::
  "'t transport_api \<Rightarrow> bytes \<Rightarrow> socket_addr \<Rightarrow> instant \<Rightarrow> 't server_state \<Rightarrow> runtime_stats
     \<Rightarrow> (ipv4 \<times> bytes) option \<times> 't server_state \<times> runtime_stats" where
  "data_locked api buf src now st stats =
     (let index = u32_from_le (byte_range 0 4 buf)
      in case hm_get (by_index st) index of
           None \<Rightarrow> (None, st, stats)
         | Some live \<Rightarrow>
             (case decrypt api (ls_session live) buf MAX_MESSAGE of
                (Inr plain, session) \<Rightarrow>
                  (Some (ls_tunnel_ip live, plain),
                   st\<lparr>by_index := hm_insert index
                     (live\<lparr>ls_session := session, ls_peer_addr := src, ls_last_seen := now\<rparr>) (by_index st)\<rparr>,
                   stats)
              | (Inl e, session) \<Rightarrow>
                  (None, st\<lparr>by_index := hm_insert index (live\<lparr>ls_session := session\<rparr>) (by_index st)\<rparr>,
                   record_decrypt_err stats)))"

definition handle_data ::
  "'t transport_api \<Rightarrow> bytes \<Rightarrow> socket_addr \<Rightarrow> instant \<Rightarrow> wall_clock \<Rightarrow> bool \<Rightarrow> 't server_state \<Rightarrow> runtime_stats
     \<Rightarrow> downlink_out \<times> 't server_state \<times> runtime_stats" where
  "handle_data api buf src now wall tun_ok st stats =
     (if \<not> data_admit stats buf then (DlQuiet, st, stats)
      else case data_locked api buf src now st stats of
          (None, st, stats) \<Rightarrow> (DlQuiet, st, stats)
        | (Some (tip, plain), st, stats) \<Rightarrow>
            let (out, stats) = deliver plain tip wall tun_ok stats in (out, st, stats))"

text \<open>
  One round of the downlink loop. The first byte decides between a handshake and data. Failing
  to send the response is only logged.
\<close>

definition handle_datagram ::
  "('h, 't) handshake_api \<Rightarrow> 't transport_api \<Rightarrow> bytes \<Rightarrow> bytes list \<Rightarrow> hs_clock \<Rightarrow> bool \<Rightarrow> bytes \<Rightarrow> socket_addr
     \<Rightarrow> 't server_state \<Rightarrow> runtime_stats \<Rightarrow> (downlink_out \<times> 't server_state \<times> runtime_stats) option" where
  "handle_datagram hapi api private draws clock tun_ok buf src st stats =
     (case buf of
        [] \<Rightarrow> Some (DlQuiet, st, stats)
      | b # _ \<Rightarrow>
          if b = 1 then
            (case handle_handshake hapi api private draws clock buf src st stats of
               None \<Rightarrow> None
             | Some (Inr response, st, stats) \<Rightarrow> Some (DlSend response src, st, stats)
             | Some (Inl e, st, stats) \<Rightarrow> Some (DlQuiet, st, record_handshake_fail stats))
          else Some (handle_data api buf src (hc_last_seen clock) (hc_wall clock) tun_ok st stats))"

section \<open>TUN to UDP\<close>

text \<open>The locked section of the uplink: route by the destination, encrypt with its session.\<close>

definition uplink_locked ::
  "'t transport_api \<Rightarrow> bytes \<Rightarrow> ipv4 \<Rightarrow> instant \<Rightarrow> 't server_state \<Rightarrow> runtime_stats
     \<Rightarrow> (bytes \<times> socket_addr) option \<times> 't server_state \<times> runtime_stats" where
  "uplink_locked api plain dst now st stats =
     (case hm_get (by_ip st) dst of
        None \<Rightarrow> (None, st, stats)
      | Some index \<Rightarrow>
          (case hm_get (by_index st) index of
             None \<Rightarrow> (None, st, stats)
           | Some live \<Rightarrow>
               (case encrypt api (ls_session live) plain MAX_MESSAGE of
                  (Inr wire, session) \<Rightarrow>
                    (Some (wire, ls_peer_addr live),
                     st\<lparr>by_index := hm_insert index
                       (live\<lparr>ls_session := session, ls_last_seen := now\<rparr>) (by_index st)\<rparr>, stats)
                | (Inl e, session) \<Rightarrow>
                    (None, st\<lparr>by_index := hm_insert index (live\<lparr>ls_session := session\<rparr>) (by_index st)\<rparr>,
                     record_encrypt_err stats))))"

text \<open>The guards before the lock, and the destination they yield.\<close>

definition uplink_admit :: "runtime_stats \<Rightarrow> bytes \<Rightarrow> ipv4 option" where
  "uplink_admit stats plain = (if \<not> is_enabled stats then None else ipv4_dst plain)"

text \<open>One round of the uplink loop; an empty read ends the task.\<close>

definition handle_tun ::
  "'t transport_api \<Rightarrow> bytes \<Rightarrow> instant \<Rightarrow> wall_clock \<Rightarrow> bool \<Rightarrow> 't server_state \<Rightarrow> runtime_stats
     \<Rightarrow> uplink_out \<times> 't server_state \<times> runtime_stats" where
  "handle_tun api plain now wall send_ok st stats =
     (if plain = [] then (UpBreak, st, stats)
      else case uplink_admit stats plain of
          None \<Rightarrow> (UpQuiet, st, stats)
        | Some dst \<Rightarrow>
            (case uplink_locked api plain dst now st stats of
               (None, st, stats) \<Rightarrow> (UpQuiet, st, stats)
             | (Some (wire, peer), st, stats) \<Rightarrow>
                 if send_ok then (UpSend wire peer, st, record_tx wall (of_nat (length plain)) stats)
                 else (UpQuiet, st, stats)))"

section \<open>Cases of the locked sections\<close>

text \<open>The identity of the other side survives reads and writes of the transport.\<close>

definition remote_stable :: "'t transport_api \<Rightarrow> bool" where
  "remote_stable api \<longleftrightarrow>
     (\<forall>t pt k. noise_remote_static api (snd (noise_write api t pt k)) = noise_remote_static api t)
   \<and> (\<forall>t ct k. noise_remote_static api (snd (noise_read api t ct k)) = noise_remote_static api t)
   \<and> (\<forall>t n. noise_remote_static api (noise_set_receiving_nonce api t n) = noise_remote_static api t)"

lemma decrypt_identity:
  assumes "remote_stable api" "decrypt api s buf k = (r, s')"
  shows "remote_static api s' = remote_static api s" "sess_index s' = sess_index s"
proof -
  have read: "noise_remote_static api (snd (noise_read api t c k)) = noise_remote_static api t" for t c
    using assms(1) by (simp add: remote_stable_def)
  have "noise_remote_static api t' = noise_remote_static api t"
    if "noise_read api (noise_set_receiving_nonce api t n) c k = (x, t')" for t n c x t'
    using read [of "noise_set_receiving_nonce api t n" c] that assms(1) by (simp add: remote_stable_def)
  then show "remote_static api s' = remote_static api s" "sess_index s' = sess_index s"
    using assms(2)
    by (auto simp: decrypt_def remote_static_def Let_def split: if_splits prod.splits option.splits)
qed

lemma encrypt_identity:
  assumes "remote_stable api" "encrypt api s pt k = (r, s')"
  shows "remote_static api s' = remote_static api s" "sess_index s' = sess_index s"
proof -
  have "noise_remote_static api t' = noise_remote_static api t" if "noise_write api t p n = (x, t')" for t p n x t'
    using that assms(1) by (simp add: remote_stable_def) (metis snd_conv)
  then show "remote_static api s' = remote_static api s" "sess_index s' = sess_index s"
    using assms(2)
    by (auto simp: encrypt_def remote_static_def Let_def split: if_splits prod.splits option.splits)
qed

text \<open>Updating a session in place keeps the table when its identity stays.\<close>

lemma table_wf_update:
  assumes wf: "table_wf api st" and i: "hm_get (by_index st) i = Some live"
    and same: "remote_static api (ls_session live') = remote_static api (ls_session live)"
      "sess_index (ls_session live') = sess_index (ls_session live)" "ls_tunnel_ip live' = ls_tunnel_ip live"
  shows "table_wf api (st\<lparr>by_index := hm_insert i live' (by_index st)\<rparr>)" (is "table_wf api ?st")
    "session_of (st\<lparr>by_index := hm_insert i live' (by_index st)\<rparr>)
       = (session_of st)(ls_tunnel_ip live \<mapsto> live')"
proof -
  note w = table_wfD [OF wf]
  have ip: "hm_get (by_ip st) (ls_tunnel_ip live) = Some i" using w(3) [OF i] by (simp add: session_ok_def)
  show "table_wf api ?st"
  proof (rule table_wfI)
    show "session_ok api ?st j l" if "hm_get (by_index ?st) j = Some l" for j l
    proof (cases "j = i")
      case True
      then show ?thesis using that w(3) [OF i] same by (simp add: session_ok_def hm_get_insert)
    next
      case False
      then show ?thesis using that w(3) [of j l] by (simp add: session_ok_def hm_get_insert)
    qed
    show "\<exists>l. hm_get (by_index ?st) j = Some l \<and> ls_tunnel_ip l = a" if "hm_get (by_ip ?st) a = Some j" for a j
      using that w(4) [of a j] i same(3) by (auto simp: hm_get_insert)
  qed (use w(1,2) in simp_all)
  show "session_of ?st = (session_of st)(ls_tunnel_ip live \<mapsto> live')"
  proof
    fix a
    show "session_of ?st a = ((session_of st)(ls_tunnel_ip live \<mapsto> live')) a"
    proof (cases "a = ls_tunnel_ip live")
      case True
      then show ?thesis using ip by (simp add: session_of_def hm_get_insert)
    next
      case False
      have "j \<noteq> i" if "hm_get (by_ip st) a = Some j" for j
        using w(4) [OF that] i False by auto
      then show ?thesis using False
        by (cases "hm_get (by_ip st) a") (auto simp: session_of_def hm_get_insert)
    qed
  qed
qed

lemma data_locked_cases:
  assumes wf: "table_wf api st" and stable: "remote_stable api"
  obtains
    (unknown) "hm_get (by_index st) (u32_from_le (byte_range 0 4 buf)) = None"
      "data_locked api buf src now st stats = (None, st, stats)"
  | (bad) live e s' st' where
      "session_of st (ls_tunnel_ip live) = Some live"
      "sess_index (ls_session live) = u32_from_le (byte_range 0 4 buf)"
      "decrypt api (ls_session live) buf MAX_MESSAGE = (Inl e, s')"
      "data_locked api buf src now st stats = (None, st', record_decrypt_err stats)"
      "table_wf api st'" "peers st' = peers st" "rate st' = rate st"
      "session_of st' = (session_of st)(ls_tunnel_ip live \<mapsto> live\<lparr>ls_session := s'\<rparr>)"
  | (good) live plain s' st' where
      "session_of st (ls_tunnel_ip live) = Some live"
      "sess_index (ls_session live) = u32_from_le (byte_range 0 4 buf)"
      "decrypt api (ls_session live) buf MAX_MESSAGE = (Inr plain, s')"
      "data_locked api buf src now st stats = (Some (ls_tunnel_ip live, plain), st', stats)"
      "table_wf api st'" "peers st' = peers st" "rate st' = rate st"
      "session_of st' = (session_of st)(ls_tunnel_ip live \<mapsto>
         live\<lparr>ls_session := s', ls_peer_addr := src, ls_last_seen := now\<rparr>)"
proof (cases "hm_get (by_index st) (u32_from_le (byte_range 0 4 buf))")
  case None
  then show thesis by (intro unknown) (simp_all add: data_locked_def Let_def)
next
  case (Some live)
  let ?i = "u32_from_le (byte_range 0 4 buf)"
  have idx: "sess_index (ls_session live) = ?i"
    using table_wfD(3) [OF wf Some] by (simp add: session_ok_def)
  then have sess: "session_of st (ls_tunnel_ip live) = Some live"
    using Some by (simp add: session_of_iff [OF wf])
  obtain r s' where d: "decrypt api (ls_session live) buf MAX_MESSAGE = (r, s')" by force
  note ident = decrypt_identity [OF stable d]
  show thesis
  proof (cases r)
    case (Inl e)
    let ?live = "live\<lparr>ls_session := s'\<rparr>"
    let ?st = "st\<lparr>by_index := hm_insert ?i ?live (by_index st)\<rparr>"
    have "data_locked api buf src now st stats = (None, ?st, record_decrypt_err stats)"
      using Some d Inl by (simp add: data_locked_def Let_def)
    moreover note table_wf_update [OF wf Some, of ?live]
    ultimately show thesis
      using ident d Inl by (intro bad [OF sess idx, of e s' ?st]) simp_all
  next
    case (Inr plain)
    let ?live = "live\<lparr>ls_session := s', ls_peer_addr := src, ls_last_seen := now\<rparr>"
    let ?st = "st\<lparr>by_index := hm_insert ?i ?live (by_index st)\<rparr>"
    have "data_locked api buf src now st stats = (Some (ls_tunnel_ip live, plain), ?st, stats)"
      using Some d Inr by (simp add: data_locked_def Let_def)
    moreover note table_wf_update [OF wf Some, of ?live]
    ultimately show thesis
      using ident d Inr by (intro good [OF sess idx, of plain s' ?st]) simp_all
  qed
qed

lemma uplink_locked_cases:
  assumes wf: "table_wf api st" and stable: "remote_stable api"
  obtains
    (unknown) "session_of st dst = None" "uplink_locked api plain dst now st stats = (None, st, stats)"
  | (bad) live e s' st' where "session_of st dst = Some live" "ls_tunnel_ip live = dst"
      "encrypt api (ls_session live) plain MAX_MESSAGE = (Inl e, s')"
      "uplink_locked api plain dst now st stats = (None, st', record_encrypt_err stats)"
      "table_wf api st'" "peers st' = peers st" "rate st' = rate st"
      "session_of st' = (session_of st)(dst \<mapsto> live\<lparr>ls_session := s'\<rparr>)"
  | (good) live wire s' st' where "session_of st dst = Some live" "ls_tunnel_ip live = dst"
      "encrypt api (ls_session live) plain MAX_MESSAGE = (Inr wire, s')"
      "uplink_locked api plain dst now st stats = (Some (wire, ls_peer_addr live), st', stats)"
      "table_wf api st'" "peers st' = peers st" "rate st' = rate st"
      "session_of st' = (session_of st)(dst \<mapsto> live\<lparr>ls_session := s', ls_last_seen := now\<rparr>)"
proof (cases "session_of st dst")
  case None
  then show thesis
    by (intro unknown) (auto simp: uplink_locked_def session_of_def bind_eq_None_conv split: option.split)
next
  case (Some live)
  then obtain i where i: "hm_get (by_ip st) dst = Some i" "hm_get (by_index st) i = Some live"
    by (auto simp: session_of_def bind_eq_Some_conv)
  have ip: "ls_tunnel_ip live = dst" using Some session_of_iff [OF wf] by simp
  obtain r s' where d: "encrypt api (ls_session live) plain MAX_MESSAGE = (r, s')" by force
  note ident = encrypt_identity [OF stable d]
  show thesis
  proof (cases r)
    case (Inl e)
    let ?live = "live\<lparr>ls_session := s'\<rparr>"
    let ?st = "st\<lparr>by_index := hm_insert i ?live (by_index st)\<rparr>"
    have "uplink_locked api plain dst now st stats = (None, ?st, record_encrypt_err stats)"
      using i d Inl by (simp add: uplink_locked_def)
    moreover note table_wf_update [OF wf i(2), of ?live]
    ultimately show thesis
      using ident d Inl ip by (intro bad [OF Some ip, of e s' ?st]) simp_all
  next
    case (Inr wire)
    let ?live = "live\<lparr>ls_session := s', ls_last_seen := now\<rparr>"
    let ?st = "st\<lparr>by_index := hm_insert i ?live (by_index st)\<rparr>"
    have "uplink_locked api plain dst now st stats = (Some (wire, ls_peer_addr live), ?st, stats)"
      using i d Inr by (simp add: uplink_locked_def)
    moreover note table_wf_update [OF wf i(2), of ?live]
    ultimately show thesis
      using ident d Inr ip by (intro good [OF Some ip, of wire s' ?st]) simp_all
  qed
qed

lemma deliver_DlTun:
  "deliver plain tip wall tun_ok stats = (DlTun p, stats') \<longleftrightarrow>
     p = plain \<and> ipv4_src plain = Some tip \<and> tun_ok
     \<and> stats' = record_rx wall (of_nat (length plain)) stats"
proof (cases "ipv4_src plain")
  case None
  then show ?thesis by (simp add: deliver_def)
next
  case (Some a)
  then have "is_ipv4 plain" "plain \<noteq> []" by (auto simp: ipv4_src_def is_ipv4_def split: if_splits)
  then show ?thesis using Some
    by (cases "a = tip"; cases tun_ok) (auto simp: deliver_def)
qed

lemma deliver_not_send [simp]: "deliver plain tip wall ok stats \<noteq> (DlSend w a, stats')"
  by (simp add: deliver_def split: option.split)

lemma responder_finish_sess:
  "responder_finish hapi r msg idx = Inr (s, resp) \<Longrightarrow> sess_index s = idx \<and> idx \<noteq> 0"
  using responder_response_shape(2,3) [of hapi r msg idx s resp] by simp

text \<open>The sessions a handshake leaves, whatever its outcome.\<close>

lemma handle_handshake_cases:
  assumes wf: "table_wf api st"
    and run: "handle_handshake hapi api private draws clock msg src st stats = Some (r, st', stats')"
  obtains
    (refused) e where "r = Inl e" "session_of st' = session_of st" "by_index st' = by_index st"
      "table_wf api st'" "peers st' = peers st" "stats' = stats"
  | (established) idx rest responder session response pk meta live where
      "r = Inr response"
      "alloc_index st draws = Some (idx, rest)" "responder_new hapi private = Inr responder"
      "responder_finish hapi responder msg idx = Inr (session, response)"
      "remote_static api session = Some pk" "hm_get (peers st) pk = Some meta"
      "live = \<lparr>ls_session = session, ls_peer_addr = src, ls_tunnel_ip = pm_tunnel_ip meta,
         ls_last_seen = hc_last_seen clock, ls_established = hc_established clock\<rparr>"
      "session_of st' = (session_of st)(pm_tunnel_ip meta \<mapsto> live)"
      "table_wf api st'" "peers st' = peers st"
      "stats' = record_handshake_ok (hc_wall clock) (refresh_stats st' (hc_snapshot clock) stats)"
proof -
  obtain ok sta where a: "hs_admit st src (hc_admit clock) = (ok, sta)" by force
  have alloc: "alloc_index sta draws = alloc_index st draws"
    using hs_admit_keeps(4) [OF a] by (rule alloc_index_same)
  have sta: "table_wf api sta" "session_of sta = session_of st" "peers sta = peers st" "by_index sta = by_index st"
    using hs_admit_keeps [OF a] wf by simp_all
  show thesis
  proof (cases "\<exists>responder idx rest session response. ok \<and> responder_new hapi private = Inr responder
      \<and> alloc_index st draws = Some (idx, rest) \<and> responder_finish hapi responder msg idx = Inr (session, response)")
    case False
    then have "\<exists>e. r = Inl e \<and> st' = sta \<and> stats' = stats"
      using run a alloc
      by (auto simp: handle_handshake_def Let_def split: if_splits sum.splits option.splits prod.splits)
    then show thesis using sta by (auto intro: refused)
  next
    case True
    then obtain responder idx rest session response where t: "ok" "responder_new hapi private = Inr responder"
      "alloc_index st draws = Some (idx, rest)" "responder_finish hapi responder msg idx = Inr (session, response)"
      by blast
    have new: "idx \<noteq> 0" "sess_index session = idx" using responder_finish_sess [OF t(4)] by simp_all
    have run': "(case hs_commit api clock sta stats src idx session of
        (r, st, stats) \<Rightarrow> (case r of Inl e \<Rightarrow> Inl e | Inr _ \<Rightarrow> Inr response, st, stats)) = (r, st', stats')"
      using run a t alloc by (simp add: handle_handshake_def split: prod.splits)
    from sta(1) new show thesis
    proof (cases rule: hs_commit_cases [where clock = clock and stats = stats and src = src])
      case missing
      then show thesis using run' sta by (auto intro: refused)
    next
      case (unknown pk)
      then show thesis using run' sta by (auto intro: refused)
    next
      case (collision pk meta)
      then obtain l where "hm_get (by_index (replace_session sta (pm_tunnel_ip meta))) idx = Some l"
        by auto
      then have "hm_get (by_index st) idx = Some l"
        using replace_session_keeps [OF sta(1)] sta(4) by simp
      then show thesis using alloc_index_fresh [OF t(3)] by simp
    next
      case (established pk meta live st2 stats2)
      then have eq: "r = Inr response" "st' = st2" "stats' = stats2" using run' by auto
      show thesis
        by (rule that(2) [of response idx rest responder session pk meta live])
          (use established eq t sta in simp_all)
    qed
  qed
qed

end
