(* ===== verification/Server_Steps.thy ===== *)
theory Server_Steps
  imports Server
begin

text \<open>
  The server's concurrent tasks as a step relation. A task runs alone between the points where
  it waits for the mutex: the downlink task between the sections of a handshake and between
  the enable check, the locked section and the TUN write of a data packet; the uplink task
  between the enable check and its locked section; the reaper and the control socket at any
  time. The environment chooses datagrams, TUN packets, clock readings, random draws and
  whether outputs succeed. The logs \<open>w_tun\<close> and \<open>w_net\<close> collect what leaves the server, last
  first.
\<close>

datatype down_phase =
    DownIdle
  | HsAdmitted bytes socket_addr
  | HsIndexed bytes socket_addr u32
  | DataWaiting bytes socket_addr
  | Delivering ipv4 bytes
  | DownStopped

datatype up_phase = UpIdle | UpWaiting bytes ipv4

record 't server_world =
  w_state :: "'t server_state"
  w_stats :: runtime_stats
  w_down :: down_phase
  w_up :: up_phase
  w_tun :: "(ipv4 \<times> bytes) list"
  w_net :: "(bytes \<times> socket_addr) list"

definition server_start :: "(bytes, peer_meta) hashmap \<Rightarrow> u32 \<Rightarrow> u64 \<Rightarrow> 't server_world \<Rightarrow> bool" where
  "server_start ps limit window_secs w \<longleftrightarrow>
     w_state w = server_init ps limit window_secs \<and> w_down w = DownIdle \<and> w_up w = UpIdle
     \<and> w_tun w = [] \<and> w_net w = [] \<and> rs_enabled (w_stats w)"

inductive server_step ::
  "('h, 't) handshake_api \<Rightarrow> 't transport_api \<Rightarrow> bytes \<Rightarrow> u64 \<Rightarrow> 't server_world \<Rightarrow> 't server_world \<Rightarrow> bool"
  for hapi :: "('h, 't) handshake_api" and api :: "'t transport_api" and priv :: bytes and idle_secs :: u64
  where
  hs_admitted: "\<lbrakk>w_down w = DownIdle; buf \<noteq> []; hd buf = (1 :: u8); hs_admit (w_state w) src t = (True, st)\<rbrakk>
    \<Longrightarrow> server_step hapi api priv idle_secs w (w\<lparr>w_state := st, w_down := HsAdmitted buf src\<rparr>)"
| hs_limited: "\<lbrakk>w_down w = DownIdle; buf \<noteq> []; hd buf = (1 :: u8); hs_admit (w_state w) src t = (False, st)\<rbrakk>
    \<Longrightarrow> server_step hapi api priv idle_secs w
          (w\<lparr>w_state := st, w_stats := record_handshake_fail (w_stats w)\<rparr>)"
| hs_no_responder: "\<lbrakk>w_down w = HsAdmitted buf src; responder_new hapi priv = Inl e\<rbrakk>
    \<Longrightarrow> server_step hapi api priv idle_secs w
          (w\<lparr>w_stats := record_handshake_fail (w_stats w), w_down := DownIdle\<rparr>)"
| hs_indexed: "\<lbrakk>w_down w = HsAdmitted buf src; responder_new hapi priv = Inr responder;
    alloc_index (w_state w) draws = Some (idx, rest)\<rbrakk>
    \<Longrightarrow> server_step hapi api priv idle_secs w (w\<lparr>w_down := HsIndexed buf src idx\<rparr>)"
| hs_rejected: "\<lbrakk>w_down w = HsIndexed buf src idx; responder_new hapi priv = Inr responder;
    responder_finish hapi responder buf idx = Inl e\<rbrakk>
    \<Longrightarrow> server_step hapi api priv idle_secs w
          (w\<lparr>w_stats := record_handshake_fail (w_stats w), w_down := DownIdle\<rparr>)"
| hs_committed: "\<lbrakk>w_down w = HsIndexed buf src idx; responder_new hapi priv = Inr responder;
    responder_finish hapi responder buf idx = Inr (session, response);
    hs_commit api clock (w_state w) (w_stats w) src idx session = (Inr u, st, stats)\<rbrakk>
    \<Longrightarrow> server_step hapi api priv idle_secs w
          (w\<lparr>w_state := st, w_stats := stats, w_down := DownIdle, w_net := (response, src) # w_net w\<rparr>)"
| hs_refused: "\<lbrakk>w_down w = HsIndexed buf src idx; responder_new hapi priv = Inr responder;
    responder_finish hapi responder buf idx = Inr (session, response);
    hs_commit api clock (w_state w) (w_stats w) src idx session = (Inl e, st, stats)\<rbrakk>
    \<Longrightarrow> server_step hapi api priv idle_secs w
          (w\<lparr>w_state := st, w_stats := record_handshake_fail stats, w_down := DownIdle\<rparr>)"
| data_waits: "\<lbrakk>w_down w = DownIdle; buf \<noteq> []; hd buf \<noteq> 1; data_admit (w_stats w) buf\<rbrakk>
    \<Longrightarrow> server_step hapi api priv idle_secs w (w\<lparr>w_down := DataWaiting buf src\<rparr>)"
| data_opened: "\<lbrakk>w_down w = DataWaiting buf src;
    data_locked api buf src now (w_state w) (w_stats w) = (Some (tip, plain), st, stats)\<rbrakk>
    \<Longrightarrow> server_step hapi api priv idle_secs w
          (w\<lparr>w_state := st, w_stats := stats, w_down := Delivering tip plain\<rparr>)"
| data_refused: "\<lbrakk>w_down w = DataWaiting buf src;
    data_locked api buf src now (w_state w) (w_stats w) = (None, st, stats)\<rbrakk>
    \<Longrightarrow> server_step hapi api priv idle_secs w
          (w\<lparr>w_state := st, w_stats := stats, w_down := DownIdle\<rparr>)"
| data_delivered: "\<lbrakk>w_down w = Delivering tip plain; deliver plain tip wall ok (w_stats w) = (DlTun p, stats)\<rbrakk>
    \<Longrightarrow> server_step hapi api priv idle_secs w
          (w\<lparr>w_stats := stats, w_down := DownIdle, w_tun := (tip, p) # w_tun w\<rparr>)"
| data_dropped: "\<lbrakk>w_down w = Delivering tip plain; deliver plain tip wall ok (w_stats w) = (DlQuiet, stats)\<rbrakk>
    \<Longrightarrow> server_step hapi api priv idle_secs w (w\<lparr>w_stats := stats, w_down := DownIdle\<rparr>)"
| data_failed: "\<lbrakk>w_down w = Delivering tip plain; deliver plain tip wall ok (w_stats w) = (DlTunError, stats)\<rbrakk>
    \<Longrightarrow> server_step hapi api priv idle_secs w (w\<lparr>w_stats := stats, w_down := DownStopped\<rparr>)"
| up_waits: "\<lbrakk>w_up w = UpIdle; uplink_admit (w_stats w) plain = Some dst\<rbrakk>
    \<Longrightarrow> server_step hapi api priv idle_secs w (w\<lparr>w_up := UpWaiting plain dst\<rparr>)"
| up_sent: "\<lbrakk>w_up w = UpWaiting plain dst;
    uplink_locked api plain dst now (w_state w) (w_stats w) = (Some (wire, peer), st, stats)\<rbrakk>
    \<Longrightarrow> server_step hapi api priv idle_secs w
          (w\<lparr>w_state := st, w_stats := record_tx wall (of_nat (length plain)) stats, w_up := UpIdle,
             w_net := (wire, peer) # w_net w\<rparr>)"
| up_unsent: "\<lbrakk>w_up w = UpWaiting plain dst;
    uplink_locked api plain dst now (w_state w) (w_stats w) = (res, st, stats)\<rbrakk>
    \<Longrightarrow> server_step hapi api priv idle_secs w (w\<lparr>w_state := st, w_stats := stats, w_up := UpIdle\<rparr>)"
| reaped: "reap idle_secs t_gc now t_snap (w_state w) (w_stats w) = (st, stats)
    \<Longrightarrow> server_step hapi api priv idle_secs w (w\<lparr>w_state := st, w_stats := stats\<rparr>)"
| toggled: "server_step hapi api priv idle_secs w (w\<lparr>w_stats := set_enabled wall on (w_stats w)\<rparr>)"

section \<open>The invariant\<close>

definition configured :: "(bytes, peer_meta) hashmap \<Rightarrow> ipv4 \<Rightarrow> bool" where
  "configured ps tip \<longleftrightarrow> (\<exists>pk meta. hm_get ps pk = Some meta \<and> pm_tunnel_ip meta = tip)"

definition down_ok :: "(bytes, peer_meta) hashmap \<Rightarrow> 't server_state \<Rightarrow> down_phase \<Rightarrow> bool" where
  "down_ok ps st d =
     (case d of
        HsIndexed buf src idx \<Rightarrow> idx \<noteq> 0 \<and> hm_get (by_index st) idx = None
      | Delivering tip plain \<Rightarrow> configured ps tip
      | _ \<Rightarrow> True)"

definition server_inv :: "'t transport_api \<Rightarrow> (bytes, peer_meta) hashmap \<Rightarrow> 't server_world \<Rightarrow> bool" where
  "server_inv api ps w \<longleftrightarrow>
     table_wf api (w_state w) \<and> peers (w_state w) = ps \<and> down_ok ps (w_state w) (w_down w)
     \<and> (\<forall>(tip, p) \<in> set (w_tun w). configured ps tip \<and> ipv4_src p = Some tip)"

text \<open>The live indices can be read off the sessions of the tunnel addresses.\<close>

lemma index_live_iff:
  assumes "table_wf api st"
  shows "hm_get (by_index st) i = Some l \<longleftrightarrow> session_of st (ls_tunnel_ip l) = Some l \<and> sess_index (ls_session l) = i"
proof
  assume i: "hm_get (by_index st) i = Some l"
  then show "session_of st (ls_tunnel_ip l) = Some l \<and> sess_index (ls_session l) = i"
    using table_wfD(3) [OF assms i] by (simp add: session_of_iff [OF assms] session_ok_def)
qed (auto simp: session_of_iff [OF assms])

lemma session_of_ip: "table_wf api st \<Longrightarrow> session_of st ip = Some l \<Longrightarrow> ls_tunnel_ip l = ip"
  by (simp add: session_of_iff)

lemma session_of_configured:
  assumes "table_wf api st" "session_of st ip = Some l"
  shows "configured (peers st) ip"
proof -
  have l: "hm_get (by_index st) (sess_index (ls_session l)) = Some l" "ls_tunnel_ip l = ip"
    using assms(2) session_of_iff [OF assms(1)] by simp_all
  show ?thesis
    using table_wfD(3) [OF assms(1) l(1)] l(2) by (auto simp: session_ok_def configured_def)
qed

lemma index_stays_free:
  assumes "table_wf api st" "table_wf api st'" "hm_get (by_index st) idx = None"
    and "\<And>ip l. session_of st' ip = Some l \<Longrightarrow>
      \<exists>l'. session_of st ip = Some l' \<and> sess_index (ls_session l') = sess_index (ls_session l)"
  shows "hm_get (by_index st') idx = None"
proof (rule ccontr)
  assume "hm_get (by_index st') idx \<noteq> None"
  then obtain l where "session_of st' (ls_tunnel_ip l) = Some l" "sess_index (ls_session l) = idx"
    by (auto simp: index_live_iff [OF assms(2)])
  then obtain l' where "session_of st (ls_tunnel_ip l) = Some l'" "sess_index (ls_session l') = idx"
    using assms(4) by blast
  then have "hm_get (by_index st) idx = Some l'" by (simp add: session_of_iff [OF assms(1)])
  then show False using assms(3) by simp
qed

lemma down_ok_mono:
  assumes "table_wf api st" "table_wf api st'" "down_ok ps st d"
    and "\<And>ip l. session_of st' ip = Some l \<Longrightarrow>
      \<exists>l'. session_of st ip = Some l' \<and> sess_index (ls_session l') = sess_index (ls_session l)"
  shows "down_ok ps st' d"
proof (cases d)
  case (HsIndexed buf src idx)
  then have "hm_get (by_index st') idx = None"
    using assms(3) by (intro index_stays_free [OF assms(1,2) _ assms(4)]) (simp_all add: down_ok_def)
  then show ?thesis using HsIndexed assms(3) by (simp add: down_ok_def)
qed (use assms(3) in \<open>simp_all add: down_ok_def\<close>)

text \<open>The locked section of the uplink keeps what the invariant says, whatever comes out.\<close>

lemma uplink_locked_inv:
  assumes wf: "table_wf api st" and stable: "remote_stable api" and down: "down_ok ps st d"
    and run: "uplink_locked api plain dst now st stats = (res, st', stats')"
  shows "table_wf api st' \<and> peers st' = peers st \<and> down_ok ps st' d"
  using wf stable
proof (cases rule: uplink_locked_cases [where plain = plain and dst = dst and now = now and stats = stats])
  case unknown
  then show ?thesis using run wf down by simp
next
  case (bad live e s' st2)
  have "down_ok ps st2 d"
    using encrypt_identity [OF stable bad(3)] bad(1)
    by (intro down_ok_mono [OF wf bad(5) down]) (auto simp: bad(8) split: if_splits)
  then show ?thesis using bad run by simp
next
  case (good live wire s' st2)
  have "down_ok ps st2 d"
    using encrypt_identity [OF stable good(3)] good(1)
    by (intro down_ok_mono [OF wf good(5) down]) (auto simp: good(8) split: if_splits)
  then show ?thesis using good run by simp
qed

lemma server_inv_step:
  assumes stable: "remote_stable api" and inv: "server_inv api ps w"
    and step: "server_step hapi api priv secs w w'"
  shows "server_inv api ps w'"
proof -
  have wf: "table_wf api (w_state w)" and ps: "peers (w_state w) = ps"
    and down: "down_ok ps (w_state w) (w_down w)"
    and log: "\<forall>(tip, p) \<in> set (w_tun w). configured ps tip \<and> ipv4_src p = Some tip"
    using inv by (simp_all add: server_inv_def)
  from step show ?thesis
  proof (cases rule: server_step.cases)
    case (hs_admitted buf src t st)
    then show ?thesis using wf ps log hs_admit_keeps [OF hs_admitted(5)]
      by (simp add: server_inv_def down_ok_def)
  next
    case (hs_limited buf src t st)
    then show ?thesis using wf ps log hs_admit_keeps [OF hs_limited(5)]
      by (simp add: server_inv_def down_ok_def)
  next
    case (hs_indexed buf src responder draws idx rest)
    then show ?thesis using wf ps log alloc_index_fresh [of "w_state w" draws idx rest]
      by (simp add: server_inv_def down_ok_def)
  next
    case (hs_committed buf src idx responder session response clock u st stats)
    then have new: "idx \<noteq> 0" "sess_index session = idx"
      using responder_finish_sess [OF hs_committed(4)] by simp_all
    show ?thesis
      using hs_commit_wf [OF wf new hs_committed(5)] hs_committed(1) ps log
      by (simp add: server_inv_def down_ok_def)
  next
    case (hs_refused buf src idx responder session response clock e st stats)
    then have new: "idx \<noteq> 0" "sess_index session = idx"
      using responder_finish_sess [OF hs_refused(4)] by simp_all
    show ?thesis
      using hs_commit_wf [OF wf new hs_refused(5)] hs_refused(1) ps log
      by (simp add: server_inv_def down_ok_def)
  next
    case (data_opened buf src now tip plain st stats)
    from wf stable show ?thesis
      by (cases rule: data_locked_cases [where buf = buf and src = src and now = now and stats = "w_stats w"])
        (use data_opened ps log session_of_configured [OF wf] in \<open>simp_all add: server_inv_def down_ok_def\<close>)
  next
    case (data_refused buf src now st stats)
    from wf stable show ?thesis
      by (cases rule: data_locked_cases [where buf = buf and src = src and now = now and stats = "w_stats w"])
        (use data_refused wf ps log in \<open>simp_all add: server_inv_def down_ok_def\<close>)
  next
    case (data_delivered tip plain wall ok p stats)
    then show ?thesis using wf ps log down
      by (simp add: server_inv_def down_ok_def deliver_DlTun)
  next
    case (up_sent plain dst now wire peer st stats wall)
    then show ?thesis using uplink_locked_inv [OF wf stable down up_sent(3)] ps log by (simp add: server_inv_def)
  next
    case (up_unsent plain dst now res st stats)
    then show ?thesis using uplink_locked_inv [OF wf stable down up_unsent(3)] ps log by (simp add: server_inv_def)
  next
    case (reaped t_gc now t_snap st stats)
    note r = reap_spec [OF wf reaped(2)]
    have "down_ok ps st (w_down w)"
      by (rule down_ok_mono [OF wf r(1) down]) (auto simp: r(4) split: option.splits if_splits)
    then show ?thesis using r reaped(1) ps log by (simp add: server_inv_def)
  qed (use wf ps log down in \<open>simp_all add: server_inv_def down_ok_def\<close>)
qed

text \<open>Over a transport whose identity is stable, the invariant holds in every reachable state.\<close>

interpretation srv: invariant_system "server_start ps limit window_secs"
    "server_step hapi api priv secs" "\<lambda>w. remote_stable api \<longrightarrow> server_inv api ps w"
  for ps limit window_secs hapi api priv secs
proof unfold_locales
  show "remote_stable api \<longrightarrow> server_inv api ps w" if "server_start ps limit window_secs w" for w
    using that by (simp add: server_start_def server_inv_def down_ok_def table_wf_init)
      (simp add: server_init_def)
  show "remote_stable api \<longrightarrow> server_inv api ps w'"
    if "remote_stable api \<longrightarrow> server_inv api ps w" "server_step hapi api priv secs w w'" for w w'
    using that server_inv_step by blast
qed

end
