(* ===== verification/Server_Props.thy ===== *)
theory Server_Props
  imports Server_Steps
begin

text \<open>
  The properties of the server: what the tasks guarantee in every reachable state, whatever the
  interleaving, and what one handshake, one datagram, one TUN packet and one reaper tick do.
  The first part is a concrete server with one peer whose client connects and sends a packet;
  the witnesses are read off its run.
\<close>

section \<open>A concrete run\<close>

definition demo_tip :: ipv4 where "demo_tip = Ipv4Addr 10 66 66 2"

definition demo_key :: bytes where "demo_key = replicate 32 5"

definition demo_server_key :: bytes where "demo_server_key = replicate 32 6"

definition demo_peers :: "(bytes, peer_meta) hashmap" where
  "demo_peers = [(demo_key, \<lparr>pm_tunnel_ip = demo_tip\<rparr>)]"

definition demo_src :: socket_addr where "demo_src = V4 (Ipv4Addr 1 2 3 4) 1000"

definition demo_init :: bytes where "demo_init = 1 # demo_key"

definition demo_clock :: hs_clock where
  "demo_clock = \<lparr>hc_admit = 0, hc_last_seen = 1, hc_established = 2, hc_snapshot = 3, hc_wall = Some 0\<rparr>"

definition demo_stats :: runtime_stats where
  "demo_stats = stats_new Server ''0.0.0.0:51820'' ''10.66.66.1/24'' ''soulvpn0'' 0 (Some 0)"

definition demo_session :: "u32 \<Rightarrow> demo_transport session" where
  "demo_session idx = from_transport idx ((demo_end 2 1)\<lparr>demo_remote := Some demo_key\<rparr>)"

definition demo_live :: "u32 \<Rightarrow> demo_transport live_session" where
  "demo_live idx = \<lparr>ls_session = demo_session idx, ls_peer_addr = demo_src, ls_tunnel_ip = demo_tip,
     ls_last_seen = 1, ls_established = 2\<rparr>"

definition demo_rate :: rate_limit where
  "demo_rate = snd (rl_allow (rl_new 10 10) (sock_ip demo_src) 0)"

text \<open>The state after the client's handshake, with session index \<open>idx\<close>.\<close>

definition demo_state :: "u32 \<Rightarrow> demo_transport server_state" where
  "demo_state idx = \<lparr>by_index = [(idx, demo_live idx)], by_ip = [(demo_tip, idx)],
     peers = demo_peers, rate = demo_rate\<rparr>"

definition demo_stats1 :: "u32 \<Rightarrow> runtime_stats" where
  "demo_stats1 idx = record_handshake_ok (Some 0) (refresh_stats (demo_state idx) 3 demo_stats)"

definition demo_inner :: bytes where
  "demo_inner = sample_packet demo_tip (Ipv4Addr 8 8 8 8)"

definition demo_packet :: "u32 \<Rightarrow> bytes" where
  "demo_packet idx = data_packet idx 0 (demo_seal 1 0 demo_inner)"

lemma demo_remote_stable: "remote_stable demo_api"
  by (simp add: remote_stable_def demo_api_def demo_write_def demo_read_def Let_def)

lemma demo_draws: "alloc_index (server_init ps l s) [[42, 0, 0, 0]] = Some (42, [])"
  by (simp add: alloc_index.simps server_init_def u32_from_le_def)

lemma demo_admit:
  "hs_admit (server_init demo_peers 10 10) demo_src 0 = (True, (server_init demo_peers 10 10)\<lparr>rate := demo_rate\<rparr>)"
  by (simp add: hs_admit_def server_init_def demo_rate_def rl_allow_def rl_new_def Let_def max_def
      word_le_nat_alt)

lemma demo_responder: "responder_new demo_hapi demo_server_key = Inr (DemoResp demo_server_key)"
  by (simp add: responder_new_def demo_hapi_def demo_server_key_def)

lemma demo_finish:
  "idx \<noteq> 0 \<Longrightarrow> responder_finish demo_hapi (DemoResp demo_server_key) demo_init idx
     = Inr (demo_session idx, 2 # u32_to_le idx @ [9])"
  by (simp add: responder_finish_def demo_hapi_def demo_init_def demo_key_def demo_session_def)

lemma demo_commit:
  "hs_commit demo_api demo_clock ((server_init demo_peers 10 10)\<lparr>rate := demo_rate\<rparr>) demo_stats demo_src idx
     (demo_session idx) = (Inr (), demo_state idx, demo_stats1 idx)"
  by (simp add: hs_commit_def demo_session_def remote_static_def from_transport_def demo_api_def
      server_init_def demo_peers_def replace_session_def install_session_def demo_state_def
      demo_live_def demo_clock_def demo_stats1_def Let_def)

lemma demo_handshake:
  "handle_handshake demo_hapi demo_api demo_server_key [[42, 0, 0, 0]] demo_clock demo_init demo_src
     (server_init demo_peers 10 10) demo_stats
   = Some (Inr (2 # u32_to_le 42 @ [9]), demo_state 42, demo_stats1 42)"
proof -
  have "alloc_index (((server_init demo_peers 10 10) :: demo_transport server_state)\<lparr>rate := demo_rate\<rparr>)
      [[42, 0, 0, 0]] = Some (42, [])"
    by (simp add: alloc_index.simps server_init_def u32_from_le_def)
  moreover have "hc_admit demo_clock = 0" by (simp add: demo_clock_def)
  ultimately show ?thesis
    by (simp add: handle_handshake_def demo_admit demo_responder demo_finish demo_commit)
qed

lemma demo_table_wf: "idx \<noteq> 0 \<Longrightarrow> table_wf demo_api (demo_state idx)"
  by (auto simp: table_wf_def session_ok_def demo_state_def hm_wf_def demo_live_def demo_session_def
      demo_peers_def remote_static_def demo_api_def split: if_splits)

lemma demo_decrypt:
  "\<exists>s'. decrypt demo_api (demo_session idx) (demo_packet idx) MAX_MESSAGE = (Inr demo_inner, s')"
proof -
  have "fst (check_and_update (replay (demo_session idx)) 0)"
    by (simp add: demo_session_def replay_default_fresh)
  moreover have "length demo_inner = 20" by (simp add: demo_inner_def)
  then have "length demo_inner \<le> MAX_MESSAGE" "length demo_inner \<le> MAX_PAYLOAD"
    by (simp_all add: MAX_MESSAGE_def MAX_PAYLOAD_def)
  moreover have "sess_index (demo_session idx) = idx"
    "seal demo_view (rx_key demo_view (transport (demo_session idx))) = demo_seal 1"
    by (simp_all add: demo_session_def demo_view_def demo_end_def)
  ultimately show ?thesis
    by (auto simp: demo_packet_def intro: decrypt_sealed [OF demo_lawful, of "demo_session idx" 0 demo_inner MAX_MESSAGE])
qed

text \<open>The run: the handshake in three sections, then the packet to the TUN device.\<close>

definition demo_world :: "demo_transport server_world" where
  "demo_world = \<lparr>w_state = server_init demo_peers 10 10, w_stats = demo_stats, w_down = DownIdle,
     w_up = UpIdle, w_tun = [], w_net = []\<rparr>"

abbreviation demo_reach :: "demo_transport server_world \<Rightarrow> bool" where
  "demo_reach \<equiv> reach (server_start demo_peers 10 10) (server_step demo_hapi demo_api demo_server_key 180)"

definition demo_world1 :: "demo_transport server_world" where
  "demo_world1 = demo_world\<lparr>w_state := (server_init demo_peers 10 10)\<lparr>rate := demo_rate\<rparr>,
     w_down := HsIndexed demo_init demo_src 42\<rparr>"

definition demo_world2 :: "demo_transport server_world" where
  "demo_world2 = demo_world1\<lparr>w_state := demo_state 42, w_stats := demo_stats1 42, w_down := DownIdle,
     w_net := [(2 # u32_to_le 42 @ [9], demo_src)]\<rparr>"

lemma demo_reach1: "demo_reach demo_world1"
proof -
  have "demo_reach demo_world"
    by (intro reach_init) (simp add: server_start_def demo_world_def demo_stats_def stats_new_def)
  moreover have "server_step demo_hapi demo_api demo_server_key 180 demo_world
      (demo_world\<lparr>w_state := (server_init demo_peers 10 10)\<lparr>rate := demo_rate\<rparr>, w_down := HsAdmitted demo_init demo_src\<rparr>)"
    by (rule hs_admitted [where t = 0]) (simp_all add: demo_world_def demo_init_def demo_admit)
  ultimately have "demo_reach (demo_world\<lparr>w_state := (server_init demo_peers 10 10)\<lparr>rate := demo_rate\<rparr>,
      w_down := HsAdmitted demo_init demo_src\<rparr>)"
    by (rule reach_step)
  moreover have "server_step demo_hapi demo_api demo_server_key 180
      (demo_world\<lparr>w_state := (server_init demo_peers 10 10)\<lparr>rate := demo_rate\<rparr>, w_down := HsAdmitted demo_init demo_src\<rparr>)
      demo_world1"
  proof -
    have "alloc_index ((server_init demo_peers 10 10 :: demo_transport server_state)\<lparr>rate := demo_rate\<rparr>) [[42, 0, 0, 0]] = Some (42, [])"
      by (simp add: alloc_index.simps server_init_def u32_from_le_def)
    then show ?thesis
      using hs_indexed [of "demo_world\<lparr>w_state := (server_init demo_peers 10 10)\<lparr>rate := demo_rate\<rparr>, w_down := HsAdmitted demo_init demo_src\<rparr>"
          demo_init demo_src demo_hapi demo_server_key "DemoResp demo_server_key" "[[42, 0, 0, 0]]" 42 "[]" demo_api 180]
      by (simp add: demo_world1_def demo_responder)
  qed
  ultimately show ?thesis by (rule reach_step)
qed

lemma demo_reach2: "demo_reach demo_world2"
proof -
  have "server_step demo_hapi demo_api demo_server_key 180 demo_world1 demo_world2"
    using hs_committed [of demo_world1 demo_init demo_src 42 demo_hapi demo_server_key
        "DemoResp demo_server_key" "demo_session 42" "2 # u32_to_le 42 @ [9]" demo_api demo_clock "()"
        "demo_state 42" "demo_stats1 42" 180]
    by (simp add: demo_world1_def demo_world2_def demo_world_def demo_responder demo_finish demo_commit)
  then show ?thesis by (rule reach_step [OF demo_reach1])
qed

lemma demo_packet_head: "demo_packet 42 \<noteq> []" "hd (demo_packet 42) = 42" "12 \<le> length (demo_packet 42)"
  using data_packet_hd [of 42 0 "demo_seal 1 0 demo_inner"] by (auto simp: demo_packet_def)

lemma demo_data_locked:
  "\<exists>st'. data_locked demo_api (demo_packet 42) src now (demo_state 42) stats
      = (Some (demo_tip, demo_inner), st', stats)"
proof -
  have "byte_range 0 4 (demo_packet 42) = u32_to_le 42" by (simp add: demo_packet_def)
  moreover have "hm_get (by_index (demo_state 42)) 42 = Some (demo_live 42)" by (simp add: demo_state_def)
  moreover have "ls_session (demo_live 42) = demo_session 42" "ls_tunnel_ip (demo_live 42) = demo_tip"
    by (simp_all add: demo_live_def)
  ultimately show ?thesis
    using demo_decrypt [of 42] by (auto simp: data_locked_def Let_def)
qed

lemma demo_deliver:
  "deliver demo_inner demo_tip (Some 0) True s = (DlTun demo_inner, record_rx (Some 0) 20 s)"
  using ipv4_addrs_sample(1) [of demo_tip "Ipv4Addr 8 8 8 8" "[]"]
  by (simp add: deliver_DlTun demo_inner_def)

lemma demo_delivered: "\<exists>w. demo_reach w \<and> (demo_tip, demo_inner) \<in> set (w_tun w)"
proof -
  let ?step = "server_step demo_hapi demo_api demo_server_key 180"
  let ?w1 = "demo_world2\<lparr>w_down := DataWaiting (demo_packet 42) demo_src\<rparr>"
  have "data_admit (w_stats demo_world2) (demo_packet 42)"
    using demo_packet_head
    by (simp add: demo_world2_def demo_world1_def data_admit_def demo_stats1_def is_enabled_def
        demo_stats_def stats_new_def)
  then have "?step demo_world2 ?w1"
    using demo_packet_head
    by (intro data_waits) (simp_all add: demo_world2_def demo_world1_def)
  note reach1 = reach_step [OF demo_reach2 this]
  obtain st' where "data_locked demo_api (demo_packet 42) demo_src 5 (w_state ?w1) (w_stats ?w1)
      = (Some (demo_tip, demo_inner), st', w_stats ?w1)"
    using demo_data_locked [of demo_src 5 "w_stats demo_world2"] by (auto simp: demo_world2_def demo_world1_def)
  then have "?step ?w1 (?w1\<lparr>w_state := st', w_stats := w_stats ?w1, w_down := Delivering demo_tip demo_inner\<rparr>)"
    by (intro data_opened [where buf = "demo_packet 42" and src = demo_src]) simp_all
  note reach2 = reach_step [OF reach1 this]
  let ?w2 = "?w1\<lparr>w_state := st', w_stats := w_stats ?w1, w_down := Delivering demo_tip demo_inner\<rparr>"
  let ?w3 = "?w2\<lparr>w_stats := record_rx (Some 0) 20 (w_stats ?w2), w_down := DownIdle,
      w_tun := (demo_tip, demo_inner) # w_tun ?w2\<rparr>"
  have "?step ?w2 ?w3"
    by (rule data_delivered [where wall = "Some 0" and ok = True and plain = demo_inner])
      (simp_all add: demo_deliver)
  then have "demo_reach ?w3" by (rule reach_step [OF reach2])
  moreover have "(demo_tip, demo_inner) \<in> set (w_tun ?w3)" by simp
  ultimately have "demo_reach ?w3 \<and> (demo_tip, demo_inner) \<in> set (w_tun ?w3)" ..
  then show ?thesis by (rule exI)
qed

section \<open>Every reachable state\<close>

text \<open>C2: No source spoofing. Whatever the clients, the network and the scheduler do, every
  packet the server has written to its TUN device is an IPv4 packet whose source address is the
  tunnel address of a configured peer, the one of the session it came in on.\<close>

theorem tun_writes_authentic:
  assumes "remote_stable api"
    and "reach (server_start ps limit window_secs) (server_step hapi api priv secs) w"
    and "(tip, p) \<in> set (w_tun w)"
  shows "ipv4_src p = Some tip \<and> (\<exists>pk meta. hm_get ps pk = Some meta \<and> pm_tunnel_ip meta = tip)"
  using srv.reach_inv [OF assms(2)] assms(1,3)
  by (fastforce simp: server_inv_def configured_def)

theorem tun_writes_authentic_witness:
  "\<exists>w. demo_reach w \<and> (demo_tip, demo_inner) \<in> set (w_tun w) \<and> ipv4_src demo_inner = Some demo_tip"
  using demo_delivered tun_writes_authentic [OF demo_remote_stable, of demo_peers 10 10 demo_hapi demo_server_key 180]
  by blast

text \<open>C12: The session table is consistent in every reachable state: a live session has the
  index it is filed under, which is not zero, it is the one session of its tunnel address, and
  its authenticated key is that of the peer configured for this address; every tunnel address
  points to a live session of its own.\<close>

theorem session_table_consistent:
  assumes "remote_stable api"
    and "reach (server_start ps limit window_secs) (server_step hapi api priv secs) w"
  shows "(\<forall>i live. hm_get (by_index (w_state w)) i = Some live \<longrightarrow>
      i \<noteq> 0 \<and> sess_index (ls_session live) = i \<and> hm_get (by_ip (w_state w)) (ls_tunnel_ip live) = Some i
      \<and> (\<exists>pk meta. remote_static api (ls_session live) = Some pk \<and> hm_get ps pk = Some meta
           \<and> pm_tunnel_ip meta = ls_tunnel_ip live))
    \<and> (\<forall>ip i. hm_get (by_ip (w_state w)) ip = Some i \<longrightarrow>
      (\<exists>live. hm_get (by_index (w_state w)) i = Some live \<and> ls_tunnel_ip live = ip))"
proof -
  have "server_inv api ps w" using srv.reach_inv [OF assms(2)] assms(1) by blast
  then show ?thesis
    unfolding server_inv_def table_wf_def session_ok_def by blast
qed

theorem session_table_consistent_witness:
  "\<exists>live. hm_get (by_index (w_state demo_world2)) 42 = Some live
     \<and> hm_get (by_ip (w_state demo_world2)) (ls_tunnel_ip live) = Some 42"
  using session_table_consistent [OF demo_remote_stable demo_reach2]
  by (simp add: demo_world2_def demo_state_def)

text \<open>The collision branch of \<open>handle_handshake\<close> is dead: only the downlink task inserts
  sessions, so an index chosen in the second locked section is still free in the third, whatever
  the uplink task and the reaper did in between.\<close>

theorem index_collision_unreachable:
  assumes "remote_stable api"
    and "reach (server_start ps limit window_secs) (server_step hapi api priv secs) w"
    and "w_down w = HsIndexed buf src idx"
  shows "fst (hs_commit api clock (w_state w) (w_stats w) src idx session) \<noteq> Inl IndexCollision"
proof -
  have inv: "server_inv api ps w" using srv.reach_inv [OF assms(2)] assms(1) by blast
  then have wf: "table_wf api (w_state w)" and free: "hm_get (by_index (w_state w)) idx = None"
    using assms(3) by (simp_all add: server_inv_def down_ok_def)
  have "\<not> hm_contains (by_index (replace_session (w_state w) tip)) idx" for tip
    using free replace_session_keeps [OF wf, of tip idx]
    by (cases "hm_get (by_index (replace_session (w_state w) tip)) idx") auto
  then show ?thesis by (simp add: hs_commit_def Let_def split: option.split)
qed

theorem index_collision_unreachable_witness:
  "fst (hs_commit demo_api demo_clock (w_state demo_world1) (w_stats demo_world1) demo_src 42
     (demo_session 42)) \<noteq> Inl IndexCollision"
  by (rule index_collision_unreachable [OF demo_remote_stable demo_reach1])
    (simp add: demo_world1_def)

lemma live_tunnel_ips_inj:
  assumes wf: "table_wf api st"
  shows "inj_on (\<lambda>i. ls_tunnel_ip (the (hm_get (by_index st) i))) (dom (hm_get (by_index st)))"
proof (rule inj_onI)
  fix i j
  assume "i \<in> dom (hm_get (by_index st))" "j \<in> dom (hm_get (by_index st))"
    and eq: "ls_tunnel_ip (the (hm_get (by_index st) i)) = ls_tunnel_ip (the (hm_get (by_index st) j))"
  then obtain l l' where "hm_get (by_index st) i = Some l" "hm_get (by_index st) j = Some l'" by blast
  then show "i = j"
    using table_wfD(3) [OF wf, of i l] table_wfD(3) [OF wf, of j l'] eq by (simp add: session_ok_def)
qed

text \<open>C40: The session table cannot be made to grow: in every reachable state there are at most
  as many live sessions as configured peers, however many handshakes were accepted.\<close>

theorem sessions_bounded:
  assumes "remote_stable api"
    and "reach (server_start ps limit window_secs) (server_step hapi api priv secs) w"
  shows "length (by_index (w_state w)) \<le> length ps"
proof -
  let ?st = "w_state w" and ?f = "\<lambda>i. ls_tunnel_ip (the (hm_get (by_index (w_state w)) i))"
  have inv: "server_inv api ps w" using srv.reach_inv [OF assms(2)] assms(1) by blast
  then have wf: "table_wf api ?st" and ps: "peers ?st = ps" by (simp_all add: server_inv_def)
  have dom: "dom (hm_get (by_index ?st)) = set (map fst (by_index ?st))" by (simp add: dom_map_of_conv_image_fst)
  have len: "length (by_index ?st) = card (dom (hm_get (by_index ?st)))"
    using distinct_card [of "map fst (by_index ?st)"] table_wfD(1) [OF wf] by (simp add: dom hm_wf_def)
  have "?f ` dom (hm_get (by_index ?st)) \<subseteq> (\<lambda>kv. pm_tunnel_ip (snd kv)) ` set ps"
  proof
    fix ip assume "ip \<in> ?f ` dom (hm_get (by_index ?st))"
    then obtain i l where il: "hm_get (by_index ?st) i = Some l" "ip = ls_tunnel_ip l" by auto
    then obtain pk meta where "hm_get ps pk = Some meta" "pm_tunnel_ip meta = ip"
      using table_wfD(3) [OF wf il(1)] ps by (auto simp: session_ok_def)
    then show "ip \<in> (\<lambda>kv. pm_tunnel_ip (snd kv)) ` set ps"
      using map_of_SomeD by (force intro: rev_image_eqI)
  qed
  then have "card (?f ` dom (hm_get (by_index ?st))) \<le> card ((\<lambda>kv. pm_tunnel_ip (snd kv)) ` set ps)"
    by (intro card_mono) simp_all
  also have "\<dots> \<le> length ps" by (rule le_trans [OF card_image_le card_length]) simp
  finally show ?thesis
    using card_image [OF live_tunnel_ips_inj [OF wf]] len by simp
qed

theorem sessions_bounded_witness: "length (by_index (w_state demo_world2)) \<le> 1"
  using sessions_bounded [OF demo_remote_stable demo_reach2] by (simp add: demo_peers_def)

section \<open>One datagram\<close>

lemma handle_datagram_data:
  "hd buf \<noteq> 1 \<Longrightarrow> buf \<noteq> [] \<Longrightarrow> handle_datagram hapi api priv draws clock ok buf src st stats
     = Some (handle_data api buf src (hc_last_seen clock) (hc_wall clock) ok st stats)"
  by (cases buf) (simp_all add: handle_datagram_def)

lemma handle_datagram_handshake:
  "hd buf = 1 \<Longrightarrow> buf \<noteq> [] \<Longrightarrow> handle_datagram hapi api priv draws clock ok buf src st stats
     = (case handle_handshake hapi api priv draws clock buf src st stats of
          None \<Rightarrow> None
        | Some (Inr response, st, stats) \<Rightarrow> Some (DlSend response src, st, stats)
        | Some (Inl e, st, stats) \<Rightarrow> Some (DlQuiet, st, record_handshake_fail stats))"
  by (cases buf) (simp_all add: handle_datagram_def)

text \<open>A datagram reaches the TUN device only while the data plane is enabled, only by
  decrypting under the live session its index names, and only when the inner source address is
  the tunnel address configured for the key that authenticated this session.\<close>

theorem datagram_tun_write_sound:
  assumes "table_wf api st" "remote_stable api"
    and "handle_datagram hapi api priv draws clock ok buf src st stats = Some (DlTun p, st', stats')"
  shows "is_enabled stats \<and> (\<exists>live s' pk meta.
      hm_get (by_index st) (u32_from_le (byte_range 0 4 buf)) = Some live
    \<and> decrypt api (ls_session live) buf MAX_MESSAGE = (Inr p, s')
    \<and> remote_static api (ls_session live) = Some pk \<and> hm_get (peers st) pk = Some meta
    \<and> ipv4_src p = Some (pm_tunnel_ip meta))"
proof -
  have data: "buf \<noteq> []" "hd buf \<noteq> 1"
    using assms(3) by (cases buf; auto simp: handle_datagram_def split: if_splits option.splits sum.splits)+
  then have h: "handle_data api buf src (hc_last_seen clock) (hc_wall clock) ok st stats = (DlTun p, st', stats')"
    using assms(3) by (simp add: handle_datagram_data)
  then have enabled: "is_enabled stats" by (auto simp: handle_data_def data_admit_def split: if_splits)
  from assms(1,2) show ?thesis
  proof (cases rule: data_locked_cases
      [where buf = buf and src = src and now = "hc_last_seen clock" and stats = stats])
    case (good live plain s' st'')
    have i: "hm_get (by_index st) (u32_from_le (byte_range 0 4 buf)) = Some live"
      using good(1,2) by (simp add: session_of_iff [OF assms(1)])
    obtain pk meta where "remote_static api (ls_session live) = Some pk" "hm_get (peers st) pk = Some meta"
      "pm_tunnel_ip meta = ls_tunnel_ip live"
      using table_wfD(3) [OF assms(1) i] by (auto simp: session_ok_def)
    moreover have "p = plain" "ipv4_src plain = Some (ls_tunnel_ip live)"
      using h good(4) by (auto simp: handle_data_def deliver_DlTun split: if_splits prod.splits)
    ultimately show ?thesis using enabled i good(3) by auto
  qed (use h in \<open>auto simp: handle_data_def split: if_splits\<close>)
qed

theorem datagram_tun_write_sound_witness:
  "\<exists>live s'. hm_get (by_index (demo_state 42)) 42 = Some live
     \<and> decrypt demo_api (ls_session live) (demo_packet 42) MAX_MESSAGE = (Inr demo_inner, s')"
proof -
  obtain st' where "data_locked demo_api (demo_packet 42) demo_src 1 (demo_state 42) demo_stats
      = (Some (demo_tip, demo_inner), st', demo_stats)"
    using demo_data_locked [of demo_src 1 demo_stats] by blast
  moreover have "data_admit demo_stats (demo_packet 42)"
    using demo_packet_head by (simp add: data_admit_def demo_stats_def stats_new_def is_enabled_def)
  ultimately have "handle_datagram demo_hapi demo_api [] [] demo_clock True (demo_packet 42) demo_src
      (demo_state 42) demo_stats = Some (DlTun demo_inner, st', record_rx (Some 0) 20 demo_stats)"
    using demo_packet_head
    by (simp add: handle_datagram_data handle_data_def demo_clock_def demo_deliver)
  from datagram_tun_write_sound [OF demo_table_wf demo_remote_stable this]
  show ?thesis by (auto simp: demo_packet_def)
qed

text \<open>The data path alone.\<close>

lemma handle_data_addr:
  assumes "table_wf api st" "remote_stable api"
    and "handle_data api buf src now wall ok st stats = (out, st', stats')"
    and "map_option ls_peer_addr (session_of st' tip) \<noteq> map_option ls_peer_addr (session_of st tip)"
  obtains live live' plain where "session_of st tip = Some live" "session_of st' tip = Some live'"
    "ls_peer_addr live' = src" "decrypt api (ls_session live) buf MAX_MESSAGE = (Inr plain, ls_session live')"
proof -
  have adm: "data_admit stats buf" using assms(3,4) by (auto simp: handle_data_def split: if_splits)
  obtain res st2 stats2 where dl: "data_locked api buf src now st stats = (res, st2, stats2)"
    by (metis prod_cases3)
  then have st': "st' = st2"
    using assms(3) adm by (auto simp: handle_data_def split: option.splits prod.splits)
  from assms(1,2) show thesis
  proof (cases rule: data_locked_cases [where buf = buf and src = src and now = now and stats = stats])
    case unknown
    then have "session_of st' = session_of st" using dl st' by simp
    then show thesis using assms(4) by simp
  next
    case (bad l e s' st'')
    then have "session_of st' = (session_of st)(ls_tunnel_ip l \<mapsto> l\<lparr>ls_session := s'\<rparr>)"
      using dl st' by simp
    then show thesis using assms(4) bad(1) by (cases "tip = ls_tunnel_ip l") auto
  next
    case (good l plain s' st'')
    then have new: "session_of st' = (session_of st)(ls_tunnel_ip l \<mapsto>
        l\<lparr>ls_session := s', ls_peer_addr := src, ls_last_seen := now\<rparr>)"
      using dl st' by simp
    then have "tip = ls_tunnel_ip l" using assms(4) by (auto split: if_splits)
    then show thesis using new good(1,3) by (intro that) auto
  qed
qed

text \<open>C19: The address the server answers to moves only with authentication. Whatever datagram
  comes in, when the peer address of a tunnel address changes, or appears, the new one is the
  datagram's source, and either the datagram is data that decrypted under the session this tunnel
  address had, or it is an init that the Noise exchange accepted from the key configured for this
  tunnel address. Freshness of the init is not part of this: \<open>replayed_init_takes_over\<close>.\<close>

theorem peer_addr_needs_decrypt:
  assumes "table_wf api st" "remote_stable api"
    and "handle_datagram hapi api priv draws clock ok buf src st stats = Some (out, st', stats')"
    and "map_option ls_peer_addr (session_of st' tip) \<noteq> map_option ls_peer_addr (session_of st tip)"
  shows "\<exists>live'. session_of st' tip = Some live' \<and> ls_peer_addr live' = src
    \<and> (if hd buf = 1
       then \<exists>responder idx response pk meta. responder_new hapi priv = Inr responder
          \<and> responder_finish hapi responder buf idx = Inr (ls_session live', response)
          \<and> out = DlSend response src \<and> remote_static api (ls_session live') = Some pk
          \<and> hm_get (peers st) pk = Some meta \<and> pm_tunnel_ip meta = tip
       else \<exists>live plain. session_of st tip = Some live
          \<and> decrypt api (ls_session live) buf MAX_MESSAGE = (Inr plain, ls_session live'))"
proof (cases "hd buf = 1")
  case True
  have ne: "buf \<noteq> []" using assms(3,4) by (auto simp: handle_datagram_def)
  obtain r stats1 where h: "handle_handshake hapi api priv draws clock buf src st stats = Some (r, st', stats1)"
    "\<And>response. r = Inr response \<Longrightarrow> out = DlSend response src"
    using assms(3) by (auto simp: handle_datagram_handshake [OF True ne] split: option.splits sum.splits prod.splits)
  from assms(1) h(1) show ?thesis
  proof (cases rule: handle_handshake_cases)
    case (refused e)
    then show ?thesis using assms(4) by simp
  next
    case (established idx rest responder session response pk meta live)
    then have "tip = pm_tunnel_ip meta" using assms(4) by (auto split: if_splits)
    then show ?thesis
      using established True h(2) by (intro exI [of _ live]) auto
  qed
next
  case False
  have "buf \<noteq> []" using assms(3,4) by (auto simp: handle_datagram_def)
  then have "handle_data api buf src (hc_last_seen clock) (hc_wall clock) ok st stats = (out, st', stats')"
    using assms(3) by (simp add: handle_datagram_data False)
  then obtain live live' plain where "session_of st tip = Some live" "session_of st' tip = Some live'"
    "ls_peer_addr live' = src" "decrypt api (ls_session live) buf MAX_MESSAGE = (Inr plain, ls_session live')"
    by (rule handle_data_addr [OF assms(1,2) _ assms(4)])
  then show ?thesis using False by simp
qed

theorem peer_addr_needs_decrypt_witness:
  "\<exists>out st' stats' live' plain.
      handle_datagram demo_hapi demo_api demo_server_key [] demo_clock True (demo_packet 42) (V4 (Ipv4Addr 9 9 9 9) 7)
        (demo_state 42) demo_stats = Some (out, st', stats')
    \<and> session_of st' demo_tip = Some live' \<and> ls_peer_addr live' = V4 (Ipv4Addr 9 9 9 9) 7
    \<and> decrypt demo_api (demo_session 42) (demo_packet 42) MAX_MESSAGE = (Inr plain, ls_session live')"
proof -
  let ?a = "V4 (Ipv4Addr 9 9 9 9) 7"
  have head: "hd (demo_packet 42) \<noteq> 1" "demo_packet 42 \<noteq> []" using demo_packet_head by simp_all
  obtain out st' stats' where r: "handle_data demo_api (demo_packet 42) ?a (hc_last_seen demo_clock) (hc_wall demo_clock)
      True (demo_state 42) demo_stats = (out, st', stats')" by (metis prod_cases3)
  then have d: "handle_datagram demo_hapi demo_api demo_server_key [] demo_clock True (demo_packet 42) ?a
      (demo_state 42) demo_stats = Some (out, st', stats')" by (simp add: handle_datagram_data [OF head])
  have live: "session_of (demo_state 42) demo_tip = Some (demo_live 42)"
    by (simp add: session_of_def demo_state_def)
  have adm: "data_admit demo_stats (demo_packet 42)"
    using demo_packet_head by (simp add: data_admit_def demo_stats_def stats_new_def is_enabled_def)
  obtain s' where s': "decrypt demo_api (demo_session 42) (demo_packet 42) MAX_MESSAGE = (Inr demo_inner, s')"
    using demo_decrypt by blast
  have fields: "ls_session (demo_live 42) = demo_session 42" "ls_tunnel_ip (demo_live 42) = demo_tip"
    "ls_peer_addr (demo_live 42) = demo_src" by (simp_all add: demo_live_def)
  have idx: "u32_from_le (byte_range 0 4 (demo_packet 42)) = 42" by (simp add: demo_packet_def)
  obtain live' where l': "session_of st' demo_tip = Some live'" "ls_peer_addr live' = ?a"
    using r adm s' fields idx
    by (auto simp: handle_data_def data_locked_def demo_state_def session_of_def Let_def split: prod.splits)
  then have "map_option ls_peer_addr (session_of st' demo_tip) \<noteq> map_option ls_peer_addr (session_of (demo_state 42) demo_tip)"
    by (simp add: live fields demo_src_def)
  from peer_addr_needs_decrypt [OF demo_table_wf demo_remote_stable d this] d live fields head
  show ?thesis by auto
qed

text \<open>C32: The first byte decides too early. A data packet of a session whose index is 1
  modulo 256 starts with the byte that marks a handshake, so no packet of such a session, genuine
  or not, ever reaches the TUN device, although \<open>alloc_index\<close> gives these indices away.\<close>

theorem index_one_mod_256_is_dead:
  assumes "unat idx mod 256 = 1"
  shows "\<nexists>p st' stats'. handle_datagram hapi api priv draws clock ok (data_packet idx n ct) src st stats
    = Some (DlTun p, st', stats')"
proof -
  have "ucast idx = (1 :: u8)"
    using assms by (simp add: word_unat_eq_iff unsigned_ucast_eq take_bit_eq_mod)
  then have "hd (data_packet idx n ct) = 1" "data_packet idx n ct \<noteq> []"
    using data_packet_hd [of idx n ct] by simp_all
  then show ?thesis
    by (auto simp: handle_datagram_handshake split: option.splits sum.splits)
qed

theorem index_one_mod_256_is_dead_witness:
  "alloc_index (server_init demo_peers 10 10) [[1, 1, 0, 0]] = Some (257, [])
   \<and> (\<nexists>p st' stats'. handle_datagram demo_hapi demo_api demo_server_key [] demo_clock True
        (demo_packet 257) demo_src (demo_state 257) demo_stats = Some (DlTun p, st', stats'))"
proof
  show "alloc_index (server_init demo_peers 10 10) [[1, 1, 0, 0]] = Some (257, [])"
    by (simp add: alloc_index.simps server_init_def u32_from_le_def)
  show "\<nexists>p st' stats'. handle_datagram demo_hapi demo_api demo_server_key [] demo_clock True
        (demo_packet 257) demo_src (demo_state 257) demo_stats = Some (DlTun p, st', stats')"
    unfolding demo_packet_def by (rule index_one_mod_256_is_dead) simp
qed

section \<open>One TUN packet\<close>

text \<open>C15: Cryptokey routing. A packet read from the TUN device leaves the server only while the
  data plane is enabled, encrypted under the session of its destination address, whose
  authenticated key is that of the peer configured for this address, and to the address this
  session was last authenticated from.\<close>

theorem uplink_routes_by_key:
  assumes "table_wf api st" "remote_stable api"
    and "handle_tun api plain now wall ok st stats = (UpSend wire addr, st', stats')"
  shows "is_enabled stats \<and> (\<exists>dst live s' pk meta. ipv4_dst plain = Some dst
    \<and> session_of st dst = Some live \<and> ls_peer_addr live = addr
    \<and> encrypt api (ls_session live) plain MAX_MESSAGE = (Inr wire, s')
    \<and> remote_static api (ls_session live) = Some pk \<and> hm_get (peers st) pk = Some meta
    \<and> pm_tunnel_ip meta = dst)"
proof -
  obtain dst where dst: "is_enabled stats" "ipv4_dst plain = Some dst"
    using assms(3) by (auto simp: handle_tun_def uplink_admit_def split: if_splits option.splits)
  have "plain \<noteq> []" using dst by (auto simp: ipv4_dst_def is_ipv4_def split: if_splits)
  note h = assms(3) [unfolded handle_tun_def uplink_admit_def]
  from assms(1,2) show ?thesis
  proof (cases rule: uplink_locked_cases [where plain = plain and dst = dst and now = now and stats = stats])
    case (good live w s' st'')
    have "wire = w" "addr = ls_peer_addr live"
      using h good(4) dst \<open>plain \<noteq> []\<close> by (auto split: if_splits)
    moreover have i: "hm_get (by_index st) (sess_index (ls_session live)) = Some live"
      using good(1) session_of_iff [OF assms(1)] by simp
    obtain pk meta where "remote_static api (ls_session live) = Some pk" "hm_get (peers st) pk = Some meta"
      "pm_tunnel_ip meta = dst"
      using table_wfD(3) [OF assms(1) i] good(2) by (auto simp: session_ok_def)
    ultimately show ?thesis using dst good(1,3) by blast
  qed (use h dst \<open>plain \<noteq> []\<close> in simp_all)
qed

definition demo_reply :: bytes where
  "demo_reply = sample_packet (Ipv4Addr 8 8 8 8) demo_tip"

lemma demo_uplink:
  "\<exists>wire st'. handle_tun demo_api demo_reply 9 (Some 0) True (demo_state 42) demo_stats
     = (UpSend wire demo_src, st', record_tx (Some 0) 20 demo_stats)"
proof -
  have len: "length demo_reply = 20" by (simp add: demo_reply_def)
  have dst: "ipv4_dst demo_reply = Some demo_tip"
    using ipv4_addrs_sample(2) [of "Ipv4Addr 8 8 8 8" demo_tip "[]"] by (simp add: demo_reply_def)
  have look: "hm_get (by_ip (demo_state 42)) demo_tip = Some 42"
    "hm_get (by_index (demo_state 42)) 42 = Some (demo_live 42)" by (simp_all add: demo_state_def)
  have live: "ls_session (demo_live 42) = demo_session 42" "ls_peer_addr (demo_live 42) = demo_src"
    by (simp_all add: demo_live_def)
  obtain wire s' where "encrypt demo_api (demo_session 42) demo_reply MAX_MESSAGE = (Inr wire, s')"
    using len by (simp add: encrypt_def MAX_MESSAGE_def MAX_PAYLOAD_def demo_api_def demo_write_def
        demo_session_def demo_end_def Let_def)
  moreover have "demo_reply \<noteq> []" using len by auto
  moreover have "is_enabled demo_stats" by (simp add: is_enabled_def demo_stats_def stats_new_def)
  ultimately show ?thesis
    using dst look live len by (simp add: handle_tun_def uplink_admit_def uplink_locked_def)
qed

theorem uplink_routes_by_key_witness:
  "\<exists>wire s' live. session_of (demo_state 42) demo_tip = Some live \<and> ls_peer_addr live = demo_src
     \<and> encrypt demo_api (ls_session live) demo_reply MAX_MESSAGE = (Inr wire, s')"
proof -
  obtain wire st' where "handle_tun demo_api demo_reply 9 (Some 0) True (demo_state 42) demo_stats
     = (UpSend wire demo_src, st', record_tx (Some 0) 20 demo_stats)" using demo_uplink by blast
  from uplink_routes_by_key [OF demo_table_wf demo_remote_stable this]
  show ?thesis using ipv4_addrs_sample(2) [of "Ipv4Addr 8 8 8 8" demo_tip "[]"]
    by (auto simp: demo_reply_def)
qed

section \<open>One handshake\<close>

text \<open>C18: A handshake changes the sessions only when it is accepted, and it is accepted only
  from a configured key. An error, a rate limit included, leaves every session and every counter
  of \<open>handle_handshake\<close> as it was; success installs one fresh session, under an index that
  was free and is announced in the response, at the tunnel address configured for the key that
  the Noise exchange authenticated, answering to the datagram's source.\<close>

theorem handshake_outcome:
  assumes "table_wf api st"
    and "handle_handshake hapi api priv draws clock msg src st stats = Some (r, st', stats')"
  shows "table_wf api st' \<and> (case r of
      Inl e \<Rightarrow> session_of st' = session_of st \<and> stats' = stats
    | Inr response \<Rightarrow> \<exists>live pk meta m. remote_static api (ls_session live) = Some pk
        \<and> hm_get (peers st) pk = Some meta \<and> ls_tunnel_ip live = pm_tunnel_ip meta
        \<and> ls_peer_addr live = src \<and> hm_get (by_index st) (sess_index (ls_session live)) = None
        \<and> response = 2 # u32_to_le (sess_index (ls_session live)) @ m
        \<and> session_of st' = (session_of st)(pm_tunnel_ip meta \<mapsto> live))"
  using assms
proof (cases rule: handle_handshake_cases)
  case (refused e)
  then show ?thesis by simp
next
  case (established idx rest responder session response pk meta live)
  note shape = responder_response_shape [OF established(4)]
  obtain m where m: "response = 2 # u32_to_le idx @ m" using shape(1) by blast
  have fresh: "hm_get (by_index st) idx = None" using alloc_index_fresh [OF established(2)] by simp
  have live: "ls_session live = session" "ls_tunnel_ip live = pm_tunnel_ip meta" "ls_peer_addr live = src"
    using established(7) by simp_all
  have "\<exists>live pk meta m. remote_static api (ls_session live) = Some pk
        \<and> hm_get (peers st) pk = Some meta \<and> ls_tunnel_ip live = pm_tunnel_ip meta
        \<and> ls_peer_addr live = src \<and> hm_get (by_index st) (sess_index (ls_session live)) = None
        \<and> response = 2 # u32_to_le (sess_index (ls_session live)) @ m
        \<and> session_of st' = (session_of st)(pm_tunnel_ip meta \<mapsto> live)"
    using live m fresh shape(2) established(5,6,8)
    by (intro exI [of _ live] exI [of _ pk] exI [of _ meta] exI [of _ m]) simp
  then show ?thesis using established(1,9) by simp
qed

theorem handshake_outcome_witness:
  "\<exists>live pk m. remote_static demo_api (ls_session live) = Some pk
     \<and> (2 :: u8) # u32_to_le 42 @ [9] = 2 # u32_to_le (sess_index (ls_session live)) @ m
     \<and> session_of (demo_state 42) = [demo_tip \<mapsto> live]"
proof -
  have "session_of (server_init demo_peers 10 10 :: demo_transport server_state) = Map.empty"
    by (simp add: session_of_def server_init_def fun_eq_iff)
  moreover have "pm_tunnel_ip meta = demo_tip" if "hm_get demo_peers pk = Some meta" for pk meta
    using that by (auto simp: demo_peers_def split: if_splits)
  moreover have "peers (server_init demo_peers 10 10 :: demo_transport server_state) = demo_peers"
    by (simp add: server_init_def)
  ultimately show ?thesis
    using handshake_outcome [OF table_wf_init demo_handshake] by fastforce
qed

text \<open>The responder's part of the exchange does not depend on the index it announces.\<close>

lemma responder_finish_reindex:
  assumes "responder_finish hapi r msg i = Inr (s, resp)" "j \<noteq> 0"
  shows "\<exists>resp'. responder_finish hapi r msg j = Inr (from_transport j (transport s), resp')"
  using assms by (auto simp: responder_finish_def from_transport_def split: if_splits option.splits prod.splits list.splits)

text \<open>C31: A recorded handshake init works again. Whoever sends the same bytes from any address
  that the rate limiter admits gets them accepted: the live session of the tunnel address is
  dropped, and the server answers to the replayer's address from then on, although the replayer
  holds no key.\<close>

theorem replayed_init_takes_over:
  assumes "table_wf api st"
    and "handle_handshake hapi api priv draws clock msg src st stats = Some (Inr resp, st1, stats1)"
    and "fst (hs_admit st1 src2 (hc_admit clock2))" "alloc_index st1 draws2 = Some (idx2, rest2)"
  shows "\<exists>resp2 st2 stats2 tip live1 live2.
      handle_handshake hapi api priv draws2 clock2 msg src2 st1 stats1 = Some (Inr resp2, st2, stats2)
    \<and> session_of st1 tip = Some live1 \<and> hm_get (by_index st2) (sess_index (ls_session live1)) = None
    \<and> session_of st2 tip = Some live2 \<and> ls_peer_addr live2 = src2"
  using assms(1,2)
proof (cases rule: handle_handshake_cases)
  case (established idx rest responder session response pk meta live)
  obtain sta where a: "hs_admit st1 src2 (hc_admit clock2) = (True, sta)"
    using assms(3) by (metis fst_conv prod.collapse)
  have fresh: "idx2 \<noteq> 0" "hm_get (by_index st1) idx2 = None"
    using alloc_index_fresh [OF assms(4)] by simp_all
  obtain resp' where fin: "responder_finish hapi responder msg idx2 = Inr (from_transport idx2 (transport session), resp')"
    using responder_finish_reindex [OF established(4) fresh(1)] by blast
  have sta: "table_wf api sta" "session_of sta = session_of st1" "peers sta = peers st"
    "alloc_index sta draws2 = Some (idx2, rest2)" "by_index sta = by_index st1"
    using hs_admit_keeps [OF a] established(9,10) alloc_index_same [of sta st1] assms(4) by simp_all
  define s2 where "s2 = from_transport idx2 (transport session)"
  have s2: "sess_index s2 = idx2" "remote_static api s2 = Some pk"
    using established(5) by (simp_all add: s2_def remote_static_def)
  have live: "session_of st1 (pm_tunnel_ip meta) = Some live" "sess_index (ls_session live) = idx"
    using established(7,8) responder_finish_sess [OF established(4)] by simp_all
  from sta(1) fresh(1) s2(1) show ?thesis
  proof (cases rule: hs_commit_cases [where clock = clock2 and stats = stats1 and src = src2])
    case (collision pk' meta')
    then show ?thesis
      using fresh(2) replace_session_keeps [OF sta(1), of "pm_tunnel_ip meta'" idx2] sta(5) by fastforce
  next
    case est: (established pk' meta' live2 st2 stats2)
    have same: "pk' = pk" "meta' = meta" using est(1,2) s2(2) established(6) sta(3) by simp_all
    have run: "handle_handshake hapi api priv draws2 clock2 msg src2 st1 stats1 = Some (Inr resp', st2, stats2)"
      using a established(3) sta(4) fin est(4) by (simp add: handle_handshake_def s2_def)
    have new: "session_of st2 (pm_tunnel_ip meta) = Some live2" "ls_peer_addr live2 = src2"
      "sess_index (ls_session live2) = idx2"
      using est(3,6) s2(1) same by simp_all
    have "idx \<noteq> idx2"
      using live fresh(2) session_of_iff [OF established(9)] by auto
    have "hm_get (by_index st2) idx = None"
    proof (rule ccontr)
      assume "hm_get (by_index st2) idx \<noteq> None"
      then obtain l where l: "session_of st2 (ls_tunnel_ip l) = Some l" "sess_index (ls_session l) = idx"
        by (auto simp: index_live_iff [OF est(5)])
      then have "ls_tunnel_ip l \<noteq> pm_tunnel_ip meta" using new \<open>idx \<noteq> idx2\<close> by auto
      then have "session_of st1 (ls_tunnel_ip l) = Some l" using l est(6) same sta(2) by simp
      then have "hm_get (by_index st1) idx = Some l" using l(2) session_of_iff [OF established(9)] by auto
      moreover have "hm_get (by_index st1) idx = Some live" "ls_tunnel_ip live = pm_tunnel_ip meta"
        using live session_of_iff [OF established(9)] by auto
      ultimately show False using \<open>ls_tunnel_ip l \<noteq> pm_tunnel_ip meta\<close> by simp
    qed
    then show ?thesis using run live new by blast
  qed (use s2(2) established(6) sta(3) in simp_all)
qed simp

definition demo_replayer :: socket_addr where "demo_replayer = V4 (Ipv4Addr 9 9 9 9) 7"

lemma demo_admit_replay: "fst (hs_admit (demo_state 42) demo_replayer (hc_admit demo_clock))"
  by (simp add: hs_admit_def demo_state_def demo_rate_def rl_allow_def rl_new_def Let_def max_def
      word_le_nat_alt demo_replayer_def demo_src_def demo_clock_def)

lemma demo_alloc_replay: "alloc_index (demo_state 42) [[43, 0, 0, 0]] = Some (43, [])"
  by (simp add: alloc_index.simps demo_state_def u32_from_le_def)

theorem replayed_init_takes_over_witness:
  "\<exists>resp2 st2 stats2 tip live2.
      handle_handshake demo_hapi demo_api demo_server_key [[43, 0, 0, 0]] demo_clock demo_init demo_replayer
        (demo_state 42) (demo_stats1 42) = Some (Inr resp2, st2, stats2)
    \<and> session_of st2 tip = Some live2 \<and> ls_peer_addr live2 = demo_replayer"
  using replayed_init_takes_over [OF table_wf_init demo_handshake demo_admit_replay demo_alloc_replay]
  by blast

section \<open>Indices and the reaper\<close>

text \<open>C39: The index loop returns the first draw that is neither zero nor the index of a live
  session, leaving the rest of the draws, and runs on exactly while there is none.\<close>

theorem alloc_index_first_fresh:
  "alloc_index st draws =
     (case dropWhile (\<lambda>b. u32_from_le b = 0 \<or> hm_contains (by_index st) (u32_from_le b)) draws of
        [] \<Rightarrow> None
      | b # rest \<Rightarrow> Some (u32_from_le b, rest))"
proof (induction draws)
  case Nil
  then show ?case by (simp add: alloc_index.simps)
next
  case (Cons b draws)
  have skip: "alloc_index st (b # draws) = alloc_index st draws" if "u32_from_le b = 0"
    using that by (simp add: alloc_index.simps [of st "b # draws"] alloc_index.simps [of st draws] Let_def)
  have draw: "alloc_index st (b # draws) = (if hm_contains (by_index st) (u32_from_le b)
      then alloc_index st draws else Some (u32_from_le b, draws))" if "u32_from_le b \<noteq> 0"
    using that by (simp add: alloc_index.simps [of st "b # draws"] Let_def)
  show ?case
  proof (cases "u32_from_le b = 0")
    case True
    then show ?thesis using Cons skip by simp
  next
    case False
    then show ?thesis using Cons draw by simp
  qed
qed

text \<open>C36: A tick of the reaper drops exactly the sessions that have been silent for longer than
  the configured time (30 seconds at least), keeps every other session as it is and the table
  consistent, and publishes the number of sessions left.\<close>

theorem reap_drops_exactly_idle:
  assumes "table_wf api st" "reap secs t_gc now t_snap st stats = (st', stats')"
  shows "table_wf api st' \<and> peers st' = peers st
    \<and> (\<forall>ip live. session_of st' ip = Some live \<longleftrightarrow> session_of st ip = Some live
         \<and> now - ls_last_seen live \<le> from_secs (unat (max secs 30)))
    \<and> rs_active_sessions stats' = of_nat (length (by_index st'))"
  using reap_spec [OF assms]
  by (auto simp: duration_since_def refresh_stats_def stats_defs not_less split: option.splits if_splits)

theorem reap_drops_exactly_idle_witness:
  "let st' = fst (reap 60 0 (from_secs 100) 0 (demo_state 42) demo_stats)
   in session_of (demo_state 42) demo_tip \<noteq> None \<and> session_of st' demo_tip = None"
proof -
  obtain st' stats' where r: "reap 60 0 (from_secs 100) 0 (demo_state 42) demo_stats = (st', stats')" by force
  have live: "session_of (demo_state 42) demo_tip = Some (demo_live 42)"
    by (simp add: session_of_def demo_state_def)
  have "unat (max 60 30 :: u64) = 60" by (simp add: max_def word_le_nat_alt)
  then have "session_of st' demo_tip \<noteq> Some l" for l
    using reap_drops_exactly_idle [OF demo_table_wf r] live
    by (auto simp: from_secs_def demo_live_def)
  then have "session_of st' demo_tip = None" by (cases "session_of st' demo_tip") auto
  then show ?thesis using r live by (simp add: Let_def)
qed

end
