(* ===== verification/Route.thy ===== *)
theory Route
  imports Host Net_Addr
begin

text \<open>
  The routing, firewall, DNS and IPv6 helpers of \<open>src/src/route.rs\<close>. What \<open>ip\<close> and
  \<open>iptables\<close> do is not part of the repository: the kernel is a parameter \<open>'k\<close> with a
  function \<open>exec\<close> that runs a command (\<open>None\<close> when it cannot be spawned, otherwise whether
  it succeeded) and a function \<open>route_output\<close> for the one command whose output is read, the query
  \<open>ip -4 route show default\<close>, which changes nothing. Every command that \<open>exec\<close> runs is also logged
  with its outcome, so that properties can speak of what was run; the query is not. Guards
  that undo their work on \<open>Drop\<close> are records with a drop function, called where the code
  drops them, the early returns of \<open>?\<close> included.
\<close>

section \<open>Running commands\<close>

record 'k net_env =
  exec :: "'k \<Rightarrow> string list \<Rightarrow> bool option \<times> 'k"
  route_output :: "'k \<Rightarrow> (bool \<times> string) option"

record 'k net =
  kernel :: 'k
  nhost :: host
  issued :: "(string list \<times> bool option) list"

datatype route_error =
    SpawnFailed string
  | CommandFailed "string list"
  | RouteShowFailed
  | NoDefaultRoute string
  | EnableForward
  | ReadResolv
  | BackupResolv
  | WriteResolv

definition invoke :: "'k net_env \<Rightarrow> string list \<Rightarrow> 'k net \<Rightarrow> bool option \<times> 'k net" where
  "invoke env args w =
     (let (r, k) = exec env (kernel w) args
      in (r, w\<lparr>kernel := k, issued := issued w @ [(args, r)]\<rparr>))"

definition run :: "'k net_env \<Rightarrow> string list \<Rightarrow> 'k net \<Rightarrow> (route_error + unit) \<times> 'k net" where
  "run env args w =
     (let (r, w) = invoke env args w
      in (case r of None \<Rightarrow> Inl (SpawnFailed (hd args))
          | Some ok \<Rightarrow> if ok then Inr () else Inl (CommandFailed args), w))"

definition run_status :: "'k net_env \<Rightarrow> string list \<Rightarrow> 'k net \<Rightarrow> (route_error + bool) \<times> 'k net" where
  "run_status env args w =
     (let (r, w) = invoke env args w
      in (case r of None \<Rightarrow> Inl (SpawnFailed (hd args)) | Some ok \<Rightarrow> Inr ok, w))"

text \<open>\<open>let _ = run(..)\<close>, and a list of commands where the first error returns.\<close>

definition run_ignore :: "'k net_env \<Rightarrow> string list \<Rightarrow> 'k net \<Rightarrow> 'k net" where
  "run_ignore env args w = snd (run env args w)"

fun run_all :: "'k net_env \<Rightarrow> string list list \<Rightarrow> 'k net \<Rightarrow> (route_error + unit) \<times> 'k net" where
  "run_all env [] w = (Inr (), w)"
| "run_all env (c # cs) w =
     (case run env c w of (Inl e, w) \<Rightarrow> (Inl e, w) | (Inr _, w) \<Rightarrow> run_all env cs w)"

fun run_each :: "'k net_env \<Rightarrow> string list list \<Rightarrow> 'k net \<Rightarrow> 'k net" where
  "run_each env [] w = w"
| "run_each env (c # cs) w = run_each env cs (run_ignore env c w)"

section \<open>Finding the default route\<close>

text \<open>\<open>while let Some(tok) = parts.next()\<close> with its two fields.\<close>

fun scan_route :: "ipv4 option \<Rightarrow> string option \<Rightarrow> string list \<Rightarrow> ipv4 option \<times> string option" where
  "scan_route gw dev [] = (gw, dev)"
| "scan_route gw dev [t] =
     (if t = ''via'' then (None, dev) else if t = ''dev'' then (gw, None) else (gw, dev))"
| "scan_route gw dev (t # u # ts) =
     (if t = ''via'' then scan_route (parse_ipv4_addr u) dev ts
      else if t = ''dev'' then scan_route gw (Some u) ts
      else scan_route gw dev (u # ts))"

definition default_route :: "'k net_env \<Rightarrow> 'k net \<Rightarrow> route_error + ipv4 \<times> string" where
  "default_route env w =
     (case route_output env (kernel w) of
        None \<Rightarrow> Inl (SpawnFailed ''ip'')
      | Some (ok, text) \<Rightarrow>
          if \<not> ok then Inl RouteShowFailed
          else case scan_route None None (split_whitespace text) of
              (Some g, Some d) \<Rightarrow> Inr (g, d)
            | _ \<Rightarrow> Inl (NoDefaultRoute text))"

definition default_egress_dev :: "'k net_env \<Rightarrow> 'k net \<Rightarrow> route_error + string" where
  "default_egress_dev env w = (case default_route env w of Inl e \<Rightarrow> Inl e | Inr (_, d) \<Rightarrow> Inr d)"

section \<open>NAT\<close>

definition ip_forward :: string where
  "ip_forward = ''/proc/sys/net/ipv4/ip_forward''"

record nat_guard =
  nat_tun_cidr :: string
  nat_egress :: string
  nat_prev_forward :: "string option"
  nat_rule_added :: bool

definition masquerade :: "string \<Rightarrow> string \<Rightarrow> string \<Rightarrow> string list" where
  "masquerade action cidr egress =
     [''iptables'', ''-t'', ''nat'', action, ''POSTROUTING'', ''-s'', cidr, ''-o'', egress, ''-j'', ''MASQUERADE'']"

definition nat_setup :: "'k net_env \<Rightarrow> string \<Rightarrow> 'k net \<Rightarrow> (route_error + nat_guard) \<times> 'k net" where
  "nat_setup env tun_cidr w =
     (let prev = fs_read (nhost w) ip_forward
      in case fs_write (nhost w) ip_forward ''1'' of
           None \<Rightarrow> (Inl EnableForward, w)
         | Some h \<Rightarrow>
             let w = w\<lparr>nhost := h\<rparr>
             in case default_egress_dev env w of
                  Inl e \<Rightarrow> (Inl e, w)
                | Inr egress \<Rightarrow>
                    let (r, w) = run_status env (masquerade ''-C'' tun_cidr egress) w;
                        present = (case r of Inl _ \<Rightarrow> False | Inr b \<Rightarrow> b);
                        guard = \<lparr>nat_tun_cidr = tun_cidr, nat_egress = egress, nat_prev_forward = prev,
                                 nat_rule_added = \<not> present\<rparr>
                    in if present then (Inr guard, w)
                       else (case run env (masquerade ''-A'' tun_cidr egress) w of
                               (Inl e, w) \<Rightarrow> (Inl e, w)
                             | (Inr _, w) \<Rightarrow> (Inr guard, w)))"

definition write_ignore :: "string \<Rightarrow> string \<Rightarrow> 'k net \<Rightarrow> 'k net" where
  "write_ignore path c w = (case fs_write (nhost w) path c of None \<Rightarrow> w | Some h \<Rightarrow> w\<lparr>nhost := h\<rparr>)"

definition nat_drop :: "'k net_env \<Rightarrow> nat_guard \<Rightarrow> 'k net \<Rightarrow> 'k net" where
  "nat_drop env g w =
     (let w = (if nat_rule_added g then run_ignore env (masquerade ''-D'' (nat_tun_cidr g) (nat_egress g)) w else w)
      in case nat_prev_forward g of None \<Rightarrow> w | Some prev \<Rightarrow> write_ignore ip_forward prev w)"

section \<open>Kill switch\<close>

definition KS_CHAIN :: string where
  "KS_CHAIN = ''SOULVPN_KS''"

definition ks_append :: "string list \<Rightarrow> string list" where
  "ks_append rule = [''iptables'', ''-A'', KS_CHAIN] @ rule"

definition ks_allow :: "ipv4 \<Rightarrow> u16 \<Rightarrow> string \<Rightarrow> string list list" where
  "ks_allow server_ip server_port tun_name =
     [[''-o'', ''lo'', ''-j'', ''RETURN''],
      [''-o'', tun_name, ''-j'', ''RETURN''],
      [''-d'', show_ipv4 server_ip, ''-p'', ''udp'', ''--dport'', show_nat (unat server_port), ''-j'', ''RETURN'']]"

definition ks_conntrack :: "string list" where
  "ks_conntrack = [''-m'', ''conntrack'', ''--ctstate'', ''ESTABLISHED,RELATED'', ''-j'', ''RETURN'']"

definition ks_state :: "string list" where
  "ks_state = [''-m'', ''state'', ''--state'', ''ESTABLISHED,RELATED'', ''-j'', ''RETURN'']"

definition ks_reject :: "string list" where
  "ks_reject = [''-j'', ''REJECT'', ''--reject-with'', ''icmp-net-unreachable'']"

text \<open>The unit value stands for the empty struct \<open>KillSwitch\<close>.\<close>

definition ks_install ::
  "'k net_env \<Rightarrow> ipv4 \<Rightarrow> u16 \<Rightarrow> string \<Rightarrow> 'k net \<Rightarrow> (route_error + unit) \<times> 'k net" where
  "ks_install env server_ip server_port tun_name w =
     (let w = run_ignore env [''iptables'', ''-N'', KS_CHAIN] w;
          w = run_ignore env [''iptables'', ''-F'', KS_CHAIN] w
      in case run_all env (map ks_append (ks_allow server_ip server_port tun_name)) w of
           (Inl e, w) \<Rightarrow> (Inl e, w)
         | (Inr _, w) \<Rightarrow>
             let (r, w) = run env (ks_append ks_conntrack) w;
                 w = (case r of Inr _ \<Rightarrow> w | Inl _ \<Rightarrow> run_ignore env (ks_append ks_state) w)
             in case run env (ks_append ks_reject) w of
                  (Inl e, w) \<Rightarrow> (Inl e, w)
                | (Inr _, w) \<Rightarrow>
                    let (r, w) = run_status env [''iptables'', ''-C'', ''OUTPUT'', ''-j'', KS_CHAIN] w
                    in if r = Inr True then (Inr (), w)
                       else run env [''iptables'', ''-I'', ''OUTPUT'', ''1'', ''-j'', KS_CHAIN] w)"

definition ks_drop :: "'k net_env \<Rightarrow> 'k net \<Rightarrow> 'k net" where
  "ks_drop env w = run_each env
     [[''iptables'', ''-D'', ''OUTPUT'', ''-j'', KS_CHAIN], [''iptables'', ''-F'', KS_CHAIN],
      [''iptables'', ''-X'', KS_CHAIN]] w"

section \<open>IPv6\<close>

definition blackhole :: "string \<Rightarrow> string \<Rightarrow> string list" where
  "blackhole action prefix = [''ip'', ''-6'', ''route'', action, ''blackhole'', prefix]"

definition ipv6_enable :: "'k net_env \<Rightarrow> 'k net \<Rightarrow> (route_error + bool) \<times> 'k net" where
  "ipv6_enable env w =
     (case run_all env [blackhole ''replace'' ''::/1'', blackhole ''replace'' ''8000::/1''] w of
        (Inl e, w) \<Rightarrow> (Inl e, w)
      | (Inr _, w) \<Rightarrow> (Inr True, w))"

definition ipv6_drop :: "'k net_env \<Rightarrow> bool \<Rightarrow> 'k net \<Rightarrow> 'k net" where
  "ipv6_drop env active w =
     (if active then run_each env [blackhole ''del'' ''::/1'', blackhole ''del'' ''8000::/1''] w else w)"

section \<open>DNS\<close>

definition RESOLV :: string where
  "RESOLV = ''/etc/resolv.conf''"

definition RESOLV_BACKUP :: string where
  "RESOLV_BACKUP = ''/etc/resolv.conf.soulvpn.bak''"

text \<open>The first line holds an em dash, three bytes in UTF-8.\<close>

definition resolv_body :: "string list \<Rightarrow> string" where
  "resolv_body servers =
     ''# Managed by soulvpn '' @ [CHR 0xE2, CHR 0x80, CHR 0x94] @ '' do not edit'' @ [CHR 0x0A]
     @ concat (map (\<lambda>s. ''nameserver '' @ s @ [CHR 0x0A]) servers)"

text \<open>The guard is its flag \<open>restored\<close>.\<close>

definition dns_install :: "string list \<Rightarrow> host \<Rightarrow> (route_error + bool) \<times> host" where
  "dns_install servers h =
     (let backed =
        (if fs_exists h RESOLV then
           (case fs_read h RESOLV of
              None \<Rightarrow> (Inl ReadResolv, h)
            | Some c \<Rightarrow>
                if fs_exists h RESOLV_BACKUP then (Inr (), h)
                else (case fs_write h RESOLV_BACKUP c of
                        None \<Rightarrow> (Inl BackupResolv, h)
                      | Some h \<Rightarrow> (Inr (), h)))
         else (Inr (), h))
      in case backed of
           (Inl e, h) \<Rightarrow> (Inl e, h)
         | (Inr _, h) \<Rightarrow>
             (case fs_write h RESOLV (resolv_body servers) of
                None \<Rightarrow> (Inl WriteResolv, h)
              | Some h \<Rightarrow> (Inr False, h)))"

definition dns_restore :: "bool \<Rightarrow> host \<Rightarrow> bool \<times> host" where
  "dns_restore restored h =
     (if restored then (True, h)
      else if fs_exists h RESOLV_BACKUP then
        let h = (case fs_read h RESOLV_BACKUP of
                   None \<Rightarrow> h
                 | Some c \<Rightarrow> (case fs_write h RESOLV c of None \<Rightarrow> h | Some h \<Rightarrow> h));
            h = (case fs_remove h RESOLV_BACKUP of None \<Rightarrow> h | Some h \<Rightarrow> h)
        in (True, h)
      else (True, h))"

section \<open>The client's routes\<close>

record client_routes =
  rt_server_host :: "ipv4 option"
  rt_via_gateway :: "ipv4 option"
  rt_via_dev :: "string option"
  rt_redirect_all :: bool
  rt_tun_name :: string
  rt_kill_switch :: "unit option"
  rt_ipv6 :: "bool option"
  rt_dns :: "bool option"

record route_opts =
  ro_redirect_all :: bool
  ro_kill_switch :: bool
  ro_disable_ipv6 :: bool
  ro_dns :: "string list"

definition full_tunnel :: "string \<Rightarrow> string \<Rightarrow> string list list" where
  "full_tunnel action tun_name =
     [[''ip'', ''route'', action, ''0.0.0.0/1'', ''dev'', tun_name],
      [''ip'', ''route'', action, ''128.0.0.0/1'', ''dev'', tun_name]]"

definition host_route :: "string \<Rightarrow> ipv4 \<Rightarrow> ipv4 \<Rightarrow> string \<Rightarrow> string list" where
  "host_route action ip gateway dev =
     [''ip'', ''route'', action, show_ipv4 ip, ''via'', show_ipv4 gateway, ''dev'', dev]"

definition with_host :: "(host \<Rightarrow> 'a \<times> host) \<Rightarrow> 'k net \<Rightarrow> 'a \<times> 'k net" where
  "with_host f w = (let (r, h) = f (nhost w) in (r, w\<lparr>nhost := h\<rparr>))"

definition drop_opt :: "('a \<Rightarrow> 'k net \<Rightarrow> 'k net) \<Rightarrow> 'a option \<Rightarrow> 'k net \<Rightarrow> 'k net" where
  "drop_opt f x w = (case x of None \<Rightarrow> w | Some g \<Rightarrow> f g w)"

definition teardown_all :: "'k net_env \<Rightarrow> client_routes \<Rightarrow> 'k net \<Rightarrow> client_routes \<times> 'k net" where
  "teardown_all env self w =
     (let w = drop_opt (\<lambda>_. ks_drop env) (rt_kill_switch self) w;
          w = drop_opt (ipv6_drop env) (rt_ipv6 self) w;
          w = drop_opt (\<lambda>restored w. snd (with_host (dns_restore restored) w)) (rt_dns self) w;
          w = (if rt_redirect_all self then run_each env (full_tunnel ''del'' (rt_tun_name self)) w else w);
          w = (case (rt_server_host self, rt_via_gateway self, rt_via_dev self) of
                 (Some ip, Some gw, Some dev) \<Rightarrow> run_ignore env (host_route ''del'' ip gw dev) w
               | _ \<Rightarrow> w)
      in (self\<lparr>rt_kill_switch := None, rt_ipv6 := None, rt_dns := None, rt_server_host := None,
               rt_via_gateway := None, rt_via_dev := None\<rparr>, w))"

definition routes_drop :: "'k net_env \<Rightarrow> client_routes \<Rightarrow> 'k net \<Rightarrow> 'k net" where
  "routes_drop env self w = snd (teardown_all env self w)"

text \<open>
  The optional parts of \<open>install\<close> after the routes: IPv6, DNS, kill switch. Their errors are
  only logged.
\<close>

definition install_extras ::
  "'k net_env \<Rightarrow> ipv4 \<Rightarrow> u16 \<Rightarrow> route_opts \<Rightarrow> client_routes \<Rightarrow> 'k net \<Rightarrow> client_routes \<times> 'k net" where
  "install_extras env server_ip server_port opts state w =
     (let (state, w) =
            (if ro_disable_ipv6 opts then
               (case ipv6_enable env w of
                  (Inr g, w) \<Rightarrow> (state\<lparr>rt_ipv6 := Some g\<rparr>, w)
                | (Inl _, w) \<Rightarrow> (state, w))
             else (state, w));
          (state, w) =
            (if ro_dns opts \<noteq> [] then
               (case with_host (dns_install (ro_dns opts)) w of
                  (Inr g, w) \<Rightarrow> (state\<lparr>rt_dns := Some g\<rparr>, w)
                | (Inl _, w) \<Rightarrow> (state, w))
             else (state, w))
      in if ro_kill_switch opts \<and> ro_redirect_all opts then
           (case ks_install env server_ip server_port (rt_tun_name state) w of
              (Inr ks, w) \<Rightarrow> (state\<lparr>rt_kill_switch := Some ks\<rparr>, w)
            | (Inl _, w) \<Rightarrow> (state, w))
         else (state, w))"

text \<open>\<open>install\<close>; every early return of an error drops the state built so far.\<close>

definition routes_install ::
  "'k net_env \<Rightarrow> socket_addr \<Rightarrow> string \<Rightarrow> route_opts \<Rightarrow> 'k net
     \<Rightarrow> (route_error + client_routes) \<times> 'k net" where
  "routes_install env endpoint tun_name opts w =
     (let state = \<lparr>rt_server_host = None, rt_via_gateway = None, rt_via_dev = None,
                   rt_redirect_all = ro_redirect_all opts, rt_tun_name = tun_name,
                   rt_kill_switch = None, rt_ipv6 = None, rt_dns = None\<rparr>
      in case endpoint of
           V6 _ _ _ _ \<Rightarrow> (Inr state, w)
         | V4 server_ip server_port \<Rightarrow>
             (case default_route env w of
                Inl e \<Rightarrow> (Inl e, routes_drop env state w)
              | Inr (gateway, dev) \<Rightarrow>
                  (case run env (host_route ''replace'' server_ip gateway dev) w of
                     (Inl e, w) \<Rightarrow> (Inl e, routes_drop env state w)
                   | (Inr _, w) \<Rightarrow>
                       let state = state\<lparr>rt_server_host := Some server_ip, rt_via_gateway := Some gateway,
                                         rt_via_dev := Some dev\<rparr>
                       in case (if ro_redirect_all opts then run_all env (full_tunnel ''replace'' tun_name) w
                                else (Inr (), w)) of
                            (Inl e, w) \<Rightarrow> (Inl e, routes_drop env state w)
                          | (Inr _, w) \<Rightarrow>
                              let (state, w) = install_extras env server_ip server_port opts state w
                              in (Inr state, w))))"

definition routes_teardown :: "'k net_env \<Rightarrow> client_routes \<Rightarrow> 'k net \<Rightarrow> client_routes \<times> 'k net" where
  "routes_teardown env self w =
     (let w = drop_opt (\<lambda>_. ks_drop env) (rt_kill_switch self) w
      in (self\<lparr>rt_kill_switch := None\<rparr>,
          if rt_redirect_all self then run_each env (full_tunnel ''del'' (rt_tun_name self)) w else w))"

text \<open>The tail of \<open>reenable\<close> only discards values.\<close>

definition reenable :: "'k net_env \<Rightarrow> client_routes \<Rightarrow> 'k net \<Rightarrow> (route_error + unit) \<times> 'k net" where
  "reenable env self w =
     (if rt_redirect_all self then run_all env (full_tunnel ''replace'' (rt_tun_name self)) w
      else (Inr (), w))"

definition reenable_with_ks ::
  "'k net_env \<Rightarrow> socket_addr \<Rightarrow> bool \<Rightarrow> client_routes \<Rightarrow> 'k net
     \<Rightarrow> (route_error + unit) \<times> client_routes \<times> 'k net" where
  "reenable_with_ks env endpoint want_kill_switch self w =
     (case reenable env self w of
        (Inl e, w) \<Rightarrow> (Inl e, self, w)
      | (Inr _, w) \<Rightarrow>
          if want_kill_switch \<and> rt_redirect_all self \<and> rt_kill_switch self = None then
            (case (endpoint, rt_via_dev self) of
               (V4 ip port, Some dev) \<Rightarrow>
                 (case ks_install env ip port (rt_tun_name self) w of
                    (Inr ks, w) \<Rightarrow> (Inr (), self\<lparr>rt_kill_switch := Some ks\<rparr>, w)
                  | (Inl _, w) \<Rightarrow> (Inr (), self, w))
             | _ \<Rightarrow> (Inr (), self, w))
          else (Inr (), self, w))"

end
