(* ===== verification/Route_Props.thy ===== *)
theory Route_Props
  imports Route
begin

text \<open>
  The properties of the route helpers. What \<open>ip\<close> and \<open>iptables\<close> do enters as laws about a
  view of the kernel: \<open>firewall_lawful\<close> for the chain of the kill switch and the jumps to it,
  \<open>routing_lawful\<close> for the routing table. Both leave open whether a command succeeds; what a
  clean-up could not undo is read off the log of the commands (\<open>since\<close>, \<open>undeleted\<close>). A small
  concrete kernel that satisfies both serves the witnesses.
\<close>

section \<open>What commands leave alone\<close>

lemma run_host [simp]:
  "nhost (snd (run env args w)) = nhost w" "nhost (snd (run_status env args w)) = nhost w"
  "nhost (run_ignore env args w) = nhost w"
  by (simp_all add: run_def run_status_def run_ignore_def invoke_def split_def Let_def)

lemma run_hostD: "run env args w = (r, w') \<Longrightarrow> nhost w' = nhost w"
  using run_host(1) [of env args w] by simp

lemma run_status_hostD: "run_status env args w = (r, w') \<Longrightarrow> nhost w' = nhost w"
  using run_host(2) [of env args w] by simp

lemma run_each_host [simp]: "nhost (run_each env cs w) = nhost w"
  by (induction cs arbitrary: w) simp_all

lemma run_outcome:
  "run env args w = (r, w') \<longleftrightarrow>
     (let (o1, k) = exec env (kernel w) args
      in w' = w\<lparr>kernel := k, issued := issued w @ [(args, o1)]\<rparr>
       \<and> r = (case o1 of None \<Rightarrow> Inl (SpawnFailed (hd args)) | Some True \<Rightarrow> Inr () | Some False \<Rightarrow> Inl (CommandFailed args)))"
  by (auto simp: run_def invoke_def Let_def split: prod.splits option.splits)

section \<open>NAT\<close>

lemma nat_setup_ok:
  assumes "nat_setup env cidr w = (Inr g, w1)"
  obtains h new where "fs_write (nhost w) ip_forward ''1'' = Some h" "nhost w1 = h"
    "g = \<lparr>nat_tun_cidr = cidr, nat_egress = nat_egress g, nat_prev_forward = fs_read (nhost w) ip_forward,
      nat_rule_added = nat_rule_added g\<rparr>"
    "issued w1 = issued w @ new" "fst (hd new) = masquerade ''-C'' cidr (nat_egress g)"
    "tl new = (if nat_rule_added g then [(masquerade ''-A'' cidr (nat_egress g), Some True)] else [])" "new \<noteq> []"
proof -
  obtain h where h: "fs_write (nhost w) ip_forward ''1'' = Some h"
    using assms by (auto simp: nat_setup_def Let_def split: option.splits)
  let ?w = "w\<lparr>nhost := h\<rparr>"
  obtain egress where eg: "default_egress_dev env ?w = Inr egress"
    using assms h by (auto simp: nat_setup_def Let_def split: sum.splits)
  obtain o1 k1 where c: "exec env (kernel w) (masquerade ''-C'' cidr egress) = (o1, k1)" by force
  show thesis
  proof (cases "o1 = Some True")
    case True
    then show thesis
      using assms h eg c
      by (intro that [of h "[(masquerade ''-C'' cidr egress, o1)]"])
        (auto simp: nat_setup_def run_status_def invoke_def Let_def)
  next
    case False
    obtain o2 k2 where a: "exec env k1 (masquerade ''-A'' cidr egress) = (o2, k2)" by force
    have neg: "(case case o1 of None \<Rightarrow> Inl (SpawnFailed s) | Some ok \<Rightarrow> Inr ok of Inl _ \<Rightarrow> False | Inr b \<Rightarrow> b) = False" for s
      using False by (auto split: option.splits)
    have "o2 = Some True"
      using assms h eg c a neg
      by (auto simp: nat_setup_def run_status_def run_def invoke_def Let_def split: option.splits if_splits)
    then show thesis
      using assms h eg c a neg
      by (intro that [of h "[(masquerade ''-C'' cidr egress, o1), (masquerade ''-A'' cidr egress, o2)]"])
        (auto simp: nat_setup_def run_status_def run_def invoke_def Let_def)
  qed
qed

lemma nat_guard_undone:
  assumes "nat_setup env cidr w = (Inr g, w1)" "fs_read (nhost w) ip_forward = Some prev"
  shows "fs_read (nhost w1) ip_forward = Some ''1''
    \<and> fs_read (nhost (nat_drop env g w1)) ip_forward = Some prev
    \<and> (\<forall>q. q \<noteq> ip_forward \<longrightarrow> files (nhost (nat_drop env g w1)) q = files (nhost w) q)
    \<and> ((masquerade ''-A'' cidr (nat_egress g), Some True) \<in> set (drop (length (issued w)) (issued w1))
        \<longleftrightarrow> nat_rule_added g)
    \<and> map fst (drop (length (issued w1)) (issued (nat_drop env g w1)))
        = (if nat_rule_added g then [masquerade ''-D'' cidr (nat_egress g)] else [])"
proof -
  obtain h new where s: "fs_write (nhost w) ip_forward ''1'' = Some h" "nhost w1 = h"
    "g = \<lparr>nat_tun_cidr = cidr, nat_egress = nat_egress g, nat_prev_forward = fs_read (nhost w) ip_forward,
      nat_rule_added = nat_rule_added g\<rparr>"
    "issued w1 = issued w @ new" "fst (hd new) = masquerade ''-C'' cidr (nat_egress g)"
    "tl new = (if nat_rule_added g then [(masquerade ''-A'' cidr (nat_egress g), Some True)] else [])" "new \<noteq> []"
    by (rule nat_setup_ok [OF assms(1)])
  have g: "nat_prev_forward g = Some prev" "nat_tun_cidr g = cidr" using s(3) assms(2) by (metis nat_guard.simps)+
  let ?d = "masquerade ''-D'' cidr (nat_egress g)"
  let ?w2 = "if nat_rule_added g then run_ignore env ?d w1 else w1"
  have drop: "nat_drop env g w1 = write_ignore ip_forward prev ?w2" by (simp add: nat_drop_def g)
  have dn: "\<not> denied h ip_forward" and h: "fs_read h ip_forward = Some ''1''"
    "\<And>q. q \<noteq> ip_forward \<Longrightarrow> files h q = files (nhost w) q"
    using s(1) by (auto simp: fs_write_def fs_read_def split: if_splits option.splits)
  obtain h2 where h2: "fs_write h ip_forward prev = Some h2" using dn by (simp add: fs_write_def)
  have host: "nhost (nat_drop env g w1) = h2" using h2 s(2) by (simp add: drop write_ignore_def)
  have h2f: "fs_read h2 ip_forward = Some prev" "\<And>q. q \<noteq> ip_forward \<Longrightarrow> files h2 q = files h q"
    using h2 by (auto simp: fs_write_def fs_read_def split: if_splits option.splits)
  have new: "new = hd new # tl new" using s(7) by simp
  have ca: "masquerade ''-C'' cidr (nat_egress g) \<noteq> masquerade ''-A'' cidr (nat_egress g)" by (simp add: masquerade_def)
  have "(masquerade ''-A'' cidr (nat_egress g), Some True) \<in> set new \<longleftrightarrow> nat_rule_added g"
    using s(5,6) ca by (subst new) (cases "hd new", auto simp del: list.collapse)
  moreover have "map fst (drop (length (issued w1)) (issued (nat_drop env g w1)))
      = (if nat_rule_added g then [?d] else [])"
    by (simp add: drop write_ignore_def run_ignore_def run_def invoke_def Let_def split_def split: option.split)
  ultimately show ?thesis using host h h2f s(2,4) by simp
qed

text \<open>C28: When NAT was set up, dropping the guard undoes it: the forwarding switch reads what it
  read before, no other file has changed, and the MASQUERADE rule is deleted exactly when it was
  added; a rule that was already there is kept.\<close>

theorem nat_guard_roundtrip:
  assumes "nat_setup env cidr w = (Inr g, w1)" "fs_read (nhost w) ip_forward = Some prev"
  shows "fs_read (nhost w1) ip_forward = Some ''1''
    \<and> fs_read (nhost (nat_drop env g w1)) ip_forward = Some prev
    \<and> (\<forall>q. q \<noteq> ip_forward \<longrightarrow> files (nhost (nat_drop env g w1)) q = files (nhost w) q)
    \<and> ((masquerade ''-A'' cidr (nat_egress g), Some True) \<in> set (drop (length (issued w)) (issued w1))
        \<longleftrightarrow> nat_rule_added g)
    \<and> map fst (drop (length (issued w1)) (issued (nat_drop env g w1)))
        = (if nat_rule_added g then [masquerade ''-D'' cidr (nat_egress g)] else [])"
  by (rule nat_guard_undone [OF assms])

text \<open>A set-up that fails after it has switched forwarding on leaves it on: no guard exists
  that would restore it, and the server exits with the machine forwarding packets.\<close>

theorem nat_failure_leaves_forwarding:
  assumes "nat_setup env cidr w = (Inl e, w1)" "e \<noteq> EnableForward"
  shows "fs_read (nhost w1) ip_forward = Some ''1''"
proof -
  obtain h where h: "fs_write (nhost w) ip_forward ''1'' = Some h"
    using assms by (auto simp: nat_setup_def Let_def split: option.splits)
  then have "nhost w1 = h"
    using assms run_hostD run_status_hostD
    by (fastforce simp: nat_setup_def Let_def split: sum.splits prod.splits if_splits)
  then show ?thesis using fs_write_read [OF h] by simp
qed

section \<open>DNS\<close>

text \<open>C29: Installing the resolver configuration and restoring it is the identity on the machine's
  files: the original content comes back, from this run or from the backup a crashed run left, and
  the backup is gone. When the backup of a crashed run cannot be read the tunnel's content stays.\<close>

theorem dns_guard_roundtrip:
  assumes "dns_install servers h = (Inr g, h1)" "fs_read h RESOLV = Some c"
    and "\<not> denied h RESOLV" "\<not> denied h RESOLV_BACKUP"
  shows "fs_read h1 RESOLV = Some (resolv_body servers)
    \<and> fs_read (snd (dns_restore g h1)) RESOLV
        = Some (case files h RESOLV_BACKUP of None \<Rightarrow> c
            | Some b \<Rightarrow> if readable b then content b else resolv_body servers)
    \<and> \<not> fs_exists (snd (dns_restore g h1)) RESOLV_BACKUP
    \<and> (\<forall>q. q \<noteq> RESOLV \<longrightarrow> q \<noteq> RESOLV_BACKUP \<longrightarrow> files (snd (dns_restore g h1)) q = files h q)"
proof -
  have ne: "RESOLV \<noteq> RESOLV_BACKUP" by (simp add: RESOLV_def RESOLV_BACKUP_def)
  show ?thesis
    using assms ne
    by (cases "files h RESOLV_BACKUP")
      (auto simp: dns_install_def dns_restore_def fs_read_def fs_write_def fs_remove_def Let_def
        split: option.splits)
qed

text \<open>Two ways in which the machine keeps the tunnel's resolver for good: without a
  \<open>resolv.conf\<close> at the start nothing is backed up and nothing restored, and when the restoring
  write fails the backup, the only copy of the original, is deleted all the same.\<close>

theorem dns_restore_losses:
  "(files h RESOLV = None \<and> files h RESOLV_BACKUP = None \<and> dns_install servers h = (Inr g, h1) \<longrightarrow>
      fs_read (snd (dns_restore g h1)) RESOLV = Some (resolv_body servers))
   \<and> (denied h' RESOLV \<and> \<not> denied h' RESOLV_BACKUP \<and> fs_read h' RESOLV_BACKUP = Some b \<longrightarrow>
      fs_read (snd (dns_restore False h')) RESOLV = fs_read h' RESOLV
      \<and> fs_read (snd (dns_restore False h')) RESOLV_BACKUP = None)"
proof (intro conjI impI; elim conjE)
  have ne: "RESOLV \<noteq> RESOLV_BACKUP" by (simp add: RESOLV_def RESOLV_BACKUP_def)
  show "fs_read (snd (dns_restore g h1)) RESOLV = Some (resolv_body servers)"
    if "files h RESOLV = None" "files h RESOLV_BACKUP = None" "dns_install servers h = (Inr g, h1)"
    using that ne
    by (auto simp: dns_install_def dns_restore_def fs_read_def fs_write_def Let_def
        split: option.splits if_splits)
  assume d: "denied h' RESOLV" "\<not> denied h' RESOLV_BACKUP" "fs_read h' RESOLV_BACKUP = Some b"
  show "fs_read (snd (dns_restore False h')) RESOLV = fs_read h' RESOLV"
    "fs_read (snd (dns_restore False h')) RESOLV_BACKUP = None"
    using d ne
    by (auto simp: dns_restore_def fs_read_def fs_write_def fs_remove_def Let_def split: option.splits)
qed

section \<open>The default route\<close>

lemma scan_route_skip:
  assumes "''via'' \<notin> set xs" "''dev'' \<notin> set xs"
  shows "scan_route gw dev (xs @ ys) = scan_route gw dev ys"
  using assms
proof (induction xs)
  case (Cons x xs)
  then show ?case by (cases "xs @ ys") auto
qed simp

text \<open>With several default routes the last one printed wins. For any two lines in the
  output of \<open>ip route show default\<close>, the gateway and the device of the later line are taken,
  while \<open>ip\<close> lists the preferred route, the one with the lowest metric, first.\<close>

theorem default_route_takes_last:
  assumes "route_output env (kernel w) = Some (True, text)"
    and "split_whitespace text = [''default'', ''via'', show_ipv4 g1, ''dev'', d1] @ xs
      @ [''default'', ''via'', show_ipv4 g2, ''dev'', d2] @ ys"
    and "{''via'', ''dev''} \<inter> (set xs \<union> set ys) = {}"
  shows "default_route env w = Inr (g2, d2)"
proof -
  have xs: "''via'' \<notin> set (xs @ [''default''])" "''dev'' \<notin> set (xs @ [''default''])" using assms(3) by auto
  have ys: "''via'' \<notin> set ys" "''dev'' \<notin> set ys" using assms(3) by auto
  have "scan_route None None (split_whitespace text)
      = scan_route (Some g1) (Some d1) ((xs @ [''default'']) @ [''via'', show_ipv4 g2, ''dev'', d2] @ ys)"
    using assms(2) by (simp add: parse_show_ipv4)
  also have "\<dots> = scan_route (Some g1) (Some d1) ([''via'', show_ipv4 g2, ''dev'', d2] @ ys)"
    by (rule scan_route_skip [OF xs])
  also have "\<dots> = scan_route (Some g2) (Some d2) (ys @ [])"
    by (simp add: parse_show_ipv4)
  also have "\<dots> = (Some g2, Some d2)"
    using scan_route_skip [OF ys, of "Some g2" "Some d2" "[]"] by simp
  finally show ?thesis using assms(1) by (simp add: default_route_def)
qed

section \<open>The log grows\<close>

definition grows :: "'k net \<Rightarrow> 'k net \<Rightarrow> bool" where
  "grows w w' \<longleftrightarrow> (\<exists>new. issued w' = issued w @ new)"

lemma grows_refl [simp, intro]: "grows w w"
  by (simp add: grows_def)

lemma grows_trans: "grows w w' \<Longrightarrow> grows w' w'' \<Longrightarrow> grows w w''"
  by (auto simp: grows_def)

text \<open>What was run between two states.\<close>

definition since :: "'k net \<Rightarrow> 'k net \<Rightarrow> (string list \<times> bool option) list" where
  "since w w' = drop (length (issued w)) (issued w')"

lemma since_new: "issued w' = issued w @ new \<Longrightarrow> since w w' = new"
  by (simp add: since_def)

lemma since_refl [simp]: "since w w = []"
  by (simp add: since_def)

lemma since_trans: "grows w w' \<Longrightarrow> grows w' w'' \<Longrightarrow> since w w'' = since w w' @ since w' w''"
  by (auto simp: since_def grows_def)

lemma run_ignore_log:
  obtains o1 where "exec env (kernel w) c = (o1, kernel (run_ignore env c w))" "since w (run_ignore env c w) = [(c, o1)]"
    "issued (run_ignore env c w) = issued w @ [(c, o1)]"
  by (rule that [of "fst (exec env (kernel w) c)"])
    (simp_all add: run_ignore_def run_def invoke_def since_def Let_def split_def)

lemma grows_run: "run env c w = (r, w') \<Longrightarrow> grows w w'"
  by (auto simp: run_outcome grows_def Let_def split: prod.splits)

lemma grows_run_ignore: "grows w (run_ignore env c w)"
  unfolding run_ignore_def by (rule grows_run [of env c w "fst (run env c w)"]) simp

lemma grows_run_status: "run_status env c w = (r, w') \<Longrightarrow> grows w w'"
  by (auto simp: run_status_def invoke_def grows_def Let_def split: prod.splits)

lemma grows_run_each: "grows w (run_each env cs w)"
  by (induction cs arbitrary: w) (auto intro: grows_trans [OF grows_run_ignore])

lemma grows_run_all: "run_all env cs w = (r, w') \<Longrightarrow> grows w w'"
proof (induction cs arbitrary: w)
  case (Cons c cs)
  then show ?case
    by (auto split: prod.splits sum.splits intro: grows_trans dest: grows_run)
qed simp

lemma grows_ks_install: "ks_install env ip port tun w = (r, w') \<Longrightarrow> grows w w'"
  unfolding ks_install_def Let_def
  by (auto split: prod.splits sum.splits if_splits
      dest!: grows_run grows_run_all grows_run_status)
    (meson grows_trans grows_run_ignore)+

lemma grows_with_host: "with_host f w = (r, w') \<Longrightarrow> grows w w'"
  by (auto simp: with_host_def grows_def Let_def split: prod.splits)

lemma grows_ipv6_enable: "ipv6_enable env w = (r, w') \<Longrightarrow> grows w w'"
  by (auto simp: ipv6_enable_def simp del: run_all.simps split: prod.splits sum.splits dest!: grows_run_all)

lemma grows_install_extras: "install_extras env ip port opts st w = (st', w') \<Longrightarrow> grows w w'"
  unfolding install_extras_def Let_def
  by (auto split: prod.splits sum.splits if_splits
      dest!: grows_ipv6_enable grows_with_host grows_ks_install intro: grows_trans)

lemma grows_routes_drop: "grows w (routes_drop env st w)"
proof -
  have g1: "grows w (drop_opt (\<lambda>_. ks_drop env) x w)" for x :: "unit option" and w
    by (simp add: drop_opt_def ks_drop_def grows_run_each del: run_each.simps split: option.split)
  have g2: "grows w (drop_opt (ipv6_drop env) x w)" for x w
    by (simp add: drop_opt_def ipv6_drop_def grows_run_each del: run_each.simps split: option.split)
  have g3: "grows w (drop_opt (\<lambda>restored w. snd (with_host (dns_restore restored) w)) x w)" for x w
    by (auto simp: drop_opt_def with_host_def grows_def Let_def split: option.split prod.split)
  have g4: "grows w (if b then run_each env cs w else w)" for b cs w
    by (simp add: grows_run_each)
  have g5: "grows w (case (a, b, c) of (Some ip, Some gw, Some dev) \<Rightarrow> run_ignore env (host_route ''del'' ip gw dev) w | _ \<Rightarrow> w)" for a b c w
    by (auto simp: grows_run_ignore split: option.split)
  show ?thesis
    unfolding routes_drop_def teardown_all_def Let_def snd_conv
    by (rule grows_trans [OF grows_trans [OF grows_trans [OF grows_trans [OF g1 g2] g3] g4] g5])
qed

section \<open>The route to the server comes first\<close>

lemma full_tunnel_not_host:
  "c \<in> set (full_tunnel action tun) \<Longrightarrow> c \<noteq> host_route action' ip gw dev"
  by (auto simp: full_tunnel_def host_route_def)

lemma grows_first:
  assumes "run env c w = (r, w1)" "grows w1 w'"
  shows "\<exists>o1 new. issued w' = issued w @ (c, o1) # new \<and> (r = Inr () \<longleftrightarrow> o1 = Some True)"
  using assms by (auto simp: run_outcome grows_def Let_def split: prod.splits option.splits bool.splits)

text \<open>The state that is dropped when \<open>install\<close> fails early only knows the full tunnel.\<close>

definition early_state :: "client_routes \<Rightarrow> bool" where
  "early_state st \<longleftrightarrow> rt_kill_switch st = None \<and> rt_ipv6 st = None \<and> rt_dns st = None \<and> rt_server_host st = None"

lemma run_each_log: "\<exists>new. issued (run_each env cs w) = issued w @ new \<and> map fst new = cs"
proof (induction cs arbitrary: w)
  case (Cons c cs)
  obtain o1 k where "exec env (kernel w) c = (o1, k)" by force
  then have "issued (run_ignore env c w) = issued w @ [(c, o1)]"
    by (simp add: run_ignore_def run_def invoke_def)
  moreover obtain new where "issued (run_each env cs (run_ignore env c w)) = issued (run_ignore env c w) @ new" "map fst new = cs"
    using Cons by blast
  ultimately show ?case by (intro exI [of _ "(c, o1) # new"]) simp
qed simp

lemma early_drop_log:
  assumes "early_state st"
  shows "\<exists>new. issued (routes_drop env st w) = issued w @ new \<and> set (map fst new) \<subseteq> set (full_tunnel ''del'' (rt_tun_name st))"
proof -
  have "routes_drop env st w = (if rt_redirect_all st then run_each env (full_tunnel ''del'' (rt_tun_name st)) w else w)"
    using assms by (simp add: early_state_def routes_drop_def teardown_all_def drop_opt_def)
  moreover obtain new where new: "issued (run_each env (full_tunnel ''del'' (rt_tun_name st)) w) = issued w @ new"
    "map fst new = full_tunnel ''del'' (rt_tun_name st)"
    using run_each_log by blast
  moreover have "set (map fst new) \<subseteq> set (full_tunnel ''del'' (rt_tun_name st))" by (simp only: new(2))
  ultimately show ?thesis
    using new(1) by (cases "rt_redirect_all st") (auto simp del: set_map run_each.simps)
qed

text \<open>The paths of \<open>install\<close> over an IPv4 endpoint.\<close>

definition init_routes :: "string \<Rightarrow> route_opts \<Rightarrow> client_routes" where
  "init_routes tun opts = \<lparr>rt_server_host = None, rt_via_gateway = None, rt_via_dev = None,
     rt_redirect_all = ro_redirect_all opts, rt_tun_name = tun, rt_kill_switch = None, rt_ipv6 = None, rt_dns = None\<rparr>"

definition hosted_routes :: "string \<Rightarrow> route_opts \<Rightarrow> ipv4 \<Rightarrow> ipv4 \<Rightarrow> string \<Rightarrow> client_routes" where
  "hosted_routes tun opts ip gw dev =
     (init_routes tun opts)\<lparr>rt_server_host := Some ip, rt_via_gateway := Some gw, rt_via_dev := Some dev\<rparr>"

lemma routes_install_cases:
  assumes "routes_install env (V4 ip port) tun opts w = (r, w')"
  obtains (no_default) e where "default_route env w = Inl e" "r = Inl e" "w' = routes_drop env (init_routes tun opts) w"
  | (no_host) gw dev e w1 where "run env (host_route ''replace'' ip gw dev) w = (Inl e, w1)" "r = Inl e"
      "w' = routes_drop env (init_routes tun opts) w1"
  | (no_tunnel) gw dev e w1 w2 where "run env (host_route ''replace'' ip gw dev) w = (Inr (), w1)" "ro_redirect_all opts"
      "run_all env (full_tunnel ''replace'' tun) w1 = (Inl e, w2)" "r = Inl e"
      "w' = routes_drop env (hosted_routes tun opts ip gw dev) w2"
  | (installed) gw dev w1 w2 st where "run env (host_route ''replace'' ip gw dev) w = (Inr (), w1)"
      "if ro_redirect_all opts then run_all env (full_tunnel ''replace'' tun) w1 = (Inr (), w2) else w2 = w1"
      "install_extras env ip port opts (hosted_routes tun opts ip gw dev) w2 = (st, w')" "r = Inr st"
proof (cases "default_route env w")
  case (Inl e)
  then show thesis
    using assms by (intro no_default [of e]) (simp_all add: routes_install_def init_routes_def)
next
  case (Inr gd)
  obtain gw dev where gd: "gd = (gw, dev)" by force
  obtain r1 w1 where h: "run env (host_route ''replace'' ip gw dev) w = (r1, w1)" by force
  obtain r2 w2 where f: "run_all env (full_tunnel ''replace'' tun) w1 = (r2, w2)" by force
  define r3 w3 where "r3 = (if ro_redirect_all opts then r2 else Inr ())" and "w3 = (if ro_redirect_all opts then w2 else w1)"
  have full: "(if ro_redirect_all opts then run_all env (full_tunnel ''replace'' tun) w1 else (Inr (), w1)) = (r3, w3)"
    by (simp add: r3_def w3_def f)
  obtain st w4 where x: "install_extras env ip port opts (hosted_routes tun opts ip gw dev) w3 = (st, w4)" by force
  note unfold = routes_install_def Let_def init_routes_def [symmetric] hosted_routes_def [symmetric]
  have run: "(r, w') = (case r1 of Inl e \<Rightarrow> (Inl e, routes_drop env (init_routes tun opts) w1)
      | Inr _ \<Rightarrow> (case r3 of Inl e \<Rightarrow> (Inl e, routes_drop env (hosted_routes tun opts ip gw dev) w3) | Inr _ \<Rightarrow> (Inr st, w4)))"
    using assms by (simp add: unfold Inr gd h full x split: sum.splits)
  show thesis
  proof (cases r1)
    case (Inl e)
    then show thesis using run h by (intro no_host) simp_all
  next
    case r1: (Inr u)
    show thesis
    proof (cases r3)
      case (Inl e)
      then show thesis using run h r1 f by (intro no_tunnel) (auto simp: r3_def w3_def split: if_splits)
    next
      case (Inr u)
      then show thesis using run h r1 f x by (intro installed) (auto simp: r3_def w3_def split: if_splits)
    qed
  qed
qed

text \<open>C17: No routing loop. Over an IPv4 endpoint, whenever \<open>install\<close> points the default route
  into the tunnel the very first command it ran that changes anything was the route to the server
  outside the tunnel, and it succeeded; this holds on every path, failed installations included.
  The query of the default route, which only reads and is not in the log, comes before it.\<close>

theorem host_route_first:
  assumes "routes_install env (V4 ip port) tun opts w = (r, w')"
  shows "\<exists>new. issued w' = issued w @ new
    \<and> (set (map fst new) \<inter> set (full_tunnel ''replace'' tun) \<noteq> {} \<longrightarrow>
        (\<exists>gw dev. hd new = (host_route ''replace'' ip gw dev, Some True)))"
proof -
  have early: "early_state (init_routes tun opts)" "rt_tun_name (init_routes tun opts) = tun"
    by (simp_all add: early_state_def init_routes_def)
  have del: "set (full_tunnel ''del'' tun) \<inter> set (full_tunnel ''replace'' tun) = {}"
    by (simp add: full_tunnel_def)
  have late: ?thesis if "run env (host_route ''replace'' ip gw dev) w = (Inr (), w1)" "grows w1 w'" for gw dev w1
    using grows_first [OF that] by fastforce
  show ?thesis
    using assms
  proof (cases rule: routes_install_cases)
    case (no_default e)
    then show ?thesis using early_drop_log [OF early(1), of env w] del unfolding early(2) by fastforce
  next
    case (no_host gw dev e w1)
    obtain new where new: "issued w' = issued w1 @ new" "set (map fst new) \<subseteq> set (full_tunnel ''del'' tun)"
      using early_drop_log [OF early(1), of env w1] no_host(3) unfolding early(2) by blast
    obtain o1 where "issued w1 = issued w @ [(host_route ''replace'' ip gw dev, o1)]"
      using grows_first [OF no_host(1) grows_refl] no_host(1) by (auto simp: run_outcome Let_def split: prod.splits)
    moreover have "host_route ''replace'' ip gw dev \<notin> set (full_tunnel ''replace'' tun)"
      using full_tunnel_not_host by blast
    ultimately show ?thesis
      using new del by (intro exI [of _ "(host_route ''replace'' ip gw dev, o1) # new"]) auto
  next
    case (no_tunnel gw dev e w1 w2)
    then show ?thesis
      by (intro late [OF no_tunnel(1)]) (simp add: grows_trans [OF grows_run_all [OF no_tunnel(3)] grows_routes_drop])
  next
    case (installed gw dev w1 w2 st)
    then show ?thesis
      by (intro late [OF installed(1)])
        (auto split: if_splits dest!: grows_run_all grows_install_extras intro: grows_trans)
  qed
qed

section \<open>The firewall\<close>

text \<open>
  A view of the kernel's packet filter: the rules of the kill switch's chain, when it exists,
  and the number of jumps from OUTPUT to it. \<open>firewall_lawful\<close> is what the manual of
  \<open>iptables\<close> says of the commands the kill switch uses: one that fails, or could not be spawned,
  changes nothing; \<open>-N\<close> makes an empty chain and fails for an existing one; \<open>-F\<close> empties and \<open>-A\<close>
  extends an existing chain; \<open>-C\<close> changes nothing and succeeds only when the jump is there; \<open>-I\<close>
  adds and \<open>-D\<close> removes one jump; \<open>-X\<close> deletes only an empty chain that nothing refers to. No
  command is assumed to succeed.
\<close>

record 'k fw_view =
  chain :: "'k \<Rightarrow> string list list option"
  jumps :: "'k \<Rightarrow> nat"

definition ks_cmd :: "string list \<Rightarrow> string list" where
  "ks_cmd args = ''iptables'' # args"

definition firewall_lawful :: "'k net_env \<Rightarrow> 'k fw_view \<Rightarrow> bool" where
  "firewall_lawful env v \<longleftrightarrow>
     (\<forall>k args r k'. exec env k (''iptables'' # args) = (r, k') \<longrightarrow> r \<noteq> Some True \<longrightarrow>
        chain v k' = chain v k \<and> jumps v k' = jumps v k)
   \<and> (\<forall>k k'. exec env k (ks_cmd [''-N'', KS_CHAIN]) = (Some True, k') \<longrightarrow>
        jumps v k' = jumps v k \<and> chain v k = None \<and> chain v k' = Some [])
   \<and> (\<forall>k k'. exec env k (ks_cmd [''-F'', KS_CHAIN]) = (Some True, k') \<longrightarrow>
        jumps v k' = jumps v k \<and> chain v k \<noteq> None \<and> chain v k' = Some [])
   \<and> (\<forall>k rule k'. exec env k (ks_append rule) = (Some True, k') \<longrightarrow>
        jumps v k' = jumps v k \<and> (\<exists>rs. chain v k = Some rs \<and> chain v k' = Some (rs @ [rule])))
   \<and> (\<forall>k k'. exec env k (ks_cmd [''-C'', ''OUTPUT'', ''-j'', KS_CHAIN]) = (Some True, k') \<longrightarrow>
        jumps v k' = jumps v k \<and> chain v k' = chain v k \<and> 0 < jumps v k)
   \<and> (\<forall>k k'. exec env k (ks_cmd [''-I'', ''OUTPUT'', ''1'', ''-j'', KS_CHAIN]) = (Some True, k') \<longrightarrow>
        chain v k' = chain v k \<and> jumps v k' = Suc (jumps v k))
   \<and> (\<forall>k k'. exec env k (ks_cmd [''-D'', ''OUTPUT'', ''-j'', KS_CHAIN]) = (Some True, k') \<longrightarrow>
        chain v k' = chain v k \<and> 0 < jumps v k \<and> jumps v k' = jumps v k - 1)
   \<and> (\<forall>k k'. exec env k (ks_cmd [''-X'', KS_CHAIN]) = (Some True, k') \<longrightarrow>
        chain v k = Some [] \<and> jumps v k = 0 \<and> chain v k' = None \<and> jumps v k' = 0)"

text \<open>A packet that leaves the machine, and how a rule of the chain looks at it.\<close>

record out_packet =
  op_iface :: string
  op_dst :: ipv4
  op_proto :: string
  op_dport :: u16
  op_established :: bool

datatype verdict = Returned | Rejected

fun rule_matches :: "string list \<Rightarrow> out_packet \<Rightarrow> bool" where
  "rule_matches (opt # x # rest) p =
     (if opt = ''-o'' then op_iface p = x \<and> rule_matches rest p
      else if opt = ''-d'' then show_ipv4 (op_dst p) = x \<and> rule_matches rest p
      else if opt = ''-p'' then op_proto p = x \<and> rule_matches rest p
      else if opt = ''--dport'' then show_nat (unat (op_dport p)) = x \<and> rule_matches rest p
      else if opt = ''--ctstate'' \<or> opt = ''--state'' then op_established p \<and> rule_matches rest p
      else if opt = ''-m'' then rule_matches rest p
      else opt = ''-j'')"
| "rule_matches _ p = False"

fun rule_target :: "string list \<Rightarrow> string" where
  "rule_target (opt # x # rest) = (if opt = ''-j'' then x else rule_target rest)"
| "rule_target _ = []"

fun chain_verdict :: "string list list \<Rightarrow> out_packet \<Rightarrow> verdict" where
  "chain_verdict [] p = Returned"
| "chain_verdict (r # rs) p =
     (if rule_matches r p then (if rule_target r = ''REJECT'' then Rejected else Returned)
      else chain_verdict rs p)"

lemma chain_verdict_prefix:
  "chain_verdict (rs @ rs') p = Returned \<Longrightarrow> (\<exists>r \<in> set rs. rule_matches r p) \<or> chain_verdict rs' p = Returned"
  by (induction rs) (auto split: if_splits)

lemma show_nat_inj: "show_nat a = show_nat b \<longleftrightarrow> a = b"
proof
  assume e: "show_nat a = show_nat b"
  have "Some a = parse_unsigned 10 (max a b) (show_nat a)" by (rule parse_unsigned_show [symmetric]) simp_all
  also have "\<dots> = Some b" unfolding e by (rule parse_unsigned_show) simp_all
  finally show "a = b" by simp
qed simp

lemma chain_verdict_ks:
  assumes "ct \<in> {[], [ks_conntrack], [ks_state]}"
  shows "chain_verdict (ks_allow ip port tun @ ct @ [ks_reject]) p = Rejected \<longleftrightarrow>
    op_iface p \<noteq> ''lo'' \<and> op_iface p \<noteq> tun
    \<and> \<not> (op_dst p = ip \<and> op_proto p = ''udp'' \<and> op_dport p = port)
    \<and> \<not> (ct \<noteq> [] \<and> op_established p)"
  using assms
  by (auto simp: ks_allow_def ks_conntrack_def ks_state_def ks_reject_def show_nat_inj word_unat_eq_iff)

lemma ks_cmds:
  "[''iptables'', ''-N'', KS_CHAIN] = ks_cmd [''-N'', KS_CHAIN]"
  "[''iptables'', ''-F'', KS_CHAIN] = ks_cmd [''-F'', KS_CHAIN]"
  "[''iptables'', ''-X'', KS_CHAIN] = ks_cmd [''-X'', KS_CHAIN]"
  "[''iptables'', ''-C'', ''OUTPUT'', ''-j'', KS_CHAIN] = ks_cmd [''-C'', ''OUTPUT'', ''-j'', KS_CHAIN]"
  "[''iptables'', ''-D'', ''OUTPUT'', ''-j'', KS_CHAIN] = ks_cmd [''-D'', ''OUTPUT'', ''-j'', KS_CHAIN]"
  "[''iptables'', ''-I'', ''OUTPUT'', ''1'', ''-j'', KS_CHAIN] = ks_cmd [''-I'', ''OUTPUT'', ''1'', ''-j'', KS_CHAIN]"
  by (simp_all add: ks_cmd_def)

lemma run_exec: "run env c w = (r, w') \<Longrightarrow> \<exists>o1. exec env (kernel w) c = (o1, kernel w') \<and> (r = Inr () \<longleftrightarrow> o1 = Some True)"
  by (auto simp: run_outcome Let_def split: prod.splits option.splits bool.splits)

lemma run_ignore_exec: "\<exists>o1. exec env (kernel w) c = (o1, kernel (run_ignore env c w))"
  by (rule exI [of _ "fst (exec env (kernel w) c)"])
    (simp add: run_ignore_def run_def invoke_def Let_def split_def)

text \<open>The laws, one command each.\<close>

lemma fw_failed:
  assumes "firewall_lawful env v" "exec env k (''iptables'' # args) = (r, k')" "r \<noteq> Some True"
  shows "chain v k' = chain v k" "jumps v k' = jumps v k"
  using conjunct1 [OF assms(1) [unfolded firewall_lawful_def]] assms(2,3) by blast+

lemma fw_new:
  assumes "firewall_lawful env v" "exec env k (ks_cmd [''-N'', KS_CHAIN]) = (r, k')"
  shows "jumps v k' = jumps v k" "chain v k' = chain v k \<or> chain v k = None \<and> chain v k' = Some []"
proof -
  have "jumps v k' = jumps v k \<and> (chain v k' = chain v k \<or> chain v k = None \<and> chain v k' = Some [])"
  proof (cases "r = Some True")
    case True
    then show ?thesis using assms unfolding firewall_lawful_def by blast
  qed (use fw_failed [OF assms(1) assms(2) [unfolded ks_cmd_def]] in simp)
  then show "jumps v k' = jumps v k" "chain v k' = chain v k \<or> chain v k = None \<and> chain v k' = Some []" by simp_all
qed

lemma fw_flush:
  assumes "firewall_lawful env v" "exec env k (ks_cmd [''-F'', KS_CHAIN]) = (r, k')"
  shows "jumps v k' = jumps v k" "chain v k' = (if r = Some True then Some [] else chain v k)"
proof -
  have "jumps v k' = jumps v k \<and> chain v k' = (if r = Some True then Some [] else chain v k)"
  proof (cases "r = Some True")
    case True
    then show ?thesis using assms unfolding firewall_lawful_def by simp
  qed (use fw_failed [OF assms(1) assms(2) [unfolded ks_cmd_def]] in simp)
  then show "jumps v k' = jumps v k" "chain v k' = (if r = Some True then Some [] else chain v k)" by simp_all
qed

lemma fw_unjump:
  assumes "firewall_lawful env v" "exec env k (ks_cmd [''-D'', ''OUTPUT'', ''-j'', KS_CHAIN]) = (r, k')"
  shows "chain v k' = chain v k" "jumps v k' = jumps v k - (if r = Some True then 1 else 0)"
proof -
  have "chain v k' = chain v k \<and> jumps v k' = jumps v k - (if r = Some True then 1 else 0)"
  proof (cases "r = Some True")
    case True
    then show ?thesis using assms unfolding firewall_lawful_def by simp
  qed (use fw_failed [OF assms(1) assms(2) [unfolded ks_cmd_def]] in simp)
  then show "chain v k' = chain v k" "jumps v k' = jumps v k - (if r = Some True then 1 else 0)" by simp_all
qed

lemma fw_delete:
  assumes "firewall_lawful env v" "exec env k (ks_cmd [''-X'', KS_CHAIN]) = (r, k')"
  shows "jumps v k' = jumps v k" "chain v k' = (if r = Some True then None else chain v k)"
    "r = Some True \<Longrightarrow> jumps v k' = 0"
proof -
  have "jumps v k' = jumps v k \<and> chain v k' = (if r = Some True then None else chain v k)
      \<and> (r = Some True \<longrightarrow> jumps v k' = 0)"
  proof (cases "r = Some True")
    case True
    then show ?thesis using assms unfolding firewall_lawful_def by simp
  qed (use fw_failed [OF assms(1) assms(2) [unfolded ks_cmd_def]] in simp)
  then show "jumps v k' = jumps v k" "chain v k' = (if r = Some True then None else chain v k)"
    "r = Some True \<Longrightarrow> jumps v k' = 0" by simp_all
qed

lemma fw_append:
  assumes "firewall_lawful env v" "run env (ks_append rule) w = (r, w')"
  shows "jumps v (kernel w') = jumps v (kernel w)"
    "r = Inr () \<Longrightarrow> \<exists>rs. chain v (kernel w) = Some rs \<and> chain v (kernel w') = Some (rs @ [rule])"
    "r \<noteq> Inr () \<Longrightarrow> chain v (kernel w') = chain v (kernel w)"
proof -
  obtain o1 where o1: "exec env (kernel w) (ks_append rule) = (o1, kernel w')" "r = Inr () \<longleftrightarrow> o1 = Some True"
    using run_exec [OF assms(2)] by blast
  have ok: "jumps v k' = jumps v k \<and> (\<exists>rs. chain v k = Some rs \<and> chain v k' = Some (rs @ [rule]))"
    if "exec env k (ks_append rule) = (Some True, k')" for k k'
    using assms(1) that unfolding firewall_lawful_def by blast
  have app: "ks_append rule = ''iptables'' # ([''-A'', KS_CHAIN] @ rule)" by (simp add: ks_append_def)
  note bad = fw_failed [OF assms(1) o1(1) [unfolded app]]
  show "jumps v (kernel w') = jumps v (kernel w)"
    "r = Inr () \<Longrightarrow> \<exists>rs. chain v (kernel w) = Some rs \<and> chain v (kernel w') = Some (rs @ [rule])"
    "r \<noteq> Inr () \<Longrightarrow> chain v (kernel w') = chain v (kernel w)"
    using ok o1 bad by (cases "o1 = Some True"; auto)+
qed

lemma fw_append_all:
  assumes "firewall_lawful env v" "run_all env (map ks_append rules) w = (Inr (), w')" "chain v (kernel w) = Some rs \<or> rules \<noteq> []"
  shows "\<exists>rs. chain v (kernel w) = Some rs \<and> chain v (kernel w') = Some (rs @ rules)"
    and "jumps v (kernel w') = jumps v (kernel w)"
proof -
  have "(rules = [] \<or> (\<exists>rs. chain v (kernel w) = Some rs \<and> chain v (kernel w') = Some (rs @ rules)))
      \<and> (rules = [] \<longrightarrow> w' = w) \<and> jumps v (kernel w') = jumps v (kernel w)"
    using assms(2)
  proof (induction rules arbitrary: w)
    case (Cons rule rules)
    obtain r w1 where r: "run env (ks_append rule) w = (r, w1)" by force
    then have ok: "r = Inr ()" "run_all env (map ks_append rules) w1 = (Inr (), w')"
      using Cons.prems by (auto split: sum.splits)
    obtain rs where "chain v (kernel w) = Some rs" "chain v (kernel w1) = Some (rs @ [rule])"
      using fw_append(2) [OF assms(1) r ok(1)] by blast
    then show ?case using Cons.IH [OF ok(2)] fw_append(1) [OF assms(1) r] by auto
  qed simp
  then show "\<exists>rs. chain v (kernel w) = Some rs \<and> chain v (kernel w') = Some (rs @ rules)"
    and "jumps v (kernel w') = jumps v (kernel w)"
    using assms(3) by auto
qed

lemma fw_check:
  assumes "firewall_lawful env v" "run_status env (ks_cmd [''-C'', ''OUTPUT'', ''-j'', KS_CHAIN]) w = (r, w')"
  shows "jumps v (kernel w') = jumps v (kernel w)" "chain v (kernel w') = chain v (kernel w)"
    "r = Inr True \<Longrightarrow> 0 < jumps v (kernel w)"
proof -
  obtain o1 where o1: "exec env (kernel w) (ks_cmd [''-C'', ''OUTPUT'', ''-j'', KS_CHAIN]) = (o1, kernel w')"
    "r = Inr True \<longleftrightarrow> o1 = Some True"
    using assms(2) by (auto simp: run_status_def invoke_def Let_def split: prod.splits option.splits)
  have ok: "jumps v k' = jumps v k \<and> chain v k' = chain v k \<and> 0 < jumps v k"
    if "exec env k (ks_cmd [''-C'', ''OUTPUT'', ''-j'', KS_CHAIN]) = (Some True, k')" for k k'
    using assms(1) that unfolding firewall_lawful_def by blast
  note bad = fw_failed [OF assms(1) o1(1) [unfolded ks_cmd_def]]
  show "jumps v (kernel w') = jumps v (kernel w)" "chain v (kernel w') = chain v (kernel w)"
    "r = Inr True \<Longrightarrow> 0 < jumps v (kernel w)"
    using ok [of "kernel w" "kernel w'"] o1 bad by (cases "o1 = Some True"; simp)+
qed

lemma fw_jump:
  assumes "firewall_lawful env v" "run env (ks_cmd [''-I'', ''OUTPUT'', ''1'', ''-j'', KS_CHAIN]) w = (Inr (), w')"
  shows "chain v (kernel w') = chain v (kernel w)" "jumps v (kernel w') = Suc (jumps v (kernel w))"
proof -
  have "exec env (kernel w) (ks_cmd [''-I'', ''OUTPUT'', ''1'', ''-j'', KS_CHAIN]) = (Some True, kernel w')"
    using run_exec [OF assms(2)] by auto
  moreover have "\<And>k k'. exec env k (ks_cmd [''-I'', ''OUTPUT'', ''1'', ''-j'', KS_CHAIN]) = (Some True, k') \<Longrightarrow>
        chain v k' = chain v k \<and> jumps v k' = Suc (jumps v k)"
    using assms(1) unfolding firewall_lawful_def by blast
  ultimately show "chain v (kernel w') = chain v (kernel w)" "jumps v (kernel w') = Suc (jumps v (kernel w))"
    by blast+
qed

text \<open>What dropping the kill switch runs and leaves, outcome by outcome.\<close>

definition ks_drop_cmds :: "string list list" where
  "ks_drop_cmds = [ks_cmd [''-D'', ''OUTPUT'', ''-j'', KS_CHAIN], ks_cmd [''-F'', KS_CHAIN], ks_cmd [''-X'', KS_CHAIN]]"

lemma ks_drop_each: "ks_drop env w = run_each env ks_drop_cmds w"
  by (simp only: ks_drop_def ks_drop_cmds_def ks_cmds)

lemma fw_drop:
  assumes law: "firewall_lawful env v"
  shows "\<exists>d f x. since w (ks_drop env w) = zip ks_drop_cmds [d, f, x]
    \<and> jumps v (kernel (ks_drop env w)) = jumps v (kernel w) - (if d = Some True then 1 else 0)
    \<and> chain v (kernel (ks_drop env w))
        = (if x = Some True then None else if f = Some True then Some [] else chain v (kernel w))
    \<and> (x = Some True \<longrightarrow> jumps v (kernel (ks_drop env w)) = 0)"
proof -
  let ?w1 = "run_ignore env (ks_cmd [''-D'', ''OUTPUT'', ''-j'', KS_CHAIN]) w"
  let ?w2 = "run_ignore env (ks_cmd [''-F'', KS_CHAIN]) ?w1"
  let ?w3 = "run_ignore env (ks_cmd [''-X'', KS_CHAIN]) ?w2"
  have w3: "ks_drop env w = ?w3" by (simp add: ks_drop_each ks_drop_cmds_def)
  obtain d where d: "exec env (kernel w) (ks_cmd [''-D'', ''OUTPUT'', ''-j'', KS_CHAIN]) = (d, kernel ?w1)"
    "issued ?w1 = issued w @ [(ks_cmd [''-D'', ''OUTPUT'', ''-j'', KS_CHAIN], d)]" by (rule run_ignore_log)
  obtain f where f: "exec env (kernel ?w1) (ks_cmd [''-F'', KS_CHAIN]) = (f, kernel ?w2)"
    "issued ?w2 = issued ?w1 @ [(ks_cmd [''-F'', KS_CHAIN], f)]" by (rule run_ignore_log)
  obtain x where x: "exec env (kernel ?w2) (ks_cmd [''-X'', KS_CHAIN]) = (x, kernel ?w3)"
    "issued ?w3 = issued ?w2 @ [(ks_cmd [''-X'', KS_CHAIN], x)]" by (rule run_ignore_log)
  have "since w ?w3 = zip ks_drop_cmds [d, f, x]"
    by (rule since_new) (simp add: d(2) f(2) x(2) ks_drop_cmds_def)
  then show ?thesis
    using fw_unjump [OF law d(1)] fw_flush [OF law f(1)] fw_delete [OF law x(1)] unfolding w3
    by (intro exI [of _ d] exI [of _ f] exI [of _ x]) simp
qed

lemma ks_install_rules:
  assumes law: "firewall_lawful env v" and inst: "ks_install env ip port tun w = (Inr (), w')"
  obtains stale ct o0 o1 rest where "ct \<in> {[], [ks_conntrack], [ks_state]}"
    "chain v (kernel w') = Some (stale @ ks_allow ip port tun @ ct @ [ks_reject])" "0 < jumps v (kernel w')"
    "since w w' = (ks_cmd [''-N'', KS_CHAIN], o0) # (ks_cmd [''-F'', KS_CHAIN], o1) # rest"
    "stale = [] \<or> o1 \<noteq> Some True \<and> chain v (kernel w) = Some stale"
proof -
  let ?w1 = "run_ignore env (ks_cmd [''-N'', KS_CHAIN]) w"
  let ?w2 = "run_ignore env (ks_cmd [''-F'', KS_CHAIN]) ?w1"
  obtain o0 where N: "exec env (kernel w) (ks_cmd [''-N'', KS_CHAIN]) = (o0, kernel ?w1)"
    "issued ?w1 = issued w @ [(ks_cmd [''-N'', KS_CHAIN], o0)]" by (rule run_ignore_log)
  obtain o1 where F: "exec env (kernel ?w1) (ks_cmd [''-F'', KS_CHAIN]) = (o1, kernel ?w2)"
    "issued ?w2 = issued ?w1 @ [(ks_cmd [''-F'', KS_CHAIN], o1)]" by (rule run_ignore_log)
  obtain ra w3 where a: "run_all env (map ks_append (ks_allow ip port tun)) ?w2 = (ra, w3)" by force
  note inst = inst [unfolded ks_install_def Let_def ks_cmds]
  have ra: "ra = Inr ()" using inst a by (auto split: sum.splits prod.splits)
  obtain rc w4 where c: "run env (ks_append ks_conntrack) w3 = (rc, w4)" by force
  define w5 where "w5 = (if rc = Inr () then w4 else run_ignore env (ks_append ks_state) w4)"
  have w5: "w5 = (case rc of Inr _ \<Rightarrow> w4 | Inl _ \<Rightarrow> run_ignore env (ks_append ks_state) w4)"
    by (simp add: w5_def split: sum.split)
  obtain rj w6 where j: "run env (ks_append ks_reject) w5 = (rj, w6)" by force
  have rj: "rj = Inr ()" using inst a ra c j w5 by (auto split: sum.splits prod.splits)
  obtain rs w7 where s: "run_status env (ks_cmd [''-C'', ''OUTPUT'', ''-j'', KS_CHAIN]) w6 = (rs, w7)" by force
  have last: "(if rs = Inr True then (Inr (), w7) else run env (ks_cmd [''-I'', ''OUTPUT'', ''1'', ''-j'', KS_CHAIN]) w7) = (Inr (), w')"
    using inst a ra c j w5 rj s by (simp split: prod.splits)
  obtain stale where A: "chain v (kernel ?w2) = Some stale" "chain v (kernel w3) = Some (stale @ ks_allow ip port tun)"
    using fw_append_all(1) [OF law a [unfolded ra]] by (auto simp: ks_allow_def)
  have "\<exists>ct \<in> {[], [ks_conntrack], [ks_state]}. chain v (kernel w5) = Some (stale @ ks_allow ip port tun @ ct)"
  proof -
    obtain r5 where r5: "run env (ks_append ks_state) w4 = (r5, run_ignore env (ks_append ks_state) w4)"
      by (metis run_ignore_def prod.collapse)
    show ?thesis
      using fw_append(2,3) [OF law c] fw_append(2,3) [OF law r5] A(2) by (fastforce simp: w5_def)
  qed
  then obtain ct where ct: "ct \<in> {[], [ks_conntrack], [ks_state]}"
    "chain v (kernel w5) = Some (stale @ ks_allow ip port tun @ ct)" by blast
  have J: "chain v (kernel w6) = Some (stale @ ks_allow ip port tun @ ct @ [ks_reject])"
    using fw_append(2) [OF law j rj] ct(2) by auto
  note S = fw_check [OF law s]
  have I: "chain v (kernel w') = chain v (kernel w7)" "0 < jumps v (kernel w')"
    using last S fw_jump [OF law, of w7 w'] by (auto split: if_splits)
  have "grows w4 w5" by (simp add: w5_def grows_run_ignore)
  moreover have "grows w7 w'" using last by (auto split: if_splits dest: grows_run)
  ultimately have "grows ?w2 w'"
    using grows_trans grows_run_all [OF a] grows_run [OF c] grows_run [OF j] grows_run_status [OF s] by blast
  then obtain rest where "since w w' = (ks_cmd [''-N'', KS_CHAIN], o0) # (ks_cmd [''-F'', KS_CHAIN], o1) # rest"
    using N(2) F(2) by (auto simp: grows_def since_def)
  moreover have "stale = [] \<or> o1 \<noteq> Some True \<and> chain v (kernel w) = Some stale"
    using fw_new(2) [OF law N(1)] fw_flush(2) [OF law F(1)] A(1) by (auto split: if_splits)
  ultimately show thesis using that [OF ct(1)] I S(2) J by simp
qed

text \<open>C13: A kill switch that reports success blocks clearnet. The chain then ends with the code's rules,
  OUTPUT jumps to it, and a packet leaves unhindered only through the loopback or the tunnel device,
  over UDP to the server's address and port, as part of an established connection, or by a rule
  that an earlier run had left in the chain. Such rules stay only when the flush at the start did
  not succeed, whose failure the code ignores. Dropping the kill switch runs its three commands, and
  exactly what their outcomes say remains: when the deletion of the chain succeeds, neither the
  chain nor a jump to it is left.\<close>

theorem kill_switch_fails_closed:
  assumes law: "firewall_lawful env v" and inst: "ks_install env ip port tun w = (Inr (), w')"
  shows "\<exists>stale rules flushed.
      (\<exists>ct \<in> {[], [ks_conntrack], [ks_state]}. rules = ks_allow ip port tun @ ct @ [ks_reject])
    \<and> chain v (kernel w') = Some (stale @ rules) \<and> 0 < jumps v (kernel w')
    \<and> fst (since w w' ! 1) = ks_cmd [''-F'', KS_CHAIN] \<and> snd (since w w' ! 1) = flushed
    \<and> (stale = [] \<or> flushed \<noteq> Some True \<and> chain v (kernel w) = Some stale)
    \<and> (\<forall>p. chain_verdict (stale @ rules) p = Returned \<longrightarrow> op_iface p = ''lo'' \<or> op_iface p = tun
          \<or> op_dst p = ip \<and> op_proto p = ''udp'' \<and> op_dport p = port \<or> op_established p
          \<or> (\<exists>r \<in> set stale. rule_matches r p))
    \<and> (\<exists>d f x. since w' (ks_drop env w') = zip ks_drop_cmds [d, f, x]
        \<and> jumps v (kernel (ks_drop env w')) = jumps v (kernel w') - (if d = Some True then 1 else 0)
        \<and> chain v (kernel (ks_drop env w'))
            = (if x = Some True then None else if f = Some True then Some [] else Some (stale @ rules))
        \<and> (x = Some True \<longrightarrow> jumps v (kernel (ks_drop env w')) = 0))"
proof -
  obtain stale ct o0 o1 rest where ct: "ct \<in> {[], [ks_conntrack], [ks_state]}"
    "chain v (kernel w') = Some (stale @ ks_allow ip port tun @ ct @ [ks_reject])" "0 < jumps v (kernel w')"
    "since w w' = (ks_cmd [''-N'', KS_CHAIN], o0) # (ks_cmd [''-F'', KS_CHAIN], o1) # rest"
    "stale = [] \<or> o1 \<noteq> Some True \<and> chain v (kernel w) = Some stale"
    by (rule ks_install_rules [OF law inst])
  let ?rules = "ks_allow ip port tun @ ct @ [ks_reject]"
  have verdict: "op_iface p = ''lo'' \<or> op_iface p = tun
      \<or> op_dst p = ip \<and> op_proto p = ''udp'' \<and> op_dport p = port \<or> op_established p
      \<or> (\<exists>r \<in> set stale. rule_matches r p)"
    if "chain_verdict (stale @ ?rules) p = Returned" for p
    using chain_verdict_prefix [OF that] chain_verdict_ks [OF ct(1), of ip port tun p] by auto
  have log: "fst (since w w' ! 1) = ks_cmd [''-F'', KS_CHAIN]" "snd (since w w' ! 1) = o1"
    by (simp_all add: ct(4))
  have code: "\<exists>ct \<in> {[], [ks_conntrack], [ks_state]}. ?rules = ks_allow ip port tun @ ct @ [ks_reject]"
    using ct(1) by blast
  show ?thesis
    by (rule exI [of _ stale], rule exI [of _ ?rules], rule exI [of _ o1])
      (intro conjI allI impI code ct(2,3,5) log verdict fw_drop [OF law, of w', unfolded ct(2)])
qed

section \<open>The routing table\<close>

text \<open>
  A view of the kernel's routing tables: a route is the family's command with the arguments that
  describe it. \<open>routing_lawful\<close> says what \<open>ip\<close> does to them. A command that fails, or could not be
  spawned, changes nothing. A replace that succeeds sets the route and removes at most routes of the
  same destination; a delete that succeeds removes the route it names, and only that one when it was
  there. \<open>iptables\<close> leaves routes alone. No command is assumed to succeed.
\<close>

definition families :: "string list set" where
  "families = {[''ip'', ''route''], [''ip'', ''-6'', ''route'']}"

text \<open>The destination of a route with its family: what comes after the optional type.\<close>

definition route_dst :: "string list \<Rightarrow> bool \<times> string list" where
  "route_dst r = (''-6'' \<in> set r, take 1 (dropWhile (\<lambda>t. t \<in> {''ip'', ''-6'', ''route'', ''unicast'', ''blackhole'',
     ''unreachable'', ''prohibit'', ''throw'', ''local'', ''broadcast'', ''multicast''}) r))"

definition routing_lawful :: "'k net_env \<Rightarrow> ('k \<Rightarrow> string list set) \<Rightarrow> bool" where
  "routing_lawful env R \<longleftrightarrow>
     (\<forall>k args r k'. exec env k args = (r, k') \<longrightarrow> r \<noteq> Some True \<longrightarrow> R k' = R k)
   \<and> (\<forall>k args r k'. exec env k (''iptables'' # args) = (r, k') \<longrightarrow> R k' = R k)
   \<and> (\<forall>pre \<in> families. \<forall>k spec k'. exec env k (pre @ ''replace'' # spec) = (Some True, k') \<longrightarrow>
        pre @ spec \<in> R k' \<and> R k' \<subseteq> insert (pre @ spec) (R k)
      \<and> (\<forall>x \<in> R k. x \<notin> R k' \<longrightarrow> route_dst x = route_dst (pre @ spec)))
   \<and> (\<forall>pre \<in> families. \<forall>k spec k'. exec env k (pre @ ''del'' # spec) = (Some True, k') \<longrightarrow>
        pre @ spec \<notin> R k' \<and> R k' \<subseteq> R k \<and> (pre @ spec \<in> R k \<longrightarrow> R k' = R k - {pre @ spec}))"

text \<open>
  The routes whose delete command is in a log and did not succeed: all a clean-up can leave of
  what it wanted to remove.
\<close>

definition deletes :: "string list \<Rightarrow> string list option" where
  "deletes c =
     (if take 3 c = [''ip'', ''route'', ''del''] then Some (take 2 c @ drop 3 c)
      else if take 4 c = [''ip'', ''-6'', ''route'', ''del''] then Some (take 3 c @ drop 4 c)
      else None)"

primrec undeleted :: "(string list \<times> bool option) list \<Rightarrow> string list set" where
  "undeleted [] = {}"
| "undeleted (e # log) =
     (case deletes (fst e) of
        None \<Rightarrow> {}
      | Some x \<Rightarrow> if snd e = Some True then {} else {x}) \<union> undeleted log"

lemma undeleted_append [simp]: "undeleted (xs @ ys) = undeleted xs \<union> undeleted ys"
  by (induction xs) auto

lemma deletes_del [simp]: "pre \<in> families \<Longrightarrow> deletes (pre @ ''del'' # spec) = Some (pre @ spec)"
  by (auto simp: families_def deletes_def)

definition tun_routes :: "string \<Rightarrow> string list set" where
  "tun_routes tun = {[''ip'', ''route'', ''0.0.0.0/1'', ''dev'', tun], [''ip'', ''route'', ''128.0.0.0/1'', ''dev'', tun]}"

definition v6_low :: "string list" where
  "v6_low = [''ip'', ''-6'', ''route'', ''blackhole'', ''::/1'']"

definition v6_high :: "string list" where
  "v6_high = [''ip'', ''-6'', ''route'', ''blackhole'', ''8000::/1'']"

definition server_route :: "ipv4 \<Rightarrow> ipv4 \<Rightarrow> string \<Rightarrow> string list" where
  "server_route ip gw dev = [''ip'', ''route'', show_ipv4 ip, ''via'', show_ipv4 gw, ''dev'', dev]"

text \<open>The laws at one command.\<close>

lemma rt_failed:
  assumes "routing_lawful env R" "exec env k args = (r, k')" "r \<noteq> Some True"
  shows "R k' = R k"
  by (rule conjunct1 [OF assms(1) [unfolded routing_lawful_def], rule_format, OF assms(2,3)])

lemma rt_replaced:
  assumes "routing_lawful env R" "pre \<in> families" "exec env k (pre @ ''replace'' # spec) = (Some True, k')"
  shows "pre @ spec \<in> R k'" "R k' \<subseteq> insert (pre @ spec) (R k)"
    "x \<in> R k \<Longrightarrow> x \<notin> R k' \<Longrightarrow> route_dst x = route_dst (pre @ spec)"
  using conjunct1 [OF conjunct2 [OF conjunct2 [OF assms(1) [unfolded routing_lawful_def]]], rule_format, OF assms(2,3)]
  by blast+

lemma rt_deleted:
  assumes "routing_lawful env R" "pre \<in> families" "exec env k (pre @ ''del'' # spec) = (Some True, k')"
  shows "pre @ spec \<notin> R k'" "R k' \<subseteq> R k" "pre @ spec \<in> R k \<Longrightarrow> R k' = R k - {pre @ spec}"
  using conjunct2 [OF conjunct2 [OF conjunct2 [OF assms(1) [unfolded routing_lawful_def]]], rule_format, OF assms(2,3)]
  by blast+

lemma rt_replace:
  assumes "routing_lawful env R" "pre \<in> families" "run env (pre @ ''replace'' # spec) w = (r, w')"
  shows "R (kernel w') \<subseteq> insert (pre @ spec) (R (kernel w))" "r = Inr () \<Longrightarrow> pre @ spec \<in> R (kernel w')"
    "r \<noteq> Inr () \<Longrightarrow> R (kernel w') = R (kernel w)"
    "x \<in> R (kernel w) \<Longrightarrow> x \<notin> R (kernel w') \<Longrightarrow> route_dst x = route_dst (pre @ spec)"
proof -
  obtain o1 where o1: "exec env (kernel w) (pre @ ''replace'' # spec) = (o1, kernel w')" "r = Inr () \<longleftrightarrow> o1 = Some True"
    using run_exec [OF assms(3)] by blast
  have "R (kernel w') \<subseteq> insert (pre @ spec) (R (kernel w)) \<and> (r = Inr () \<longrightarrow> pre @ spec \<in> R (kernel w'))
      \<and> (r \<noteq> Inr () \<longrightarrow> R (kernel w') = R (kernel w))
      \<and> (x \<in> R (kernel w) \<longrightarrow> x \<notin> R (kernel w') \<longrightarrow> route_dst x = route_dst (pre @ spec))"
  proof (cases "o1 = Some True")
    case True
    note ok = rt_replaced [OF assms(1,2) o1(1) [unfolded True]]
    show ?thesis using ok o1(2) True by simp
  next
    case False
    then show ?thesis using rt_failed [OF assms(1) o1(1)] o1(2) by auto
  qed
  then show "R (kernel w') \<subseteq> insert (pre @ spec) (R (kernel w))" "r = Inr () \<Longrightarrow> pre @ spec \<in> R (kernel w')"
    "r \<noteq> Inr () \<Longrightarrow> R (kernel w') = R (kernel w)"
    "x \<in> R (kernel w) \<Longrightarrow> x \<notin> R (kernel w') \<Longrightarrow> route_dst x = route_dst (pre @ spec)"
    by blast+
qed

text \<open>
  A clean-up from \<open>w\<close> to \<open>w'\<close> that is to remove the routes \<open>S\<close>: it adds nothing, and what it
  leaves of \<open>S\<close> are routes whose delete command it ran in vain.
\<close>

definition removes :: "('k \<Rightarrow> string list set) \<Rightarrow> string list set \<Rightarrow> 'k net \<Rightarrow> 'k net \<Rightarrow> bool" where
  "removes R S w w' \<longleftrightarrow> grows w w' \<and> R (kernel w') \<subseteq> R (kernel w) \<and> S \<inter> R (kernel w') \<subseteq> undeleted (since w w')"

lemma removes_keep: "grows w w' \<Longrightarrow> R (kernel w') = R (kernel w) \<Longrightarrow> removes R {} w w'"
  by (simp add: removes_def)

lemma removes_trans:
  assumes "removes R S w w1" "removes R T w1 w2"
  shows "removes R (S \<union> T) w w2"
  using assms grows_trans [of w w1 w2] since_trans [of w w1 w2] by (auto simp: removes_def)

lemma rt_del:
  assumes "routing_lawful env R" "pre \<in> families"
  shows "removes R {pre @ spec} w (run_ignore env (pre @ ''del'' # spec) w)"
proof -
  obtain o1 where "exec env (kernel w) (pre @ ''del'' # spec) = (o1, kernel (run_ignore env (pre @ ''del'' # spec) w))"
    and log: "since w (run_ignore env (pre @ ''del'' # spec) w) = [(pre @ ''del'' # spec, o1)]"
    by (rule run_ignore_log)
  then show ?thesis
    using rt_deleted [OF assms, of "kernel w" spec] rt_failed [OF assms(1)] assms(2)
    by (cases "o1 = Some True") (auto simp: removes_def grows_run_ignore)
qed

lemma rt_iptables:
  assumes "routing_lawful env R"
  shows "R (kernel (run_ignore env (''iptables'' # args) w)) = R (kernel w)"
    "run env (''iptables'' # args) w = (r, w') \<Longrightarrow> R (kernel w') = R (kernel w)"
    "run_status env (''iptables'' # args) w = (r', w') \<Longrightarrow> R (kernel w') = R (kernel w)"
proof -
  have law: "\<And>k r k'. exec env k (''iptables'' # args) = (r, k') \<Longrightarrow> R k' = R k"
    using assms(1) unfolding routing_lawful_def by blast
  obtain o1 where "exec env (kernel w) (''iptables'' # args) = (o1, kernel (run_ignore env (''iptables'' # args) w))"
    using run_ignore_exec by blast
  then show "R (kernel (run_ignore env (''iptables'' # args) w)) = R (kernel w)" by (rule law)
  show "R (kernel w') = R (kernel w)" if run: "run env (''iptables'' # args) w = (r, w')"
    using run_exec [OF run] law by blast
  show "R (kernel w') = R (kernel w)" if "run_status env (''iptables'' # args) w = (r', w')"
    using that law by (auto simp: run_status_def invoke_def Let_def split: prod.splits)
qed

lemma families_in [simp]: "[''ip'', ''route''] \<in> families" "[''ip'', ''-6'', ''route''] \<in> families"
  by (simp_all add: families_def)

lemma rt_full_replace:
  assumes law: "routing_lawful env R" and run: "run_all env (full_tunnel ''replace'' tun) w = (r, w')"
  shows "R (kernel w') \<subseteq> R (kernel w) \<union> tun_routes tun"
proof -
  obtain r1 w1 where r1: "run env [''ip'', ''route'', ''replace'', ''0.0.0.0/1'', ''dev'', tun] w = (r1, w1)" by force
  obtain r2 w2 where r2: "run env [''ip'', ''route'', ''replace'', ''128.0.0.0/1'', ''dev'', tun] w1 = (r2, w2)" by force
  have "w' = (if r1 = Inr () then w2 else w1)"
    using run r1 r2 by (auto simp: full_tunnel_def split: sum.splits)
  then show ?thesis
    using rt_replace [OF law families_in(1), of "[''0.0.0.0/1'', ''dev'', tun]" w r1 w1] r1
      rt_replace [OF law families_in(1), of "[''128.0.0.0/1'', ''dev'', tun]" w1 r2 w2] r2
    by (auto simp: tun_routes_def split: if_splits)
qed

lemma full_tunnel_fam:
  "full_tunnel action tun = [[''ip'', ''route''] @ action # [''0.0.0.0/1'', ''dev'', tun],
     [''ip'', ''route''] @ action # [''128.0.0.0/1'', ''dev'', tun]]"
  "tun_routes tun = {[''ip'', ''route''] @ [''0.0.0.0/1'', ''dev'', tun]} \<union> {[''ip'', ''route''] @ [''128.0.0.0/1'', ''dev'', tun]}"
  by (auto simp: full_tunnel_def tun_routes_def)

lemma rt_full_del:
  assumes "routing_lawful env R"
  shows "removes R (tun_routes tun) w (run_each env (full_tunnel ''del'' tun) w)"
  unfolding full_tunnel_fam run_each.simps
  by (rule removes_trans [OF rt_del [OF assms families_in(1)] rt_del [OF assms families_in(1)]])

text \<open>Exactly what goes when both halves were there.\<close>

lemma rt_full_del_exact:
  assumes law: "routing_lawful env R" and halves: "tun_routes tun \<subseteq> R (kernel w)"
    and w': "w' = run_each env (full_tunnel ''del'' tun) w"
  shows "R (kernel w') = R (kernel w) - (tun_routes tun - undeleted (since w w'))"
proof -
  let ?h = "\<lambda>p. [''ip'', ''route''] @ [p, ''dev'', tun]" and ?c = "\<lambda>p. [''ip'', ''route''] @ ''del'' # [p, ''dev'', tun]"
  let ?w1 = "run_ignore env (?c ''0.0.0.0/1'') w"
  obtain o1 where 1: "exec env (kernel w) (?c ''0.0.0.0/1'') = (o1, kernel ?w1)"
    "issued ?w1 = issued w @ [(?c ''0.0.0.0/1'', o1)]" by (rule run_ignore_log)
  have w2: "w' = run_ignore env (?c ''128.0.0.0/1'') ?w1" by (simp add: w' full_tunnel_fam)
  obtain o2 where 2: "exec env (kernel ?w1) (?c ''128.0.0.0/1'') = (o2, kernel w')"
    "issued w' = issued ?w1 @ [(?c ''128.0.0.0/1'', o2)]" unfolding w2 by (rule run_ignore_log)
  have in1: "?h ''0.0.0.0/1'' \<in> R (kernel w)" "?h ''128.0.0.0/1'' \<in> R (kernel w)" using halves by (simp_all add: full_tunnel_fam)
  have R1: "R (kernel ?w1) = R (kernel w) - (if o1 = Some True then {?h ''0.0.0.0/1''} else {})"
    using rt_deleted(3) [OF law families_in(1), of "kernel w"] rt_failed [OF law 1(1)] 1(1) in1(1) by auto
  then have "?h ''128.0.0.0/1'' \<in> R (kernel ?w1)" using in1(2) by simp
  then have R2: "R (kernel w') = R (kernel ?w1) - (if o2 = Some True then {?h ''128.0.0.0/1''} else {})"
    using rt_deleted(3) [OF law families_in(1), of "kernel ?w1"] rt_failed [OF law 2(1)] 2(1) by auto
  have "since w w' = [(?c ''0.0.0.0/1'', o1), (?c ''128.0.0.0/1'', o2)]"
    using 1(2) 2(2) by (intro since_new) simp
  then have "undeleted (since w w') = (if o1 = Some True then {} else {?h ''0.0.0.0/1''})
      \<union> (if o2 = Some True then {} else {?h ''128.0.0.0/1''})"
    by (simp add: deletes_def)
  then show ?thesis unfolding R2 R1 by (auto simp: full_tunnel_fam)
qed

lemma rt_ipv6_enable:
  assumes law: "routing_lawful env R" and run: "ipv6_enable env w = (r, w')"
  shows "(case r of Inr g \<Rightarrow> g \<and> R (kernel w') \<subseteq> R (kernel w) \<union> {v6_low, v6_high}
    | Inl e \<Rightarrow> R (kernel w') \<subseteq> R (kernel w) \<union> {v6_low})"
proof -
  obtain r1 w1 where r1: "run env [''ip'', ''-6'', ''route'', ''replace'', ''blackhole'', ''::/1''] w = (r1, w1)" by force
  obtain r2 w2 where r2: "run env [''ip'', ''-6'', ''route'', ''replace'', ''blackhole'', ''8000::/1''] w1 = (r2, w2)" by force
  show ?thesis
    using run r1 r2 rt_replace [OF law families_in(2), of "[''blackhole'', ''::/1'']" w r1 w1]
      rt_replace [OF law families_in(2), of "[''blackhole'', ''8000::/1'']" w1 r2 w2]
    by (auto simp: ipv6_enable_def blackhole_def v6_low_def v6_high_def split: sum.splits if_splits)
qed

lemma rt_ipv6_drop:
  assumes "routing_lawful env R"
  shows "removes R {v6_low, v6_high} w (ipv6_drop env True w)"
proof -
  have fam: "blackhole ''del'' p = [''ip'', ''-6'', ''route''] @ ''del'' # [''blackhole'', p]" for p by (simp add: blackhole_def)
  have set: "{v6_low, v6_high} = {[''ip'', ''-6'', ''route''] @ [''blackhole'', ''::/1'']}
      \<union> {[''ip'', ''-6'', ''route''] @ [''blackhole'', ''8000::/1'']}" by (auto simp: v6_low_def v6_high_def)
  show ?thesis
    unfolding ipv6_drop_def fam set run_each.simps
    using removes_trans [OF rt_del [OF assms families_in(2)] rt_del [OF assms families_in(2)]] by simp
qed

lemma rt_ks_drop:
  assumes "routing_lawful env R"
  shows "R (kernel (ks_drop env w)) = R (kernel w)"
  by (simp add: ks_drop_def rt_iptables [OF assms])

lemma rt_run_all_iptables:
  assumes "routing_lawful env R" "\<forall>c \<in> set cs. hd c = ''iptables'' \<and> c \<noteq> []" "run_all env cs w = (r, w')"
  shows "R (kernel w') = R (kernel w)"
  using assms(2,3)
proof (induction cs arbitrary: w)
  case (Cons c cs)
  obtain r1 w1 where r1: "run env c w = (r1, w1)" by force
  obtain args where "c = ''iptables'' # args" using Cons.prems(1) by (cases c) auto
  then have "R (kernel w1) = R (kernel w)" using rt_iptables(2) [OF assms(1)] r1 by blast
  then show ?case using Cons r1 by (auto split: sum.splits)
qed simp

lemma rt_ks_install:
  assumes law: "routing_lawful env R" and inst: "ks_install env ip port tun w = (r, w')"
  shows "R (kernel w') = R (kernel w)"
proof -
  let ?w1 = "run_ignore env [''iptables'', ''-N'', KS_CHAIN] w"
  let ?w2 = "run_ignore env [''iptables'', ''-F'', KS_CHAIN] ?w1"
  obtain ra w3 where a: "run_all env (map ks_append (ks_allow ip port tun)) ?w2 = (ra, w3)" by force
  obtain rc w4 where c: "run env (ks_append ks_conntrack) w3 = (rc, w4)" by force
  define w5 where "w5 = (case rc of Inr _ \<Rightarrow> w4 | Inl _ \<Rightarrow> run_ignore env (ks_append ks_state) w4)"
  obtain rj w6 where j: "run env (ks_append ks_reject) w5 = (rj, w6)" by force
  obtain rs w7 where s: "run_status env [''iptables'', ''-C'', ''OUTPUT'', ''-j'', KS_CHAIN] w6 = (rs, w7)" by force
  obtain ri w8 where i: "run env [''iptables'', ''-I'', ''OUTPUT'', ''1'', ''-j'', KS_CHAIN] w7 = (ri, w8)" by force
  have w': "w' \<in> {w3, w6, w7, w8}"
    using inst a c j s i
    by (auto simp: ks_install_def Let_def w5_def [symmetric] split: sum.splits if_splits)
  have app: "ks_append rule = ''iptables'' # ([''-A'', KS_CHAIN] @ rule)" for rule by (simp add: ks_append_def)
  have 3: "R (kernel w3) = R (kernel w)"
    using rt_run_all_iptables [OF law _ a] by (auto simp: app rt_iptables(1) [OF law])
  have 5: "R (kernel w5) = R (kernel w)"
    using rt_iptables(2) [OF law c [unfolded app]] 3
    by (simp add: w5_def app rt_iptables(1) [OF law] split: sum.split)
  have 6: "R (kernel w6) = R (kernel w)" using rt_iptables(2) [OF law j [unfolded app]] 5 by simp
  have 7: "R (kernel w7) = R (kernel w)" using rt_iptables(3) [OF law s] 6 by simp
  have 8: "R (kernel w8) = R (kernel w)" using rt_iptables(2) [OF law i] 7 by simp
  show ?thesis using w' 3 6 7 8 by auto
qed

lemma rt_with_host: "with_host f w = (r, w') \<Longrightarrow> kernel w' = kernel w"
  by (auto simp: with_host_def Let_def split: prod.splits)

text \<open>What a value of the client's routes has installed, and what \<open>install_extras\<close> can add.\<close>

definition owned_routes :: "client_routes \<Rightarrow> string list set" where
  "owned_routes st =
     (if rt_redirect_all st then tun_routes (rt_tun_name st) else {})
   \<union> (if rt_ipv6 st = Some True then {v6_low, v6_high} else {})
   \<union> {server_route ip gw dev | ip gw dev.
        rt_server_host st = Some ip \<and> rt_via_gateway st = Some gw \<and> rt_via_dev st = Some dev}"

lemma rt_drop_opt_keep:
  "(\<And>g w. R (kernel (f g w)) = R (kernel w)) \<Longrightarrow> R (kernel (drop_opt f x w)) = R (kernel w)"
  by (simp add: drop_opt_def split: option.split)

lemma rt_ipv6_drop_opt:
  assumes "routing_lawful env R"
  shows "removes R (if x = Some True then {v6_low, v6_high} else {}) w (drop_opt (ipv6_drop env) x w)"
proof (cases "x = Some True")
  case True
  then show ?thesis using rt_ipv6_drop [OF assms] by (simp add: drop_opt_def)
next
  case False
  then have "drop_opt (ipv6_drop env) x w = w" by (auto simp: drop_opt_def ipv6_drop_def split: option.split)
  then show ?thesis using False by (simp add: removes_def)
qed

lemma rt_routes_drop:
  assumes law: "routing_lawful env R"
  shows "removes R (owned_routes st) w (routes_drop env st w)"
proof -
  have ks: "removes R {} w (drop_opt (\<lambda>_. ks_drop env) x w)" for x :: "unit option" and w
    by (rule removes_keep [OF _ rt_drop_opt_keep [OF rt_ks_drop [OF law]]])
      (simp add: drop_opt_def ks_drop_def grows_run_each del: run_each.simps split: option.split)
  have dns: "removes R {} w (drop_opt (\<lambda>restored w. snd (with_host (dns_restore restored) w)) x w)" for x w
    by (rule removes_keep [OF _ rt_drop_opt_keep])
      (auto simp: drop_opt_def rt_with_host [OF prod.collapse [symmetric]] grows_with_host [OF prod.collapse [symmetric]]
        split: option.split)
  have tun: "removes R (if b then tun_routes t else {}) w (if b then run_each env (full_tunnel ''del'' t) w else w)" for b t w
    using rt_full_del [OF law] by (simp add: removes_def)
  have one: "removes R {server_route ip gw dev} w (run_ignore env (host_route ''del'' ip gw dev) w)" for ip gw dev w
    using rt_del [OF law families_in(1), of "[show_ipv4 ip, ''via'', show_ipv4 gw, ''dev'', dev]" w]
    by (simp add: host_route_def server_route_def)
  have host: "removes R {server_route ip gw dev | ip gw dev. a = Some ip \<and> b = Some gw \<and> c = Some dev} w
      (case (a, b, c) of (Some ip, Some gw, Some dev) \<Rightarrow> run_ignore env (host_route ''del'' ip gw dev) w | _ \<Rightarrow> w)" for a b c w
    using one by (cases a; cases b; cases c) (simp_all add: removes_def)
  note steps = removes_trans [OF removes_trans [OF removes_trans [OF removes_trans [OF ks rt_ipv6_drop_opt [OF law]] dns] tun] host]
  have "owned_routes st = {} \<union> (if rt_ipv6 st = Some True then {v6_low, v6_high} else {}) \<union> {}
      \<union> (if rt_redirect_all st then tun_routes (rt_tun_name st) else {})
      \<union> {server_route ip gw dev | ip gw dev.
        rt_server_host st = Some ip \<and> rt_via_gateway st = Some gw \<and> rt_via_dev st = Some dev}"
    by (auto simp: owned_routes_def)
  then show ?thesis
    unfolding routes_drop_def teardown_all_def Let_def snd_conv by (simp only: steps)
qed

lemma rt_install_extras:
  assumes law: "routing_lawful env R" and run: "install_extras env ip port opts st w = (st', w')" and "rt_ipv6 st = None"
  shows "R (kernel w') \<subseteq> R (kernel w) \<union> (if rt_ipv6 st' = Some True then {v6_low, v6_high}
      else if ro_disable_ipv6 opts then {v6_low} else {})"
    and "owned_routes st' = owned_routes st \<union> (if rt_ipv6 st' = Some True then {v6_low, v6_high} else {})"
    and "rt_ipv6 st' = None \<or> rt_ipv6 st' = Some True"
proof -
  obtain r1 w1 where v6: "ipv6_enable env w = (r1, w1)" by force
  define s1 where "s1 = (if ro_disable_ipv6 opts then (case r1 of Inr g \<Rightarrow> st\<lparr>rt_ipv6 := Some g\<rparr> | Inl _ \<Rightarrow> st) else st)"
  define v1 where "v1 = (if ro_disable_ipv6 opts then w1 else w)"
  obtain r2 w2 where dns: "with_host (dns_install (ro_dns opts)) v1 = (r2, w2)" by force
  define s2 where "s2 = (if ro_dns opts \<noteq> [] then (case r2 of Inr g \<Rightarrow> s1\<lparr>rt_dns := Some g\<rparr> | Inl _ \<Rightarrow> s1) else s1)"
  define v2 where "v2 = (if ro_dns opts \<noteq> [] then w2 else v1)"
  obtain r3 w3 where ks: "ks_install env ip port (rt_tun_name s2) v2 = (r3, w3)" by force
  have step1: "(if ro_disable_ipv6 opts then (case ipv6_enable env w of
      (Inr g, w) \<Rightarrow> (st\<lparr>rt_ipv6 := Some g\<rparr>, w) | (Inl _, w) \<Rightarrow> (st, w)) else (st, w)) = (s1, v1)"
    by (simp add: v6 s1_def v1_def split: sum.split)
  have step2: "(if ro_dns opts \<noteq> [] then (case with_host (dns_install (ro_dns opts)) v1 of
      (Inr g, w) \<Rightarrow> (s1\<lparr>rt_dns := Some g\<rparr>, w) | (Inl _, w) \<Rightarrow> (s1, w)) else (s1, v1)) = (s2, v2)"
    by (simp add: dns s2_def v2_def split: sum.split)
  have fin: "(if ro_kill_switch opts \<and> ro_redirect_all opts then
       (case r3 of Inr g \<Rightarrow> (s2\<lparr>rt_kill_switch := Some g\<rparr>, w3) | Inl _ \<Rightarrow> (s2, w3)) else (s2, v2)) = (st', w')"
    using run unfolding install_extras_def Let_def step1 step2 prod.case ks
    by (simp split: sum.splits if_splits)
  have "w' = w3 \<or> w' = v2" using fin by (simp split: sum.splits if_splits)
  moreover have "R (kernel v2) = R (kernel v1)" using rt_with_host [OF dns] by (simp add: v2_def)
  ultimately have k: "R (kernel w') = R (kernel v1)" using rt_ks_install [OF law ks] by auto
  have "st' = s2 \<or> (\<exists>g. st' = s2\<lparr>rt_kill_switch := Some g\<rparr>)" using fin by (auto split: sum.splits if_splits)
  moreover have "s2 = s1 \<or> (\<exists>g. s2 = s1\<lparr>rt_dns := Some g\<rparr>)" by (simp add: s2_def split: sum.splits) blast
  ultimately have st': "rt_ipv6 st' = rt_ipv6 s1" "owned_routes st' = owned_routes s1"
    by (elim disjE exE; simp add: owned_routes_def)+
  note e = rt_ipv6_enable [OF law v6]
  show "R (kernel w') \<subseteq> R (kernel w) \<union> (if rt_ipv6 st' = Some True then {v6_low, v6_high}
      else if ro_disable_ipv6 opts then {v6_low} else {})"
    using e assms(3) unfolding k st' by (auto simp: v1_def s1_def split: sum.splits)
  show "owned_routes st' = owned_routes st \<union> (if rt_ipv6 st' = Some True then {v6_low, v6_high} else {})"
    using e assms(3) unfolding st' by (auto simp: s1_def owned_routes_def split: sum.splits)
  show "rt_ipv6 st' = None \<or> rt_ipv6 st' = Some True"
    using e assms(3) unfolding st' by (simp add: s1_def split: sum.splits)
qed

text \<open>What an installation leaves in the routing table. A failed one leaves, beyond what was there
  before, only routes whose delete command it ran in vain; a successful one only routes its value
  owns, with one exception the code makes: when IPv6 was to be blocked and only the first of the two
  blackhole routes could be set, nothing owns it.\<close>

theorem install_drop_clean:
  assumes law: "routing_lawful env R" and run: "routes_install env (V4 ip port) tun opts w = (r, w')"
  shows "case r of
      Inl e \<Rightarrow> R (kernel w') \<subseteq> R (kernel w) \<union> undeleted (since w w')
    | Inr st \<Rightarrow> R (kernel w') - owned_routes st \<subseteq> R (kernel w) \<union>
        (if ro_disable_ipv6 opts \<and> rt_ipv6 st = None then {v6_low} else {})"
proof -
  have own: "owned_routes (hosted_routes tun opts ip gw dev)
      = insert (server_route ip gw dev) (if ro_redirect_all opts then tun_routes tun else {})" for gw dev
    by (auto simp: owned_routes_def hosted_routes_def init_routes_def)
  have host: "R (kernel w1) \<subseteq> (if r1 = Inr () then insert (server_route ip gw dev) (R (kernel w)) else R (kernel w))"
    "grows w w1" if "run env (host_route ''replace'' ip gw dev) w = (r1, w1)" for gw dev r1 w1
    using rt_replace(1,3) [OF law families_in(1), of "[show_ipv4 ip, ''via'', show_ipv4 gw, ''dev'', dev]" w r1 w1] that
      grows_run [OF that] by (auto simp: host_route_def server_route_def)
  show ?thesis
    using run
  proof (cases rule: routes_install_cases)
    case (no_default e)
    then show ?thesis using rt_routes_drop [OF law, of "init_routes tun opts" w] by (auto simp: removes_def)
  next
    case (no_host gw dev e w1)
    then show ?thesis
      using host(1) [OF no_host(1)] rt_routes_drop [OF law, of "init_routes tun opts" w1] by (auto simp: removes_def)
  next
    case (no_tunnel gw dev e w1 w2)
    let ?st = "hosted_routes tun opts ip gw dev"
    note d = rt_routes_drop [OF law, of ?st w2, folded no_tunnel(5)]
    have "grows w2 w'" using d by (simp add: removes_def)
    then have "since w w' = since w w2 @ since w2 w'"
      by (rule since_trans [OF grows_trans [OF host(2) [OF no_tunnel(1)] grows_run_all [OF no_tunnel(3)]]])
    moreover have "R (kernel w2) \<subseteq> R (kernel w) \<union> owned_routes ?st"
      using host(1) [OF no_tunnel(1)] rt_full_replace [OF law no_tunnel(3)] no_tunnel(2) unfolding own by auto
    ultimately show ?thesis using d no_tunnel(4) by (auto simp: removes_def)
  next
    case (installed gw dev w1 w2 st)
    have "R (kernel w2) \<subseteq> R (kernel w1) \<union> (if ro_redirect_all opts then tun_routes tun else {})"
      using installed(2) rt_full_replace [OF law] by (auto split: if_splits)
    then have sub: "R (kernel w2) \<subseteq> R (kernel w) \<union> owned_routes (hosted_routes tun opts ip gw dev)"
      using host(1) [OF installed(1)] own by auto
    have "rt_ipv6 (hosted_routes tun opts ip gw dev) = None" by (simp add: hosted_routes_def init_routes_def)
    note e = rt_install_extras [OF law installed(3) this]
    have "R (kernel w') - owned_routes st \<subseteq> R (kernel w) \<union> (if ro_disable_ipv6 opts \<and> rt_ipv6 st = None then {v6_low} else {})"
      using e sub by (auto split: if_splits)
    then show ?thesis using installed(4) by simp
  qed
qed

lemma run_all_host: "run_all env cs w = (r, w') \<Longrightarrow> nhost w' = nhost w"
proof (induction cs arbitrary: w)
  case (Cons c cs)
  then show ?case by (auto split: sum.splits prod.splits dest!: run_hostD)
qed simp

lemma ks_install_host: "ks_install env ip port tun w = (r, w') \<Longrightarrow> nhost w' = nhost w"
  unfolding ks_install_def Let_def
  by (auto split: prod.splits sum.splits if_splits dest!: run_hostD run_status_hostD run_all_host)

text \<open>A successful replace of both halves sets them and loses at most routes of their destinations.\<close>

lemma route_dst_halves:
  "route_dst [''ip'', ''route'', ''0.0.0.0/1'', ''dev'', tun] = (''-6'' \<in> {tun}, [''0.0.0.0/1''])"
  "route_dst [''ip'', ''route'', ''128.0.0.0/1'', ''dev'', tun] = (''-6'' \<in> {tun}, [''128.0.0.0/1''])"
  by (simp_all add: route_dst_def)

lemma rt_full_replace_ok:
  assumes law: "routing_lawful env R" and run: "run_all env (full_tunnel ''replace'' tun) w = (Inr (), w')"
  shows "tun_routes tun \<subseteq> R (kernel w')" "R (kernel w') \<subseteq> R (kernel w) \<union> tun_routes tun"
    "{x \<in> R (kernel w). route_dst x \<notin> route_dst ` tun_routes tun} \<subseteq> R (kernel w')"
    "since w w' = map (\<lambda>c. (c, Some True)) (full_tunnel ''replace'' tun)"
proof -
  let ?c1 = "[''ip'', ''route'', ''replace'', ''0.0.0.0/1'', ''dev'', tun]" and ?h1 = "[''ip'', ''route'', ''0.0.0.0/1'', ''dev'', tun]"
    and ?c2 = "[''ip'', ''route'', ''replace'', ''128.0.0.0/1'', ''dev'', tun]" and ?h2 = "[''ip'', ''route'', ''128.0.0.0/1'', ''dev'', tun]"
  obtain r1 w1 where r1: "run env ?c1 w = (r1, w1)" by force
  obtain r2 w2 where r2: "run env ?c2 w1 = (r2, w2)" by force
  have ok: "r1 = Inr ()" "r2 = Inr ()" "w2 = w'"
    using run r1 r2 by (auto simp: full_tunnel_def split: sum.splits)
  note h1 = rt_replace [OF law families_in(1), of "[''0.0.0.0/1'', ''dev'', tun]" w r1 w1, unfolded append_Cons append_Nil, OF r1]
    and h2 = rt_replace [OF law families_in(1), of "[''128.0.0.0/1'', ''dev'', tun]" w1 r2 w2, unfolded append_Cons append_Nil, OF r2]
  have "?h1 \<in> R (kernel w1)" using h1(2) ok(1) by simp
  then have "?h1 \<in> R (kernel w')" using h2(4) [of ?h1] ok(3) by (auto simp: route_dst_halves)
  then show "tun_routes tun \<subseteq> R (kernel w')" using h2(2) ok by (simp add: tun_routes_def)
  show "R (kernel w') \<subseteq> R (kernel w) \<union> tun_routes tun" using h1(1) h2(1) ok(3) by (auto simp: tun_routes_def)
  show "{x \<in> R (kernel w). route_dst x \<notin> route_dst ` tun_routes tun} \<subseteq> R (kernel w')"
    using h1(4) h2(4) ok(3) by (auto simp: tun_routes_def)
  have "issued w1 = issued w @ [(?c1, Some True)]" "issued w2 = issued w1 @ [(?c2, Some True)]"
    using r1 r2 ok(1,2) by (auto simp: run_outcome Let_def split: prod.splits option.splits bool.splits)
  then show "since w w' = map (\<lambda>c. (c, Some True)) (full_tunnel ''replace'' tun)"
    using ok(3) by (intro since_new) (simp add: full_tunnel_def)
qed

lemma run_each_since: "map fst (since w (run_each env cs w)) = cs"
  using run_each_log [of env cs w] since_new by metis

text \<open>What \<open>teardown\<close> does, command by command.\<close>

lemma teardown_log:
  assumes "routes_teardown env st w = (st1, w1)"
  shows "st1 = st\<lparr>rt_kill_switch := None\<rparr>" "nhost w1 = nhost w" "grows w w1"
    "map fst (since w w1) = (if rt_kill_switch st = None then [] else ks_drop_cmds)
      @ (if rt_redirect_all st then full_tunnel ''del'' (rt_tun_name st) else [])"
proof -
  let ?w0 = "drop_opt (\<lambda>_. ks_drop env) (rt_kill_switch st) w"
  have st1: "st1 = st\<lparr>rt_kill_switch := None\<rparr>"
    and w1: "w1 = (if rt_redirect_all st then run_each env (full_tunnel ''del'' (rt_tun_name st)) ?w0 else ?w0)"
    using assms by (auto simp: routes_teardown_def Let_def)
  show "st1 = st\<lparr>rt_kill_switch := None\<rparr>" by (rule st1)
  have 0: "grows w ?w0" "nhost ?w0 = nhost w" "map fst (since w ?w0) = (if rt_kill_switch st = None then [] else ks_drop_cmds)"
    by (auto simp: drop_opt_def ks_drop_each grows_run_each run_each_since simp del: run_each.simps split: option.split)
  have 1: "grows ?w0 w1" "nhost w1 = nhost ?w0"
    "map fst (since ?w0 w1) = (if rt_redirect_all st then full_tunnel ''del'' (rt_tun_name st) else [])"
    by (simp_all add: w1 grows_run_each run_each_since del: run_each.simps)
  show "nhost w1 = nhost w" "grows w w1" using 0 1 grows_trans by simp_all blast
  show "map fst (since w w1) = (if rt_kill_switch st = None then [] else ks_drop_cmds)
      @ (if rt_redirect_all st then full_tunnel ''del'' (rt_tun_name st) else [])"
    unfolding since_trans [OF 0(1) 1(1)] map_append 0(3) 1(3) ..
qed

lemma teardown_routes:
  assumes law: "routing_lawful env R" and off: "routes_teardown env st w = (st1, w1)" and "rt_redirect_all st"
  shows "removes R (tun_routes (rt_tun_name st)) w w1"
    "tun_routes (rt_tun_name st) \<subseteq> R (kernel w) \<Longrightarrow>
      R (kernel w1) = R (kernel w) - (tun_routes (rt_tun_name st) - undeleted (since w w1))"
proof -
  let ?w0 = "drop_opt (\<lambda>_. ks_drop env) (rt_kill_switch st) w" and ?T = "tun_routes (rt_tun_name st)"
  have w1: "w1 = run_each env (full_tunnel ''del'' (rt_tun_name st)) ?w0"
    using off assms(3) by (auto simp: routes_teardown_def Let_def)
  have R0: "R (kernel ?w0) = R (kernel w)" by (rule rt_drop_opt_keep) (rule rt_ks_drop [OF law])
  have g0: "grows w ?w0"
    by (auto simp: drop_opt_def ks_drop_each grows_run_each simp del: run_each.simps split: option.split)
  note d = rt_full_del [OF law, of "rt_tun_name st" ?w0, folded w1]
  show "removes R ?T w w1" using removes_trans [OF removes_keep [OF g0 R0] d] by simp
  have "map fst (since w ?w0) = (if rt_kill_switch st = None then [] else ks_drop_cmds)"
    by (auto simp: drop_opt_def ks_drop_each run_each_since simp del: run_each.simps split: option.split)
  moreover have none: "undeleted log = {}" if "map fst log \<in> {[], ks_drop_cmds}" for log
    using that by (auto simp: ks_drop_cmds_def ks_cmd_def deletes_def)
  ultimately have "undeleted (since w ?w0) = {}" by (intro none) auto
  then have u: "undeleted (since w w1) = undeleted (since ?w0 w1)"
    using since_trans [OF g0, of w1] d by (simp add: removes_def)
  show "R (kernel w1) = R (kernel w) - (?T - undeleted (since w w1))" if "?T \<subseteq> R (kernel w)"
    unfolding u using rt_full_del_exact [OF law _ w1] that R0 by simp
qed

text \<open>What \<open>reenable_with_ks\<close> does when it succeeds.\<close>

lemma reenable_ok:
  assumes "reenable_with_ks env ep ks st w = (Inr (), st', w')"
  obtains w1 where "reenable env st w = (Inr (), w1)"
    "(if ks \<and> rt_redirect_all st \<and> rt_kill_switch st = None \<and> rt_via_dev st \<noteq> None \<and> (\<exists>ip port. ep = V4 ip port)
      then \<exists>ip port r. ep = V4 ip port \<and> ks_install env ip port (rt_tun_name st) w1 = (r, w')
        \<and> st' = (if r = Inr () then st\<lparr>rt_kill_switch := Some ()\<rparr> else st)
      else st' = st \<and> w' = w1)"
proof -
  obtain r1 w1 where re: "reenable env st w = (r1, w1)" by force
  have r1: "r1 = Inr ()" using assms re by (auto simp: reenable_with_ks_def split: sum.splits)
  show thesis
    by (rule that [of w1])
      (use assms re r1 in \<open>auto simp: reenable_with_ks_def split: if_splits socket_addr.splits option.splits prod.splits sum.splits\<close>)
qed

text \<open>C26: Switching the tunnel off and on again. Off runs the three commands that take the kill switch
  down, when there was one, and then the two that delete the halves of the default route, and touches
  no file. No route is added; of the halves only those stay whose delete did not succeed, and when
  both were there nothing else goes. On, when it succeeds, has set both halves again, adds no other
  route and loses at most routes of their destinations, and the kill switch is up exactly when it is
  wanted, the endpoint is IPv4 and its installation reported success. The host route, the IPv6
  blackholes and the resolver stay owned throughout, so a later drop still removes them.\<close>

theorem toggle_roundtrip:
  assumes law: "routing_lawful env R" and off: "routes_teardown env st w = (st1, w1)"
    and on: "reenable_with_ks env ep ks st1 w1 = (Inr (), st2, w2)"
    and redirect: "rt_redirect_all st"
  shows "map fst (since w w1) = (if rt_kill_switch st = None then [] else ks_drop_cmds) @ full_tunnel ''del'' (rt_tun_name st)
    \<and> rt_kill_switch st1 = None
    \<and> R (kernel w1) \<subseteq> R (kernel w) \<and> tun_routes (rt_tun_name st) \<inter> R (kernel w1) \<subseteq> undeleted (since w w1)
    \<and> (tun_routes (rt_tun_name st) \<subseteq> R (kernel w) \<longrightarrow>
        R (kernel w1) = R (kernel w) - (tun_routes (rt_tun_name st) - undeleted (since w w1)))
    \<and> (\<exists>w3. reenable env st1 w1 = (Inr (), w3)
        \<and> since w1 w3 = map (\<lambda>c. (c, Some True)) (full_tunnel ''replace'' (rt_tun_name st))
        \<and> (case (ks, rt_via_dev st, ep) of
             (True, Some dev, V4 ip port) \<Rightarrow> \<exists>r. ks_install env ip port (rt_tun_name st) w3 = (r, w2)
               \<and> rt_kill_switch st2 = (if r = Inr () then Some () else None)
           | _ \<Rightarrow> w2 = w3 \<and> rt_kill_switch st2 = None))
    \<and> tun_routes (rt_tun_name st) \<subseteq> R (kernel w2) \<and> R (kernel w2) \<subseteq> R (kernel w1) \<union> tun_routes (rt_tun_name st)
    \<and> (\<forall>x \<in> R (kernel w1). x \<in> R (kernel w2) \<or> route_dst x \<in> route_dst ` tun_routes (rt_tun_name st))
    \<and> nhost w2 = nhost w \<and> rt_dns st2 = rt_dns st \<and> owned_routes st2 = owned_routes st"
proof -
  let ?T = "tun_routes (rt_tun_name st)"
  note t = teardown_log [OF off] and tr = teardown_routes [OF law off redirect]
  obtain w3 where w3: "reenable env st1 w1 = (Inr (), w3)"
    "(if ks \<and> rt_redirect_all st1 \<and> rt_kill_switch st1 = None \<and> rt_via_dev st1 \<noteq> None \<and> (\<exists>ip port. ep = V4 ip port)
      then \<exists>ip port r. ep = V4 ip port \<and> ks_install env ip port (rt_tun_name st1) w3 = (r, w2)
        \<and> st2 = (if r = Inr () then st1\<lparr>rt_kill_switch := Some ()\<rparr> else st1)
      else st2 = st1 \<and> w2 = w3)"
    by (rule reenable_ok [OF on])
  have s1: "rt_redirect_all st1" "rt_kill_switch st1 = None" "rt_via_dev st1 = rt_via_dev st"
    "rt_tun_name st1 = rt_tun_name st" "rt_dns st1 = rt_dns st" "owned_routes st1 = owned_routes st"
    using redirect by (simp_all add: t(1) owned_routes_def)
  have run: "run_all env (full_tunnel ''replace'' (rt_tun_name st)) w1 = (Inr (), w3)"
    using w3(1) s1 by (simp add: reenable_def)
  note full = rt_full_replace_ok [OF law run]
  let ?armed = "ks \<and> rt_via_dev st \<noteq> None \<and> (\<exists>ip port. ep = V4 ip port)"
  have cases: "if ?armed
      then \<exists>ip port r. ep = V4 ip port \<and> ks_install env ip port (rt_tun_name st) w3 = (r, w2)
        \<and> st2 = (if r = Inr () then st1\<lparr>rt_kill_switch := Some ()\<rparr> else st1)
      else st2 = st1 \<and> w2 = w3"
    using w3(2) [unfolded s1(2-4)] s1(1) by simp
  have keep: "R (kernel w2) = R (kernel w3)" "nhost w2 = nhost w3" "grows w3 w2"
    "rt_dns st2 = rt_dns st" "owned_routes st2 = owned_routes st"
    using cases s1(5,6)
    by (auto simp: owned_routes_def split: if_splits dest: ks_install_host rt_ks_install [OF law] grows_ks_install)
  have ks: "\<exists>w3. reenable env st1 w1 = (Inr (), w3)
        \<and> since w1 w3 = map (\<lambda>c. (c, Some True)) (full_tunnel ''replace'' (rt_tun_name st))
        \<and> (case (ks, rt_via_dev st, ep) of
             (True, Some dev, V4 ip port) \<Rightarrow> \<exists>r. ks_install env ip port (rt_tun_name st) w3 = (r, w2)
               \<and> rt_kill_switch st2 = (if r = Inr () then Some () else None)
           | _ \<Rightarrow> w2 = w3 \<and> rt_kill_switch st2 = None)"
  proof (cases ?armed)
    case True
    then obtain dev ip port r where a: "ks" "rt_via_dev st = Some dev" "ep = V4 ip port"
      "ks_install env ip port (rt_tun_name st) w3 = (r, w2)"
      "st2 = (if r = Inr () then st1\<lparr>rt_kill_switch := Some ()\<rparr> else st1)"
      using cases by auto
    then have "rt_kill_switch st2 = (if r = Inr () then Some () else None)" using s1(2) by simp
    then show ?thesis using w3(1) full(4) a(1-4) by (intro exI [of _ w3]) simp
  next
    case False
    then have "st2 = st1" "w2 = w3" using cases by simp_all
    moreover have "(case (ks, rt_via_dev st, ep) of (True, Some dev, V4 ip port) \<Rightarrow> P ip port | _ \<Rightarrow> Q) = Q" for P and Q :: bool
      using False by (cases ks; cases "rt_via_dev st"; cases ep) auto
    ultimately show ?thesis using w3(1) full(4) s1(2) by (intro exI [of _ w3]) simp
  qed
  have host: "nhost w2 = nhost w" using keep(2) run_all_host [OF run] t(2) by simp
  have log: "map fst (since w w1) = (if rt_kill_switch st = None then [] else ks_drop_cmds) @ full_tunnel ''del'' (rt_tun_name st)"
    using t(4) redirect by simp
  have lost: "\<forall>x \<in> R (kernel w1). x \<in> R (kernel w2) \<or> route_dst x \<in> route_dst ` ?T"
    using full(3) unfolding keep(1) by blast
  have "rt_kill_switch st1 = None" "R (kernel w1) \<subseteq> R (kernel w)" "?T \<inter> R (kernel w1) \<subseteq> undeleted (since w w1)"
    using t(1) tr(1) by (simp_all add: removes_def)
  then show ?thesis
    using log tr(2) ks full(1,2) lost host keep(4,5) unfolding keep(1) by (intro conjI impI) simp_all
qed

lemma ks_install_fails:
  assumes "\<And>k args. fst (exec env k (''iptables'' # args)) \<noteq> Some True"
  shows "\<exists>e. fst (ks_install env ip port tun w) = Inl e"
proof -
  have fails: "\<exists>e v'. run env (ks_append rule) v = (Inl e, v')" for rule v
  proof -
    obtain o1 k where e: "exec env (kernel v) (ks_append rule) = (o1, k)" by force
    have "o1 \<noteq> Some True" using assms [of "kernel v" "[''-A'', KS_CHAIN] @ rule"] e by (simp add: ks_append_def)
    then show ?thesis using e by (cases o1) (auto simp: run_def invoke_def)
  qed
  let ?v = "run_ignore env [''iptables'', ''-F'', KS_CHAIN] (run_ignore env [''iptables'', ''-N'', KS_CHAIN] w)"
  obtain e v' where "run env (ks_append [''-o'', ''lo'', ''-j'', ''RETURN'']) ?v = (Inl e, v')" using fails by blast
  then show ?thesis by (simp add: ks_install_def Let_def ks_allow_def)
qed

lemma extras_without_iptables:
  assumes "\<forall>k args. fst (exec env k (''iptables'' # args)) \<noteq> Some True"
  obtains s v2 v3 where "install_extras env ip port (opts\<lparr>ro_kill_switch := True\<rparr>) st v = (s, v2)"
    "install_extras env ip port (opts\<lparr>ro_kill_switch := False\<rparr>) st v = (s, v3)" "rt_kill_switch s = rt_kill_switch st"
proof -
  let ?on = "opts\<lparr>ro_kill_switch := True\<rparr>" and ?off = "opts\<lparr>ro_kill_switch := False\<rparr>"
  obtain s v3 where off: "install_extras env ip port ?off st v = (s, v3)" by force
  have on: "install_extras env ip port ?on st v =
      (let (st, v) = install_extras env ip port ?off st v
       in if ro_redirect_all opts then
            (case ks_install env ip port (rt_tun_name st) v of
               (Inr ks, v) \<Rightarrow> (st\<lparr>rt_kill_switch := Some ks\<rparr>, v) | (Inl _, v) \<Rightarrow> (st, v))
          else (st, v))"
    unfolding install_extras_def Let_def by (simp split: prod.split)
  obtain e v2 where "ks_install env ip port (rt_tun_name s) v3 = (Inl e, v2)"
    using ks_install_fails [of env ip port, OF assms [rule_format]] by (metis prod.collapse)
  then have "\<exists>v2. install_extras env ip port ?on st v = (s, v2)" by (simp add: on off)
  moreover have "rt_kill_switch (fst (install_extras env ip port ?off st v)) = rt_kill_switch st"
    by (simp add: install_extras_def split_def Let_def split: sum.split)
  ultimately show thesis using that off by auto
qed

text \<open>C33: The kill switch fails open. Where \<open>iptables\<close> does not work, a client that asks for
  the kill switch comes up exactly like one that does not: same result, same routes, no error; the
  failure is only logged, and nothing blocks clearnet traffic.\<close>

theorem kill_switch_failure_is_open:
  assumes "\<forall>k args. fst (exec env k (''iptables'' # args)) \<noteq> Some True"
  shows "fst (routes_install env (V4 ip port) tun (opts\<lparr>ro_kill_switch := True\<rparr>) w)
      = fst (routes_install env (V4 ip port) tun (opts\<lparr>ro_kill_switch := False\<rparr>) w)
    \<and> (\<forall>st. fst (routes_install env (V4 ip port) tun (opts\<lparr>ro_kill_switch := True\<rparr>) w) = Inr st
        \<longrightarrow> rt_kill_switch st = None)"
proof -
  show ?thesis
  proof (cases "default_route env w")
    case (Inl e)
    then show ?thesis by (simp add: routes_install_def)
  next
    case (Inr gd)
    obtain gw dev where gd: "gd = (gw, dev)" by force
    obtain r1 w1 where h: "run env (host_route ''replace'' ip gw dev) w = (r1, w1)" by force
    obtain r3 w3 where f: "(if ro_redirect_all opts then run_all env (full_tunnel ''replace'' tun) w1 else (Inr (), w1)) = (r3, w3)"
      by (metis prod.collapse)
    obtain s v2 v3 where x: "install_extras env ip port (opts\<lparr>ro_kill_switch := True\<rparr>) (hosted_routes tun opts ip gw dev) w3 = (s, v2)"
      "install_extras env ip port (opts\<lparr>ro_kill_switch := False\<rparr>) (hosted_routes tun opts ip gw dev) w3 = (s, v3)"
      "rt_kill_switch s = rt_kill_switch (hosted_routes tun opts ip gw dev)"
      by (rule extras_without_iptables [OF assms])
    have "rt_kill_switch s = None" using x(3) by (simp add: hosted_routes_def init_routes_def)
    moreover have "fst (routes_install env (V4 ip port) tun (opts\<lparr>ro_kill_switch := b\<rparr>) w) =
        (case r1 of Inl e \<Rightarrow> Inl e | Inr _ \<Rightarrow> (case r3 of Inl e \<Rightarrow> Inl e | Inr _ \<Rightarrow> Inr s))" for b
      using x(1,2)
      by (cases b) (simp_all add: routes_install_def Let_def Inr gd h f init_routes_def hosted_routes_def
          split: sum.split split del: if_split)
    ultimately show ?thesis by (simp split: sum.split)
  qed
qed

text \<open>An IPv6 endpoint is not protected and not safe to toggle. Installation runs no command
  and yet reports success, without a host route; switching the tunnel on later all the same points
  the default route into it, the route to the server included.\<close>

theorem ipv6_endpoint_toggle:
  "\<exists>st. routes_install env (V6 a p f s) tun (opts\<lparr>ro_redirect_all := True\<rparr>) w = (Inr st, w)
    \<and> rt_server_host st = None
    \<and> fst (reenable_with_ks env (V6 a p f s) ks st w') = fst (run_all env (full_tunnel ''replace'' tun) w')
    \<and> snd (snd (reenable_with_ks env (V6 a p f s) ks st w')) = snd (run_all env (full_tunnel ''replace'' tun) w')"
  by (simp add: routes_install_def reenable_with_ks_def reenable_def del: run_all.simps split: prod.split sum.split)

section \<open>A small kernel for the witnesses\<close>

record demo_kernel =
  dk_chain :: "string list list option"
  dk_jumps :: nat
  dk_routes :: "string list list"

definition demo_iptables :: "string list \<Rightarrow> demo_kernel \<Rightarrow> bool option \<times> demo_kernel" where
  "demo_iptables args k =
     (if args = [''-N'', KS_CHAIN] then
        (if dk_chain k = None then (Some True, k\<lparr>dk_chain := Some []\<rparr>) else (Some False, k))
      else if args = [''-F'', KS_CHAIN] then
        (if dk_chain k = None then (Some False, k) else (Some True, k\<lparr>dk_chain := Some []\<rparr>))
      else if take 2 args = [''-A'', KS_CHAIN] then
        (case dk_chain k of None \<Rightarrow> (Some False, k) | Some rs \<Rightarrow> (Some True, k\<lparr>dk_chain := Some (rs @ [drop 2 args])\<rparr>))
      else if args = [''-C'', ''OUTPUT'', ''-j'', KS_CHAIN] then (Some (0 < dk_jumps k), k)
      else if args = [''-I'', ''OUTPUT'', ''1'', ''-j'', KS_CHAIN] then (Some True, k\<lparr>dk_jumps := Suc (dk_jumps k)\<rparr>)
      else if args = [''-D'', ''OUTPUT'', ''-j'', KS_CHAIN] then 
        (if dk_jumps k = 0 then (Some False, k) else (Some True, k\<lparr>dk_jumps := dk_jumps k - 1\<rparr>))
      else if args = [''-X'', KS_CHAIN] then
        (if dk_chain k = Some [] \<and> dk_jumps k = 0 then (Some True, k\<lparr>dk_chain := None\<rparr>) else (Some False, k))
      else (Some (''-C'' \<notin> set args), k))"

definition demo_ip :: "string list \<Rightarrow> string list \<Rightarrow> demo_kernel \<Rightarrow> bool option \<times> demo_kernel" where
  "demo_ip pre args k =
     (if take 1 args = [''replace''] then (Some True, k\<lparr>dk_routes := List.insert (pre @ tl args) (dk_routes k)\<rparr>)
      else if take 1 args = [''del''] then
       (if List.member (dk_routes k) (pre @ tl args)
        then (Some True, k\<lparr>dk_routes := removeAll (pre @ tl args) (dk_routes k)\<rparr>) else (Some False, k))
      else (Some False, k))"

text \<open>The flag says whether \<open>iptables\<close> works.\<close>

definition demo_exec :: "bool \<Rightarrow> demo_kernel \<Rightarrow> string list \<Rightarrow> bool option \<times> demo_kernel" where
  "demo_exec works k cmd =
     (if take 1 cmd = [''iptables''] then (if works then demo_iptables (tl cmd) k else (None, k))
      else if take 3 cmd = [''ip'', ''-6'', ''route''] then demo_ip (take 3 cmd) (drop 3 cmd) k
      else if take 2 cmd = [''ip'', ''route''] then demo_ip (take 2 cmd) (drop 2 cmd) k
      else (None, k))"

definition demo_net :: "bool \<Rightarrow> string \<Rightarrow> demo_kernel net_env" where
  "demo_net works text = \<lparr>exec = demo_exec works, route_output = (\<lambda>_. Some (True, text))\<rparr>"

lemma demo_net_sel [simp]:
  "exec (demo_net works text) = demo_exec works" "route_output (demo_net works text) k = Some (True, text)"
  by (simp_all add: demo_net_def)

definition demo_view :: "demo_kernel fw_view" where
  "demo_view = \<lparr>chain = dk_chain, jumps = dk_jumps\<rparr>"

definition demo_hosts :: "(string \<times> string) list \<Rightarrow> string list \<Rightarrow> host" where
  "demo_hosts fs ds =
     \<lparr>files = map_of (map (\<lambda>(p, c). (p, \<lparr>content = c, utf8 = True, readable = True, mode = perm 6 4 4\<rparr>)) fs), umask = perm 0 2 2,
      denied = (\<lambda>p. p \<in> set ds)\<rparr>"

lemma demo_firewall_lawful: "firewall_lawful (demo_net True text) demo_view"
  unfolding firewall_lawful_def
  by (intro conjI allI impI)
    (auto simp: demo_net_def demo_exec_def demo_iptables_def ks_cmd_def ks_append_def demo_view_def KS_CHAIN_def
      split: if_splits option.splits)

lemma demo_routing_lawful: "routing_lawful (demo_net works text) (\<lambda>k. set (dk_routes k))"
  unfolding routing_lawful_def families_def
  by (intro conjI allI impI ballI)
    (auto simp: demo_net_def demo_exec_def demo_ip_def demo_iptables_def split: if_splits option.splits)

definition demo_text :: string where
  "demo_text = ''default via 10.0.0.1 dev eth0'' @ [CHR 0x0A]"

definition demo_machine :: "(string \<times> string) list \<Rightarrow> string list \<Rightarrow> demo_kernel net" where
  "demo_machine fs ds = \<lparr>kernel = \<lparr>dk_chain = None, dk_jumps = 0, dk_routes = []\<rparr>, nhost = demo_hosts fs ds, issued = []\<rparr>"

lemma demo_default: "default_route (demo_net works demo_text) w = Inr (Ipv4Addr 10 0 0 1, ''eth0'')"
  by (simp add: default_route_def) code_simp

definition demo_nat_guard :: nat_guard where
  "demo_nat_guard = \<lparr>nat_tun_cidr = ''10.66.0.0/24'', nat_egress = ''eth0'', nat_prev_forward = Some ''0'', nat_rule_added = True\<rparr>"

lemma demo_nat:
  "fst (nat_setup (demo_net True demo_text) ''10.66.0.0/24'' (demo_machine [(ip_forward, ''0'')] [])) = Inr demo_nat_guard"
  by (simp add: nat_setup_def demo_nat_guard_def default_egress_dev_def demo_default demo_machine_def demo_hosts_def fs_write_def
      fs_read_def run_status_def run_def invoke_def demo_exec_def demo_iptables_def masquerade_def Let_def)

lemma nat_guard_roundtrip_witness:
  "\<exists>g w1. nat_setup (demo_net True demo_text) ''10.66.0.0/24'' (demo_machine [(ip_forward, ''0'')] []) = (Inr g, w1)
    \<and> fs_read (nhost (nat_drop (demo_net True demo_text) g w1)) ip_forward = Some ''0''"
proof -
  obtain w1 where w1: "nat_setup (demo_net True demo_text) ''10.66.0.0/24'' (demo_machine [(ip_forward, ''0'')] [])
      = (Inr demo_nat_guard, w1)"
    using demo_nat by (metis prod.collapse)
  have "fs_read (nhost (demo_machine [(ip_forward, ''0'')] [])) ip_forward = Some ''0''"
    by (simp add: demo_machine_def demo_hosts_def fs_read_def)
  from nat_guard_roundtrip [OF w1 this] w1 show ?thesis by blast
qed

lemma nat_failure_leaves_forwarding_witness:
  "\<exists>w1. nat_setup (demo_net True []) ''10.66.0.0/24'' (demo_machine [(ip_forward, ''0'')] []) = (Inl (NoDefaultRoute []), w1)
    \<and> fs_read (nhost w1) ip_forward = Some ''1''"
proof -
  have "fst (nat_setup (demo_net True []) ''10.66.0.0/24'' (demo_machine [(ip_forward, ''0'')] [])) = Inl (NoDefaultRoute [])"
    by (simp add: nat_setup_def default_egress_dev_def default_route_def demo_machine_def demo_hosts_def fs_write_def
        split_whitespace_def Let_def)
  then obtain w1 where w1: "nat_setup (demo_net True []) ''10.66.0.0/24'' (demo_machine [(ip_forward, ''0'')] [])
      = (Inl (NoDefaultRoute []), w1)"
    by (metis prod.collapse)
  from nat_failure_leaves_forwarding [OF w1] w1 show ?thesis by simp
qed

lemma dns_guard_roundtrip_witness:
  "\<exists>h1. dns_install [''10.66.0.1''] (demo_hosts [(RESOLV, ''nameserver 9.9.9.9'')] []) = (Inr False, h1)
    \<and> fs_read (snd (dns_restore False h1)) RESOLV = Some ''nameserver 9.9.9.9''"
proof -
  let ?h = "demo_hosts [(RESOLV, ''nameserver 9.9.9.9'')] []"
  have "fst (dns_install [''10.66.0.1''] ?h) = Inr False"
    by (simp add: dns_install_def demo_hosts_def fs_read_def fs_write_def RESOLV_def RESOLV_BACKUP_def)
  then obtain h1 where h1: "dns_install [''10.66.0.1''] ?h = (Inr False, h1)" by (metis prod.collapse)
  have "fs_read ?h RESOLV = Some ''nameserver 9.9.9.9''" "\<not> denied ?h RESOLV" "\<not> denied ?h RESOLV_BACKUP"
    "files ?h RESOLV_BACKUP = None"
    by (simp_all add: demo_hosts_def fs_read_def RESOLV_def RESOLV_BACKUP_def)
  with dns_guard_roundtrip [OF h1 this(1-3)] h1 show ?thesis by auto
qed

lemma dns_restore_losses_witness:
  "fs_read (snd (dns_restore False (snd (dns_install [''10.66.0.1''] (demo_hosts [] []))))) RESOLV
      = Some (resolv_body [''10.66.0.1''])
    \<and> fs_read (snd (dns_restore False (demo_hosts [(RESOLV, ''a''), (RESOLV_BACKUP, ''b'')] [RESOLV]))) RESOLV_BACKUP = None"
proof -
  let ?h = "demo_hosts [] []" and ?h' = "demo_hosts [(RESOLV, ''a''), (RESOLV_BACKUP, ''b'')] [RESOLV]"
  have "files ?h RESOLV = None" "files ?h RESOLV_BACKUP = None" "fst (dns_install [''10.66.0.1''] ?h) = Inr False"
    by (simp_all add: dns_install_def demo_hosts_def fs_read_def fs_write_def)
  moreover have "denied ?h' RESOLV" "\<not> denied ?h' RESOLV_BACKUP" "fs_read ?h' RESOLV_BACKUP = Some ''b''"
    by (simp_all add: demo_hosts_def fs_read_def RESOLV_def RESOLV_BACKUP_def)
  ultimately show ?thesis
    using dns_restore_losses [of ?h "[''10.66.0.1'']" False "snd (dns_install [''10.66.0.1''] ?h)" ?h' "''b''"]
    by (simp add: prod_eq_iff)
qed

lemma default_route_takes_last_witness:
  "default_route (demo_net True (''default via 10.0.0.1 dev eth0 metric 100'' @ [CHR 0x0A] @ ''default via 192.168.1.1 dev wlan0 metric 600''))
     w = Inr (Ipv4Addr 192 168 1 1, ''wlan0'')"
proof -
  let ?t = "''default via 10.0.0.1 dev eth0 metric 100'' @ [CHR 0x0A] @ ''default via 192.168.1.1 dev wlan0 metric 600''"
  have "split_whitespace ?t = [''default'', ''via'', show_ipv4 (Ipv4Addr 10 0 0 1), ''dev'', ''eth0''] @ [''metric'', ''100'']
      @ [''default'', ''via'', show_ipv4 (Ipv4Addr 192 168 1 1), ''dev'', ''wlan0''] @ [''metric'', ''600'']"
    by code_simp
  then show ?thesis
    by (rule default_route_takes_last [rotated]) simp_all
qed

definition demo_opts :: route_opts where
  "demo_opts = \<lparr>ro_redirect_all = True, ro_kill_switch = True, ro_disable_ipv6 = True, ro_dns = []\<rparr>"

definition demo_server :: ipv4 where
  "demo_server = Ipv4Addr 203 0 113 7"

lemma demo_ks_install:
  "fst (ks_install (demo_net True demo_text) ip port tun (demo_machine [] [])) = Inr ()"
  by (simp add: ks_install_def ks_allow_def ks_append_def ks_conntrack_def ks_state_def ks_reject_def run_def run_ignore_def
      run_status_def invoke_def demo_exec_def demo_iptables_def demo_machine_def KS_CHAIN_def)

lemma kill_switch_fails_closed_witness:
  "\<exists>w' rules. ks_install (demo_net True demo_text) demo_server 51820 ''soulvpn'' (demo_machine [] []) = (Inr (), w')
    \<and> chain demo_view (kernel w') = Some rules
    \<and> (\<forall>p. chain_verdict rules p = Returned \<longrightarrow> op_iface p = ''lo'' \<or> op_iface p = ''soulvpn''
          \<or> op_dst p = demo_server \<and> op_proto p = ''udp'' \<and> op_dport p = 51820 \<or> op_established p)
    \<and> (\<exists>d f x. since w' (ks_drop (demo_net True demo_text) w') = zip ks_drop_cmds [d, f, x])"
proof -
  obtain w' where w': "ks_install (demo_net True demo_text) demo_server 51820 ''soulvpn'' (demo_machine [] []) = (Inr (), w')"
    using demo_ks_install by (metis prod.collapse)
  have none: "chain demo_view (kernel (demo_machine [] [])) = None" by (simp add: demo_view_def demo_machine_def)
  obtain stale rules flushed where k: "chain demo_view (kernel w') = Some (stale @ rules)"
    "stale = [] \<or> flushed \<noteq> Some True \<and> chain demo_view (kernel (demo_machine [] [])) = Some stale"
    "\<forall>p. chain_verdict (stale @ rules) p = Returned \<longrightarrow> op_iface p = ''lo'' \<or> op_iface p = ''soulvpn''
          \<or> op_dst p = demo_server \<and> op_proto p = ''udp'' \<and> op_dport p = 51820 \<or> op_established p
          \<or> (\<exists>r \<in> set stale. rule_matches r p)"
    "\<exists>d f x. since w' (ks_drop (demo_net True demo_text) w') = zip ks_drop_cmds [d, f, x]"
    using kill_switch_fails_closed [OF demo_firewall_lawful w'] by blast
  then have "stale = []" using none by simp
  then show ?thesis using k w' by simp
qed

definition demo_routes :: client_routes where
  "demo_routes = \<lparr>rt_server_host = Some demo_server, rt_via_gateway = Some (Ipv4Addr 10 0 0 1), rt_via_dev = Some ''eth0'',
     rt_redirect_all = True, rt_tun_name = ''soulvpn'', rt_kill_switch = Some (), rt_ipv6 = Some True, rt_dns = None\<rparr>"

lemma demo_install:
  obtains w' where "routes_install (demo_net True demo_text) (V4 demo_server port) ''soulvpn'' demo_opts (demo_machine fs ds)
      = (Inr demo_routes, w')"
    "set (full_tunnel ''replace'' ''soulvpn'') \<subseteq> set (map fst (issued w'))"
    "tun_routes ''soulvpn'' \<subseteq> set (dk_routes (kernel w'))"
proof -
  let ?E = "demo_net True demo_text"
  obtain w1 where w1: "run ?E (host_route ''replace'' demo_server (Ipv4Addr 10 0 0 1) ''eth0'') (demo_machine fs ds) = (Inr (), w1)"
    "dk_chain (kernel w1) = None" "dk_jumps (kernel w1) = 0"
    by (simp add: run_def invoke_def host_route_def demo_exec_def demo_ip_def demo_machine_def)
  obtain w2 where w2: "run_all ?E (full_tunnel ''replace'' ''soulvpn'') w1 = (Inr (), w2)"
    "dk_chain (kernel w2) = None" "dk_jumps (kernel w2) = 0"
    "set (full_tunnel ''replace'' ''soulvpn'') \<subseteq> set (map fst (issued w2))"
    "tun_routes ''soulvpn'' \<subseteq> set (dk_routes (kernel w2))"
    using w1(2,3) by (simp add: run_def invoke_def full_tunnel_def tun_routes_def demo_exec_def demo_ip_def)
  obtain w3 where w3: "ipv6_enable ?E w2 = (Inr True, w3)" "dk_chain (kernel w3) = None" "dk_jumps (kernel w3) = 0"
    "set (full_tunnel ''replace'' ''soulvpn'') \<subseteq> set (map fst (issued w3))"
    "tun_routes ''soulvpn'' \<subseteq> set (dk_routes (kernel w3))"
    using w2(2-) by (auto simp: ipv6_enable_def run_def invoke_def blackhole_def demo_exec_def demo_ip_def)
  have "fst (ks_install ?E demo_server port ''soulvpn'' w3) = Inr ()"
    using w3(2,3)
    by (simp add: ks_install_def ks_allow_def ks_append_def ks_conntrack_def ks_state_def ks_reject_def run_def run_ignore_def
      run_status_def invoke_def demo_exec_def demo_iptables_def KS_CHAIN_def)
  then obtain w4 where w4: "ks_install ?E demo_server port ''soulvpn'' w3 = (Inr (), w4)" by (metis prod.collapse)
  have 4: "set (dk_routes (kernel w4)) = set (dk_routes (kernel w3))"
    by (rule rt_ks_install [OF demo_routing_lawful w4])
  have g: "set (map fst (issued w3)) \<subseteq> set (map fst (issued w4))"
    using grows_ks_install [OF w4] by (auto simp: grows_def)
  show thesis
  proof (rule that)
    show "routes_install ?E (V4 demo_server port) ''soulvpn'' demo_opts (demo_machine fs ds) = (Inr demo_routes, w4)"
      using w1(1) w2(1) w3(1) w4
      by (simp add: routes_install_def install_extras_def demo_opts_def demo_default demo_routes_def del: run_all.simps)
    show "set (full_tunnel ''replace'' ''soulvpn'') \<subseteq> set (map fst (issued w4))" using w3(4) g by blast
    show "tun_routes ''soulvpn'' \<subseteq> set (dk_routes (kernel w4))" using w3(5) 4 by simp
  qed
qed

lemma host_route_first_witness:
  "\<exists>r w'. routes_install (demo_net True demo_text) (V4 demo_server 51820) ''soulvpn'' demo_opts (demo_machine [] []) = (r, w')
    \<and> (\<exists>gw dev. hd (issued w') = (host_route ''replace'' demo_server gw dev, Some True))"
proof -
  obtain w' where w': "routes_install (demo_net True demo_text) (V4 demo_server 51820) ''soulvpn'' demo_opts (demo_machine [] [])
      = (Inr demo_routes, w')"
    "set (full_tunnel ''replace'' ''soulvpn'') \<subseteq> set (map fst (issued w'))"
    by (rule demo_install)
  have "set (map fst (issued w')) \<inter> set (full_tunnel ''replace'' ''soulvpn'') \<noteq> {}"
    using w'(2) by (auto simp: full_tunnel_def)
  with host_route_first [OF w'(1)] w'(1) show ?thesis by (simp add: demo_machine_def)
qed

lemma toggle_roundtrip_witness:
  "\<exists>w st1 w1 st2 w2. routes_teardown (demo_net True demo_text) demo_routes w = (st1, w1)
    \<and> reenable_with_ks (demo_net True demo_text) (V4 demo_server 51820) True st1 w1 = (Inr (), st2, w2)
    \<and> map fst (since w w1) = ks_drop_cmds @ full_tunnel ''del'' ''soulvpn''
    \<and> tun_routes ''soulvpn'' \<subseteq> set (dk_routes (kernel w2))
    \<and> tun_routes ''soulvpn'' \<inter> set (dk_routes (kernel w1)) \<subseteq> undeleted (since w w1)"
proof -
  let ?E = "demo_net True demo_text"
  obtain w where w: "routes_install ?E (V4 demo_server 51820) ''soulvpn'' demo_opts (demo_machine [] []) = (Inr demo_routes, w)"
    "set (full_tunnel ''replace'' ''soulvpn'') \<subseteq> set (map fst (issued w))"
    "tun_routes ''soulvpn'' \<subseteq> set (dk_routes (kernel w))"
    by (rule demo_install)
  obtain st1 w1 where off: "routes_teardown ?E demo_routes w = (st1, w1)" by force
  have st: "rt_tun_name demo_routes = ''soulvpn''" "rt_redirect_all demo_routes" "rt_kill_switch demo_routes = Some ()"
    by (simp_all add: demo_routes_def)
  have st1: "rt_redirect_all st1" "rt_tun_name st1 = ''soulvpn''"
    using off by (auto simp: routes_teardown_def demo_routes_def)
  have "fst (reenable ?E st1 w1) = Inr ()"
    by (simp add: reenable_def st1 full_tunnel_def run_def invoke_def demo_exec_def demo_ip_def)
  then obtain w3 where w3: "reenable ?E st1 w1 = (Inr (), w3)" by (metis prod.collapse)
  have "fst (reenable_with_ks ?E (V4 demo_server 51820) True st1 w1) = Inr ()"
    by (simp add: reenable_with_ks_def w3 split: option.split sum.split prod.split)
  then obtain st2 w2 where on: "reenable_with_ks ?E (V4 demo_server 51820) True st1 w1 = (Inr (), st2, w2)"
    by (metis prod.collapse)
  have "map fst (since w w1) = ks_drop_cmds @ full_tunnel ''del'' ''soulvpn''
      \<and> tun_routes ''soulvpn'' \<subseteq> set (dk_routes (kernel w2))
      \<and> tun_routes ''soulvpn'' \<inter> set (dk_routes (kernel w1)) \<subseteq> undeleted (since w w1)"
    using toggle_roundtrip [OF demo_routing_lawful off on st(2)] unfolding st(1,3) by simp
  with off on show ?thesis by blast
qed

lemma kill_switch_failure_is_open_witness:
  "\<exists>st. fst (routes_install (demo_net False demo_text) (V4 demo_server 51820) ''soulvpn'' (demo_opts\<lparr>ro_kill_switch := True\<rparr>)
        (demo_machine [] [])) = Inr st \<and> rt_kill_switch st = None"
proof -
  let ?E = "demo_net False demo_text"
  have f: "\<forall>k args. fst (exec ?E k (''iptables'' # args)) \<noteq> Some True" by (simp add: demo_exec_def)
  have off: "\<exists>st. fst (routes_install ?E (V4 demo_server 51820) ''soulvpn'' (demo_opts\<lparr>ro_kill_switch := False\<rparr>)
      (demo_machine [] [])) = Inr st"
    by (simp add: routes_install_def install_extras_def demo_opts_def demo_default host_route_def full_tunnel_def run_def
        invoke_def demo_exec_def demo_ip_def ipv6_enable_def blackhole_def)
  show ?thesis
    using kill_switch_failure_is_open [OF f, of demo_server 51820 "''soulvpn''" demo_opts "demo_machine [] []"] off by metis
qed

end
