(* ===== verification/Server_Run.thy ===== *)
theory Server_Run
  imports Server_Props Route_Props Tun_Dev
begin

text \<open>
  The life of the server process: the subcommand \<open>server\<close> of \<open>src/src/main.rs\<close>, which loads the
  configuration and calls \<open>run\<close> of \<open>src/src/server.rs\<close>, the start-up of \<open>run\<close> up to the spawning
  of the tasks, and its end, where the NAT guard is dropped. The properties tie the configuration
  file to the state the tasks start from and so to every state they reach.
\<close>

section \<open>Start-up\<close>

datatype server_run_error =
    RunConfig config_error
  | BindFailed socket_addr
  | RunCreateTun
  | RunNat route_error

text \<open>What \<open>run\<close> holds once everything is set up.\<close>

record 't server_boot =
  sb_private :: bytes
  sb_state :: "'t server_state"
  sb_stats :: runtime_stats
  sb_tun_name :: string
  sb_nat :: "nat_guard option"
  sb_control_mode :: u32

text \<open>\<open>format!("{network}/{prefix}")\<close> of the tunnel network.\<close>

definition tunnel_cidr :: "ipv4 \<Rightarrow> u8 \<Rightarrow> string" where
  "tunnel_cidr addr prefix = show_ipv4 (ipv4_network addr prefix) @ ''/'' @ show_nat (unat prefix)"

definition nat_start :: "'k net_env \<Rightarrow> bool \<Rightarrow> string \<Rightarrow> 'k net \<Rightarrow> (route_error + nat_guard option) \<times> 'k net" where
  "nat_start env on cidr w =
     (if on then
        (case nat_setup env cidr w of (Inl e, w) \<Rightarrow> (Inl e, w) | (Inr g, w) \<Rightarrow> (Inr (Some g), w))
      else (Inr None, w))"

text \<open>
  \<open>bound\<close> says whether the UDP socket can be bound, \<open>dev_name\<close> is the name query of the device
  (\<open>None\<close>: it fails).
\<close>

definition server_run ::
  "(string \<Rightarrow> bytes option) \<Rightarrow> bool \<Rightarrow> (tun_config \<Rightarrow> 'd option) \<Rightarrow> ('d \<Rightarrow> string option) \<Rightarrow> 'k net_env
     \<Rightarrow> server_config \<Rightarrow> instant \<Rightarrow> wall_clock \<Rightarrow> 'k net \<Rightarrow> (server_run_error + 't server_boot) \<times> 'k net" where
  "server_run b64 bound create_as_async dev_name env cfg started wall w =
     (case server_load_private_key b64 (nhost w) cfg of
        Inl e \<Rightarrow> (Inl (RunConfig e), w)
      | Inr private \<Rightarrow>
     (case parse_cidr (sc_address cfg) of
        Inl e \<Rightarrow> (Inl (RunConfig e), w)
      | Inr (addr, prefix) \<Rightarrow>
     (case parse_mode (sc_control_mode cfg) of
        Inl e \<Rightarrow> (Inl (RunConfig e), w)
      | Inr control_mode \<Rightarrow>
     (case server_peers b64 (sc_peers cfg) hm_empty of
        Inl e \<Rightarrow> (Inl (RunConfig e), w)
      | Inr ps \<Rightarrow>
          let state = server_init ps (sc_handshake_rate_limit cfg) (sc_handshake_rate_window_secs cfg)
          in if \<not> bound then (Inl (BindFailed (sc_listen cfg)), w)
             else case tun_create create_as_async ''soulvpn0'' addr prefix (sc_mtu cfg) of
                 None \<Rightarrow> (Inl RunCreateTun, w)
               | Some tun \<Rightarrow>
                   let tun_name = (case dev_name tun of None \<Rightarrow> ''soulvpn0'' | Some s \<Rightarrow> s)
                   in case nat_start env (sc_nat cfg) (tunnel_cidr addr prefix) w of
                        (Inl e, w) \<Rightarrow> (Inl (RunNat e), w)
                      | (Inr guard, w) \<Rightarrow>
                          (Inr \<lparr>sb_private = private, sb_state = state,
                                sb_stats = stats_new Server (show_socket_addr (sc_listen cfg)) (sc_address cfg) tun_name
                                  started wall,
                                sb_tun_name = tun_name, sb_nat = guard, sb_control_mode = control_mode\<rparr>, w)))))"

text \<open>The subcommand: the file is loaded, checks included, and then run.\<close>

definition cmd_server ::
  "(string \<Rightarrow> server_table option) \<Rightarrow> (string \<Rightarrow> bytes option) \<Rightarrow> bool \<Rightarrow> (tun_config \<Rightarrow> 'd option)
     \<Rightarrow> ('d \<Rightarrow> string option) \<Rightarrow> 'k net_env \<Rightarrow> string \<Rightarrow> instant \<Rightarrow> wall_clock \<Rightarrow> 'k net
     \<Rightarrow> (server_run_error + server_config \<times> 't server_boot) \<times> 'k net" where
  "cmd_server toml_server b64 bound create_as_async dev_name env path started wall w =
     (case server_load toml_server b64 (nhost w) path of
        Inl e \<Rightarrow> (Inl (RunConfig e), w)
      | Inr cfg \<Rightarrow>
          (case server_run b64 bound create_as_async dev_name env cfg started wall w of
             (Inl e, w) \<Rightarrow> (Inl e, w)
           | (Inr boot, w) \<Rightarrow> (Inr (cfg, boot), w)))"

text \<open>When \<open>run\<close> returns, after Ctrl-C or the end of a task, \<open>_nat_guard\<close> is dropped.\<close>

definition server_stop :: "'k net_env \<Rightarrow> 't server_boot \<Rightarrow> 'k net \<Rightarrow> 'k net" where
  "server_stop env boot w = (case sb_nat boot of None \<Rightarrow> w | Some g \<Rightarrow> nat_drop env g w)"

text \<open>The tasks as they are spawned: nothing received, nothing sent.\<close>

definition boot_world :: "'t server_boot \<Rightarrow> 't server_world" where
  "boot_world boot =
     \<lparr>w_state = sb_state boot, w_stats = sb_stats boot, w_down = DownIdle, w_up = UpIdle, w_tun = [], w_net = []\<rparr>"

section \<open>The peer table\<close>

text \<open>Over decoded peers with distinct keys the loop of \<open>run\<close> builds exactly their table.\<close>

lemma server_peers_valid:
  assumes "map (\<lambda>p. parse_ipv4 (allowed_ip p)) ps = map Inr tips"
    and "map (\<lambda>p. decode_key b64 (public_key p)) ps = map Inr keys" "distinct keys"
  shows "\<exists>m'. server_peers b64 ps m = Inr m'
    \<and> hm_get m' = hm_get m ++ map_of (zip keys (map peer_meta.make tips))"
  using assms
proof (induction ps arbitrary: tips keys m)
  case Nil
  then show ?case by simp
next
  case (Cons p ps)
  then obtain t ts k ks where e: "tips = t # ts" "keys = k # ks" "parse_ipv4 (allowed_ip p) = Inr t"
    "decode_key b64 (public_key p) = Inr k" by (cases tips; cases keys) auto
  have meta: "\<lparr>pm_tunnel_ip = t\<rparr> = peer_meta.make t" by (simp add: peer_meta.defs)
  obtain m' where m': "server_peers b64 ps (hm_insert k \<lparr>pm_tunnel_ip = t\<rparr> m) = Inr m'"
    "hm_get m' = hm_get (hm_insert k \<lparr>pm_tunnel_ip = t\<rparr> m) ++ map_of (zip ks (map peer_meta.make ts))"
    using Cons.IH [of ts ks] Cons.prems e by auto
  have "k \<notin> dom (map_of (zip ks (map peer_meta.make ts)))"
    using Cons.prems e by (auto dest: set_zip_leftD map_of_SomeD)
  then have "hm_get m' = hm_get m ++ map_of (zip keys (map peer_meta.make tips))"
    using e by (simp add: m'(2) update_conv' meta map_add_upd_left)
  moreover have "server_peers b64 (p # ps) m = Inr m'" using m'(1) e by simp
  ultimately show ?case by blast
qed

lemma map_of_zip_iff:
  assumes "length ks = length vs" "distinct ks"
  shows "map_of (zip ks vs) k = Some v \<longleftrightarrow> (\<exists>i < length ks. ks ! i = k \<and> vs ! i = v)"
  using assms by (auto simp: set_zip)

text \<open>What the configuration check has established, in the terms of the start-up.\<close>

lemma loaded_config:
  assumes "server_load toml b64 h path = Inr cfg"
  obtains priv addr prefix control_mode ps tips keys where
    "server_load_private_key b64 h cfg = Inr priv" "parse_cidr (sc_address cfg) = Inr (addr, prefix)"
    "parse_mode (sc_control_mode cfg) = Inr control_mode"
    "peers_valid b64 addr prefix (sc_peers cfg) tips keys" "server_peers b64 (sc_peers cfg) hm_empty = Inr ps"
    "hm_get ps = map_of (zip keys (map peer_meta.make tips))"
proof -
  obtain priv addr prefix control_mode tips keys where l: "server_load_private_key b64 h cfg = Inr priv"
    "parse_cidr (sc_address cfg) = Inr (addr, prefix)" "parse_mode (sc_control_mode cfg) = Inr control_mode"
    "peers_valid b64 addr prefix (sc_peers cfg) tips keys"
    using assms
    by (auto simp: server_load_def check_peers_ok split: option.splits sum.splits if_splits prod.splits)
  moreover obtain ps where "server_peers b64 (sc_peers cfg) hm_empty = Inr ps"
    "hm_get ps = map_of (zip keys (map peer_meta.make tips))"
    using server_peers_valid [of "sc_peers cfg" tips b64 keys "[]"] l(4) by (auto simp: peers_valid_def)
  ultimately show thesis by (rule that)
qed

text \<open>The peers of a valid configuration, as the table holds them.\<close>

lemma peer_table_iff:
  assumes v: "peers_valid b64 addr prefix ps tips keys" and get: "hm_get m = map_of (zip keys (map peer_meta.make tips))"
  shows "hm_get m pk = Some meta \<longleftrightarrow>
    (\<exists>p \<in> set ps. decode_key b64 (public_key p) = Inr pk \<and> parse_ipv4 (allowed_ip p) = Inr (pm_tunnel_ip meta))"
proof -
  have t: "map (\<lambda>p. parse_ipv4 (allowed_ip p)) ps = map Inr tips" and k: "map (\<lambda>p. decode_key b64 (public_key p)) ps = map Inr keys"
    and d: "distinct keys" using v by (simp_all add: peers_valid_def)
  have len: "length tips = length ps" "length keys = length ps"
    using t k by (metis length_map)+
  have nth: "parse_ipv4 (allowed_ip (ps ! i)) = Inr (tips ! i)" "decode_key b64 (public_key (ps ! i)) = Inr (keys ! i)"
    if "i < length ps" for i
    using arg_cong [OF t, of "\<lambda>l. l ! i"] arg_cong [OF k, of "\<lambda>l. l ! i"] that len by simp_all
  have meta: "peer_meta.make a = meta \<longleftrightarrow> a = pm_tunnel_ip meta" for a
    by (cases meta) (simp add: peer_meta.defs)
  have "hm_get m pk = Some meta \<longleftrightarrow> (\<exists>i < length keys. keys ! i = pk \<and> map peer_meta.make tips ! i = meta)"
    unfolding get using len d by (intro map_of_zip_iff) simp_all
  also have "\<dots> \<longleftrightarrow> (\<exists>i < length ps. keys ! i = pk \<and> tips ! i = pm_tunnel_ip meta)"
    using len by (simp add: meta cong: conj_cong)
  also have "\<dots> \<longleftrightarrow> (\<exists>p \<in> set ps. decode_key b64 (public_key p) = Inr pk
      \<and> parse_ipv4 (allowed_ip p) = Inr (pm_tunnel_ip meta))"
    using nth by (auto simp: Bex_def in_set_conv_nth)
  finally show ?thesis .
qed

section \<open>Properties\<close>

lemma cmd_server_ok:
  assumes "cmd_server toml b64 bound mk dev_name env path started wall w = (Inr (cfg, boot), w')"
  obtains addr prefix guard tips keys where "server_load toml b64 (nhost w) path = Inr cfg"
    "nat_start env (sc_nat cfg) (tunnel_cidr addr prefix) w = (Inr guard, w')"
    "peers_valid b64 addr prefix (sc_peers cfg) tips keys" "parse_cidr (sc_address cfg) = Inr (addr, prefix)"
    "hm_get (peers (sb_state boot)) = map_of (zip keys (map peer_meta.make tips))"
    "sb_state boot = server_init (peers (sb_state boot)) (sc_handshake_rate_limit cfg) (sc_handshake_rate_window_secs cfg)"
    "sb_nat boot = guard" "rs_enabled (sb_stats boot)"
proof -
  have load: "server_load toml b64 (nhost w) path = Inr cfg"
    using assms by (auto simp: cmd_server_def split: sum.splits prod.splits)
  obtain priv addr prefix m ps tips keys where c: "server_load_private_key b64 (nhost w) cfg = Inr priv"
    "parse_cidr (sc_address cfg) = Inr (addr, prefix)" "parse_mode (sc_control_mode cfg) = Inr m"
    "peers_valid b64 addr prefix (sc_peers cfg) tips keys" "server_peers b64 (sc_peers cfg) hm_empty = Inr ps"
    "hm_get ps = map_of (zip keys (map peer_meta.make tips))"
    by (rule loaded_config [OF load])
  have run: "server_run b64 bound mk dev_name env cfg started wall w = (Inr boot, w')"
    using assms load by (simp add: cmd_server_def split: sum.splits prod.splits)
  then obtain guard where g: "nat_start env (sc_nat cfg) (tunnel_cidr addr prefix) w = (Inr guard, w')"
    "sb_nat boot = guard"
    "sb_state boot = server_init ps (sc_handshake_rate_limit cfg) (sc_handshake_rate_window_secs cfg)"
    "rs_enabled (sb_stats boot)"
    by (auto simp: server_run_def c stats_new_def Let_def split: if_splits option.splits sum.splits prod.splits)
  moreover have "peers (sb_state boot) = ps" using g(3) by (simp add: server_init_def)
  ultimately show thesis using load c that by simp
qed

text \<open>C38: Once the configuration file has loaded, starting the server fails only for what its
  environment refuses: the UDP port, the TUN device, or NAT when it is configured. The key, the
  network, the control mode and the peers are read again by \<open>run\<close>, and that cannot fail.\<close>

theorem only_environment_stops_start:
  assumes "server_load toml b64 (nhost w) path = Inr cfg"
    and "cmd_server toml b64 bound mk dev_name env path started wall w = (Inl e, w')"
  shows "(e = BindFailed (sc_listen cfg) \<and> \<not> bound \<and> w' = w) \<or> (e = RunCreateTun \<and> bound \<and> w' = w)
    \<or> (sc_nat cfg \<and> (\<exists>r. e = RunNat r))"
proof -
  obtain priv addr prefix m ps tips keys where c: "server_load_private_key b64 (nhost w) cfg = Inr priv"
    "parse_cidr (sc_address cfg) = Inr (addr, prefix)" "parse_mode (sc_control_mode cfg) = Inr m"
    "peers_valid b64 addr prefix (sc_peers cfg) tips keys" "server_peers b64 (sc_peers cfg) hm_empty = Inr ps"
    "hm_get ps = map_of (zip keys (map peer_meta.make tips))"
    by (rule loaded_config [OF assms(1)])
  show ?thesis
    using assms
    by (auto simp: cmd_server_def server_run_def c nat_start_def Let_def
        split: if_splits option.splits sum.splits prod.splits)
qed

text \<open>C8: From the configuration file to the TUN device. A server that starts holds exactly the peers
  of its file, by decoded key and tunnel address; its tasks start in a state to which the
  invariants apply; and in every state they reach, a packet written to the TUN device carries as
  its source the address the file allows to some peer, which lies in the tunnel network and is not
  the server's own.\<close>

theorem server_serves_config:
  assumes "cmd_server toml b64 bound mk dev_name env path started wall w = (Inr (cfg, boot), w')"
    and "remote_stable api"
  shows "server_start (peers (sb_state boot)) (sc_handshake_rate_limit cfg) (sc_handshake_rate_window_secs cfg)
      (boot_world boot)
    \<and> (\<forall>pk meta. hm_get (peers (sb_state boot)) pk = Some meta \<longleftrightarrow> (\<exists>p \<in> set (sc_peers cfg).
        decode_key b64 (public_key p) = Inr pk \<and> parse_ipv4 (allowed_ip p) = Inr (pm_tunnel_ip meta)))
    \<and> (\<forall>s tip pkt. reach (server_start (peers (sb_state boot)) (sc_handshake_rate_limit cfg)
          (sc_handshake_rate_window_secs cfg)) (server_step hapi api (sb_private boot) (sc_session_idle_secs cfg)) s
        \<and> (tip, pkt) \<in> set (w_tun s) \<longrightarrow>
        ipv4_src pkt = Some tip
        \<and> (\<exists>p \<in> set (sc_peers cfg). \<exists>addr prefix. parse_ipv4 (allowed_ip p) = Inr tip
             \<and> parse_cidr (sc_address cfg) = Inr (addr, prefix)
             \<and> ip_in_network tip (network_addr addr prefix) prefix \<and> tip \<noteq> addr))"
proof -
  obtain addr prefix guard tips keys where c: "server_load toml b64 (nhost w) path = Inr cfg"
    "peers_valid b64 addr prefix (sc_peers cfg) tips keys" "parse_cidr (sc_address cfg) = Inr (addr, prefix)"
    "hm_get (peers (sb_state boot)) = map_of (zip keys (map peer_meta.make tips))"
    "sb_state boot = server_init (peers (sb_state boot)) (sc_handshake_rate_limit cfg) (sc_handshake_rate_window_secs cfg)"
    "rs_enabled (sb_stats boot)"
    by (rule cmd_server_ok [OF assms(1)])
  note table = peer_table_iff [OF c(2,4)]
  have in_net: "ip_in_network tip (network_addr addr prefix) prefix \<and> tip \<noteq> addr"
    if p: "p \<in> set (sc_peers cfg)" "parse_ipv4 (allowed_ip p) = Inr tip" for p tip
  proof -
    have v: "map (\<lambda>p. parse_ipv4 (allowed_ip p)) (sc_peers cfg) = map Inr tips"
      "\<forall>t \<in> set tips. ip_in_network t (network_addr addr prefix) prefix \<and> t \<noteq> addr"
      using c(2) by (simp_all add: peers_valid_def)
    have "Inr tip \<in> set (map (\<lambda>p. parse_ipv4 (allowed_ip p)) (sc_peers cfg))"
      using p by (metis (mono_tags, lifting) image_eqI list.set_map)
    then have "tip \<in> set tips" unfolding v(1) by auto
    then show ?thesis using v(2) by blast
  qed
  have "ipv4_src pkt = Some tip
      \<and> (\<exists>p \<in> set (sc_peers cfg). parse_ipv4 (allowed_ip p) = Inr tip)"
    if "reach (server_start (peers (sb_state boot)) (sc_handshake_rate_limit cfg)
          (sc_handshake_rate_window_secs cfg)) (server_step hapi api (sb_private boot) (sc_session_idle_secs cfg)) s"
      "(tip, pkt) \<in> set (w_tun s)" for s tip pkt
    using srv.reach_inv [OF that(1)] assms(2) that(2)
    by (fastforce simp: server_inv_def configured_def table)
  then have "\<forall>s tip pkt. reach (server_start (peers (sb_state boot)) (sc_handshake_rate_limit cfg)
          (sc_handshake_rate_window_secs cfg)) (server_step hapi api (sb_private boot) (sc_session_idle_secs cfg)) s
        \<and> (tip, pkt) \<in> set (w_tun s) \<longrightarrow>
        ipv4_src pkt = Some tip
        \<and> (\<exists>p \<in> set (sc_peers cfg). \<exists>addr prefix. parse_ipv4 (allowed_ip p) = Inr tip
             \<and> parse_cidr (sc_address cfg) = Inr (addr, prefix)
             \<and> ip_in_network tip (network_addr addr prefix) prefix \<and> tip \<noteq> addr)"
    using in_net c(3) by blast
  moreover have "server_start (peers (sb_state boot)) (sc_handshake_rate_limit cfg)
      (sc_handshake_rate_window_secs cfg) (boot_world boot)"
    unfolding server_start_def boot_world_def using c(5,6) by simp
  ultimately show ?thesis using table by blast
qed

text \<open>A server that is started and stopped leaves the machine's files as they were: the forwarding
  switch reads what it read before, whether or not NAT was configured.\<close>

theorem server_stop_restores_files:
  assumes "cmd_server toml b64 bound mk dev_name env path started wall w = (Inr (cfg, boot), w')"
    and "fs_read (nhost w) ip_forward = Some prev"
  shows "fs_read (nhost (server_stop env boot w')) ip_forward = Some prev
    \<and> (\<forall>q. q \<noteq> ip_forward \<longrightarrow> files (nhost (server_stop env boot w')) q = files (nhost w) q)"
proof -
  obtain addr prefix guard where c: "nat_start env (sc_nat cfg) (tunnel_cidr addr prefix) w = (Inr guard, w')"
    "sb_nat boot = guard"
    by (rule cmd_server_ok [OF assms(1)])
  show ?thesis
  proof (cases guard)
    case None
    then show ?thesis using c assms(2)
      by (auto simp: server_stop_def nat_start_def split: if_splits prod.splits sum.splits)
  next
    case (Some g)
    then have "nat_setup env (tunnel_cidr addr prefix) w = (Inr g, w')"
      using c by (auto simp: nat_start_def split: if_splits prod.splits sum.splits)
    from nat_guard_undone [OF this assms(2)] show ?thesis using c(2) Some by (simp add: server_stop_def)
  qed
qed

section \<open>Witnesses\<close>

text \<open>The file of \<open>demo_server_config\<close>, NAT switched on, with the keys of the running example of \<open>Server_Props\<close>.\<close>

definition run_b64 :: "string \<Rightarrow> bytes option" where
  "run_b64 s = (if s = ''K'' then Some demo_server_key else if s = ''P'' then Some demo_key else None)"

definition run_table :: server_table where
  "run_table = demo_server_table\<lparr>st_nat := Some True\<rparr>"

definition run_cfg :: server_config where
  "run_cfg = the (server_of_table run_table)"

definition run_machine :: "demo_kernel net" where
  "run_machine = demo_machine [(''server.toml'', ''''), (ip_forward, ''0'')] []"

definition run_boot :: "demo_transport server_boot" where
  "run_boot = \<lparr>sb_private = demo_server_key, sb_state = server_init demo_peers 10 10, sb_stats = demo_stats,
     sb_tun_name = ''soulvpn0'',
     sb_nat = Some \<lparr>nat_tun_cidr = ''10.66.66.0/24'', nat_egress = ''eth0'', nat_prev_forward = Some ''0'',
       nat_rule_added = True\<rparr>,
     sb_control_mode = 384\<rparr>"

abbreviation run_server :: "bool \<Rightarrow> demo_kernel net
    \<Rightarrow> (server_run_error + server_config \<times> demo_transport server_boot) \<times> demo_kernel net" where
  "run_server bound \<equiv> cmd_server (\<lambda>_. Some run_table) run_b64 bound Some (\<lambda>_. None)
     (demo_net True demo_text) ''server.toml'' 0 (Some 0)"

lemma run_parsed:
  "decode_key run_b64 ''K'' = Inr demo_server_key" "decode_key run_b64 ''P'' = Inr demo_key"
  "parse_ipv4 ''10.66.66.2'' = Inr (Ipv4Addr 10 66 66 2)"
  "parse_cidr ''10.66.66.1/24'' = Inr (Ipv4Addr 10 66 66 1, 24)"
  by code_simp+

lemma run_mode: "parse_mode ''0600'' = Inr 384"
  by (simp add: parse_mode_def trim_def ascii_ws_def ws2_def ws3_def parse_unsigned_def to_digit_def)

lemma run_config:
  "sc_listen run_cfg = V4 (Ipv4Addr 0 0 0 0) 51820"
  "sc_private_key run_cfg = Some ''K''" "sc_private_key_file run_cfg = None"
  "sc_address run_cfg = ''10.66.66.1/24''" "sc_mtu run_cfg = 1400"
  "sc_nat run_cfg" "sc_handshake_rate_limit run_cfg = 10"
  "sc_handshake_rate_window_secs run_cfg = 10" "sc_session_idle_secs run_cfg = 180"
  "sc_control_mode run_cfg = ''0600''"
  "sc_peers run_cfg = [\<lparr>public_key = ''P'', allowed_ip = ''10.66.66.2''\<rparr>]"
  by (simp_all add: run_cfg_def run_table_def demo_server_table_def server_of_table_def or_default_def
      default_mtu_def default_true_def default_hs_rate_def default_hs_window_def default_session_idle_def
      default_control_mode_def)

lemma run_load:
  "server_load (\<lambda>_. Some run_table) run_b64 (nhost run_machine) ''server.toml'' = Inr run_cfg"
proof -
  have "fs_read_to_string (nhost run_machine) ''server.toml'' = Some ''''"
    by (simp add: run_machine_def demo_machine_def demo_hosts_def fs_read_to_string_def)
  moreover have "server_of_table run_table = Some run_cfg"
    by (simp add: run_cfg_def run_table_def server_of_table_def demo_server_table_def)
  moreover have "network_addr (Ipv4Addr 10 66 66 1) 24 = Ipv4Addr 10 66 66 0"
    "ip_in_network (Ipv4Addr 10 66 66 2) (Ipv4Addr 10 66 66 0) 24"
    by (simp_all add: network_addr_def ip_in_network_def ipv4_eval)
  ultimately show ?thesis
    by (simp add: server_load_def run_config run_parsed run_mode resolve_key_inline_def server_load_private_key_def
        load_key_material_def)
qed

lemma run_cidr: "tunnel_cidr (Ipv4Addr 10 66 66 1) 24 = ''10.66.66.0/24''"
proof -
  have "ipv4_network (Ipv4Addr 10 66 66 1) 24 = Ipv4Addr 10 66 66 0"
    by (simp add: ipv4_network_def ipv4_eval)
  moreover have "show_ipv4 (Ipv4Addr 10 66 66 0) @ ''/'' @ show_nat (unat (24 :: u8)) = ''10.66.66.0/24''"
    by code_simp
  ultimately show ?thesis by (simp add: tunnel_cidr_def)
qed

lemma run_nat:
  "fst (nat_setup (demo_net True demo_text) ''10.66.66.0/24'' run_machine)
     = Inr \<lparr>nat_tun_cidr = ''10.66.66.0/24'', nat_egress = ''eth0'', nat_prev_forward = Some ''0'', nat_rule_added = True\<rparr>"
  by (simp add: run_machine_def nat_setup_def default_egress_dev_def demo_default demo_machine_def demo_hosts_def
      fs_write_def fs_read_def run_status_def run_def invoke_def demo_exec_def demo_iptables_def masquerade_def
      ip_forward_def Let_def)

lemma run_listen: "show_nat 0 = ''0''" "show_nat 51820 = ''51820''"
proof -
  have "digits_of 10 51820 = [5, 1, 8, 2, 0]" by (simp add: digits_of.simps)
  moreover have "map digit_char [5, 1, 8, 2, 0] = ''51820''" "show_nat 0 = ''0''" by code_simp+
  ultimately show "show_nat 0 = ''0''" "show_nat 51820 = ''51820''" by (simp_all add: show_radix_def)
qed

lemma run_started: "\<exists>w. run_server True run_machine = (Inr (run_cfg, run_boot), w)"
proof -
  obtain w where w: "nat_setup (demo_net True demo_text) ''10.66.66.0/24'' run_machine
      = (Inr \<lparr>nat_tun_cidr = ''10.66.66.0/24'', nat_egress = ''eth0'', nat_prev_forward = Some ''0'',
          nat_rule_added = True\<rparr>, w)"
    using run_nat by (metis prod.collapse)
  have "server_load_private_key run_b64 (nhost run_machine) run_cfg = Inr demo_server_key"
    by (simp add: server_load_private_key_def load_key_material_def resolve_key_inline_def run_config run_parsed)
  moreover have "server_peers run_b64 (sc_peers run_cfg) hm_empty = Inr demo_peers"
    by (simp add: run_config run_parsed demo_peers_def demo_tip_def)
  moreover have "tun_create Some ''soulvpn0'' a p m = Some \<lparr>tun_name = ''soulvpn0'', tun_address = a,
      tun_netmask = prefix_to_netmask p, tun_mtu = m, tun_up = True\<rparr>" for a p m
    by (simp add: tun_create_def)
  ultimately have "run_server True run_machine = (Inr (run_cfg, run_boot), w)"
    by (simp add: cmd_server_def run_load server_run_def run_config run_parsed run_mode run_cidr nat_start_def w
        run_boot_def demo_stats_def run_listen Let_def)
  then show ?thesis by blast
qed

theorem only_environment_stops_start_witness:
  "\<exists>w. run_server False run_machine = (Inl (BindFailed (sc_listen run_cfg)), w) \<and> w = run_machine"
proof -
  have "server_load_private_key run_b64 (nhost run_machine) run_cfg = Inr demo_server_key"
    by (simp add: server_load_private_key_def load_key_material_def resolve_key_inline_def run_config run_parsed)
  then have "run_server False run_machine = (Inl (BindFailed (sc_listen run_cfg)), run_machine)"
    by (simp add: cmd_server_def run_load server_run_def run_config run_parsed run_mode Let_def)
  from only_environment_stops_start [OF run_load this] this show ?thesis by blast
qed

theorem server_serves_config_witness:
  "\<exists>s. reach (server_start demo_peers 10 10) (server_step demo_hapi demo_api demo_server_key 180) s
     \<and> (demo_tip, demo_inner) \<in> set (w_tun s) \<and> ipv4_src demo_inner = Some demo_tip
     \<and> (\<exists>p \<in> set (sc_peers run_cfg). parse_ipv4 (allowed_ip p) = Inr demo_tip)"
proof -
  obtain w where w: "run_server True run_machine = (Inr (run_cfg, run_boot), w)" using run_started by blast
  have "peers (sb_state run_boot) = demo_peers" "sb_private run_boot = demo_server_key"
    by (simp_all add: run_boot_def server_init_def)
  with server_serves_config [OF w demo_remote_stable, of demo_hapi] demo_delivered show ?thesis
    unfolding run_config(7-9) by metis
qed

theorem server_stop_restores_files_witness:
  "\<exists>w. run_server True run_machine = (Inr (run_cfg, run_boot), w)
     \<and> fs_read (nhost (server_stop (demo_net True demo_text) run_boot w)) ip_forward = Some ''0''"
proof -
  obtain w where w: "run_server True run_machine = (Inr (run_cfg, run_boot), w)" using run_started by blast
  have "fs_read (nhost run_machine) ip_forward = Some ''0''"
    by (simp add: run_machine_def demo_machine_def demo_hosts_def fs_read_def ip_forward_def)
  from server_stop_restores_files [OF w this] w show ?thesis by blast
qed

end
