(* ===== verification/Control.thy ===== *)
theory Control
  imports Stats Config
begin

text \<open>
  The control socket of \<open>src/src/control.rs\<close>: length-prefixed JSON frames over a Unix stream,
  the handler of one client with its effect on the runtime stats and the enable hook, the
  command-line side, and the mode of the socket file. \<open>serde_json\<close> is a parameter (\<open>codec\<close>);
  a stream is the list of bytes that arrive before the other end closes it.
\<close>

record control_response =
  cr_ok :: bool
  cr_status :: "status_snapshot option"
  cr_error :: "string option"
  cr_message :: "string option"

datatype control_error =
    ReadFrameLength
  | InvalidFrameLength nat
  | ReadFrameBody
  | ParseJson
  | EncodeJson
  | ConnectSocket string
  | Refused string
  | MissingStatus
  | CreateControlDir
  | BindSocket string
  | SocketMode u32

record codec =
  enc_request :: "string \<Rightarrow> bytes option"
  dec_request :: "bytes \<Rightarrow> string option"
  enc_response :: "control_response \<Rightarrow> bytes option"
  dec_response :: "bytes \<Rightarrow> control_response option"

section \<open>Frames\<close>

text \<open>\<open>AsyncReadExt::read_exact\<close>.\<close>

definition read_exact :: "nat \<Rightarrow> bytes \<Rightarrow> (bytes \<times> bytes) option" where
  "read_exact n stream = (if n \<le> length stream then Some (take n stream, drop n stream) else None)"

definition read_msg :: "(bytes \<Rightarrow> 'a option) \<Rightarrow> bytes \<Rightarrow> control_error + 'a \<times> bytes" where
  "read_msg decode stream =
     (case read_exact 4 stream of
        None \<Rightarrow> Inl ReadFrameLength
      | Some (len_buf, stream) \<Rightarrow>
          let len = unat (u32_from_le len_buf)
          in if len = 0 \<or> 2 ^ 20 < len then Inl (InvalidFrameLength len)
             else case read_exact len stream of
                 None \<Rightarrow> Inl ReadFrameBody
               | Some (body, stream) \<Rightarrow>
                   (case decode body of None \<Rightarrow> Inl ParseJson | Some x \<Rightarrow> Inr (x, stream)))"

text \<open>The bytes \<open>write_msg\<close> puts on the stream; the length is cast to \<open>u32\<close>.\<close>

definition write_msg :: "('a \<Rightarrow> bytes option) \<Rightarrow> 'a \<Rightarrow> control_error + bytes" where
  "write_msg encode msg =
     (case encode msg of
        None \<Rightarrow> Inl EncodeJson
      | Some body \<Rightarrow> Inr (u32_to_le (of_nat (length body)) @ body))"

section \<open>The daemon\<close>

text \<open>
  The reply to one operation, with the new stats and the call of the enable hook it makes, if
  any. \<open>wall\<close> and \<open>now\<close> are the clocks at the toggle and at the snapshot.
\<close>

definition control_reply ::
  "u32 \<Rightarrow> wall_clock \<Rightarrow> instant \<Rightarrow> runtime_stats \<Rightarrow> string
     \<Rightarrow> control_response \<times> runtime_stats \<times> bool option" where
  "control_reply pid wall now stats op =
     (if op = ''status'' then
        (\<lparr>cr_ok = True, cr_status = Some (snapshot pid now stats), cr_error = None, cr_message = None\<rparr>,
         stats, None)
      else if op = ''on'' then
        let (stats, hook) = (if \<not> is_enabled stats then (set_enabled wall True stats, Some True) else (stats, None))
        in (\<lparr>cr_ok = True, cr_status = Some (snapshot pid now stats), cr_error = None,
             cr_message = Some ''enabled''\<rparr>, stats, hook)
      else if op = ''off'' then
        let (stats, hook) = (if is_enabled stats then (set_enabled wall False stats, Some False) else (stats, None))
        in (\<lparr>cr_ok = True, cr_status = Some (snapshot pid now stats), cr_error = None,
             cr_message = Some ''disabled''\<rparr>, stats, hook)
      else
        (\<lparr>cr_ok = False, cr_status = None, cr_error = Some (''unknown op: '' @ op), cr_message = None\<rparr>,
         stats, None))"

text \<open>One accepted connection: the answer it writes, the stats and the hook call.\<close>

definition handle_client ::
  "codec \<Rightarrow> u32 \<Rightarrow> wall_clock \<Rightarrow> instant \<Rightarrow> bytes \<Rightarrow> runtime_stats
     \<Rightarrow> (control_error + bytes) \<times> runtime_stats \<times> bool option" where
  "handle_client codec pid wall now stream stats =
     (case read_msg (dec_request codec) stream of
        Inl e \<Rightarrow> (Inl e, stats, None)
      | Inr (op, _) \<Rightarrow>
          let (resp, stats, hook) = control_reply pid wall now stats op
          in (write_msg (enc_response codec) resp, stats, hook))"

section \<open>The command line\<close>

text \<open>What \<open>request\<close> makes of the bytes the daemon answers.\<close>

definition read_reply :: "codec \<Rightarrow> bytes \<Rightarrow> control_error + status_snapshot" where
  "read_reply codec stream =
     (case read_msg (dec_response codec) stream of
        Inl e \<Rightarrow> Inl e
      | Inr (resp, _) \<Rightarrow>
          if \<not> cr_ok resp
          then Inl (Refused (case cr_error resp of None \<Rightarrow> ''control request failed'' | Some e \<Rightarrow> e))
          else case cr_status resp of None \<Rightarrow> Inl MissingStatus | Some s \<Rightarrow> Inr s)"

text \<open>
  \<open>request\<close> over a daemon given as a function from the bytes it receives to the bytes it
  answers; \<open>None\<close> is a socket that does not accept the connection.
\<close>

definition request ::
  "codec \<Rightarrow> string \<Rightarrow> (bytes \<Rightarrow> bytes) option \<Rightarrow> string \<Rightarrow> control_error + status_snapshot" where
  "request codec path daemon op =
     (case daemon of
        None \<Rightarrow> Inl (ConnectSocket path)
      | Some answer \<Rightarrow>
          (case write_msg (enc_request codec) op of
             Inl e \<Rightarrow> Inl e
           | Inr sent \<Rightarrow> read_reply codec (answer sent)))"

section \<open>The socket file\<close>

definition DEFAULT_CONTROL_SOCKET :: string where
  "DEFAULT_CONTROL_SOCKET = ''/run/soulvpn/control.sock''"

text \<open>\<open>env\<close> is the value of \<open>SOULVPN_CONTROL_MODE\<close>.\<close>

definition resolve_control_mode :: "string option \<Rightarrow> u32 \<Rightarrow> u32" where
  "resolve_control_mode env from_config =
     (case env of
        None \<Rightarrow> from_config
      | Some s \<Rightarrow> (case parse_mode s of Inl _ \<Rightarrow> from_config | Inr m \<Rightarrow> m))"

text \<open>
  The start of \<open>serve\<close>: create the directory (\<open>dir_ok\<close>), remove a stale socket, bind, which
  creates the socket file under the umask and fails while the path exists, and set its mode.
\<close>

definition bind_socket :: "host \<Rightarrow> string \<Rightarrow> host option" where
  "bind_socket h path =
     (if fs_exists h path \<or> denied h path then None
      else Some (h\<lparr>files := (files h)(path \<mapsto>
        \<lparr>content = [], utf8 = True, readable = True, mode = perm 7 7 7 AND NOT (umask h)\<rparr>)\<rparr>))"

definition serve_setup ::
  "bool \<Rightarrow> string option \<Rightarrow> u32 \<Rightarrow> string \<Rightarrow> host \<Rightarrow> control_error + host" where
  "serve_setup dir_ok env from_config path h =
     (if \<not> dir_ok then Inl CreateControlDir
      else
        let h = (case fs_remove h path of None \<Rightarrow> h | Some h' \<Rightarrow> h')
        in case bind_socket h path of
             None \<Rightarrow> Inl (BindSocket path)
           | Some h \<Rightarrow>
               let m = resolve_control_mode env from_config
               in case fs_set_mode h path m of
                    None \<Rightarrow> Inl (SocketMode m)
                  | Some h \<Rightarrow> Inr h)"

definition serve_shutdown :: "string \<Rightarrow> host \<Rightarrow> host" where
  "serve_shutdown path h = (case fs_remove h path of None \<Rightarrow> h | Some h' \<Rightarrow> h')"

section \<open>Lemmas\<close>

definition codec_lawful :: "codec \<Rightarrow> bool" where
  "codec_lawful c \<longleftrightarrow>
     (\<forall>op b. enc_request c op = Some b \<longrightarrow> dec_request c b = Some op)
   \<and> (\<forall>r b. enc_response c r = Some b \<longrightarrow> dec_response c b = Some r)"

lemma read_msg_frame:
  assumes "decode body = Some x" "length body < 2 ^ 32"
  shows "read_msg decode (u32_to_le (of_nat (length body)) @ body @ rest)
    = (if body = [] \<or> 2 ^ 20 < length body then Inl (InvalidFrameLength (length body)) else Inr (x, rest))"
proof -
  have "unat (of_nat (length body) :: u32) = length body" using assms(2) by (simp add: unat_of_nat)
  then show ?thesis using assms(1) by (simp add: read_msg_def read_exact_def Let_def)
qed

lemma control_reply_enabled:
  "control_reply pid wall now stats op = (resp, stats', hook) \<Longrightarrow>
     rs_enabled stats' = (op = ''on'' \<or> op \<noteq> ''off'' \<and> rs_enabled stats)
   \<and> hook = (if rs_enabled stats' = rs_enabled stats then None else Some (rs_enabled stats'))"
  by (auto simp: control_reply_def is_enabled_def split: if_splits)

fun control_run :: "u32 \<Rightarrow> (wall_clock \<times> instant \<times> string) list \<Rightarrow> runtime_stats \<Rightarrow> bool list \<times> runtime_stats" where
  "control_run pid [] stats = ([], stats)"
| "control_run pid ((wall, now, op) # ops) stats =
     (let (_, stats, hook) = control_reply pid wall now stats op;
          (hooks, stats) = control_run pid ops stats
      in (case hook of None \<Rightarrow> hooks | Some on \<Rightarrow> on # hooks, stats))"

section \<open>Properties\<close>

text \<open>What one side writes the other reads, up to the bound: a frame whose body is between
  1 byte and 1 MiB decodes to the message and leaves what follows it on the stream; an empty or a
  larger body, which \<open>write_msg\<close> writes all the same, is refused with its length.\<close>

theorem frame_roundtrip:
  assumes "write_msg encode x = Inr frame" "\<And>b. encode x = Some b \<Longrightarrow> decode b = Some x"
    and "length frame < 2 ^ 32"
  shows "read_msg decode (frame @ rest) =
    (if length frame = 4 \<or> 2 ^ 20 + 4 < length frame then Inl (InvalidFrameLength (length frame - 4))
     else Inr (x, rest))"
proof -
  obtain body where body: "encode x = Some body" "frame = u32_to_le (of_nat (length body)) @ body"
    using assms(1) by (auto simp: write_msg_def split: option.splits)
  have "length body < 2 ^ 32" using assms(3) body(2) by simp
  then show ?thesis
    using read_msg_frame [of decode body x rest] assms(2) body by auto
qed

theorem frame_roundtrip_witness:
  "read_msg Some ((u32_to_le 3 @ [7, 8, 9]) @ [1]) = Inr ([7, 8, 9], [1])"
  using frame_roundtrip [of Some "[7, 8, 9]" "u32_to_le 3 @ [7, 8, 9]" Some "[1]"]
  by (simp add: write_msg_def)

text \<open>C25: A request over the socket does what it says: for \<open>status\<close>, \<open>on\<close> and \<open>off\<close> the
  command line gets the daemon's snapshot after the operation, with the data plane on after
  \<open>on\<close>, off after \<open>off\<close> and unchanged after \<open>status\<close>; any other operation changes nothing
  and comes back as the error naming it.\<close>

theorem request_roundtrip:
  assumes "codec_lawful codec" "enc_request codec op = Some rb" "0 < length rb" "length rb \<le> 2 ^ 20"
    and "control_reply pid wall now stats op = (resp, stats', hook)"
    and "enc_response codec resp = Some sb" "0 < length sb" "length sb \<le> 2 ^ 20"
  shows "request codec path (Some (\<lambda>received. projr (fst (handle_client codec pid wall now received stats)))) op
      = (if op \<in> {''status'', ''on'', ''off''} then Inr (snapshot pid now stats')
         else Inl (Refused (''unknown op: '' @ op)))
    \<and> ss_enabled (snapshot pid now stats') = (op = ''on'' \<or> op \<noteq> ''off'' \<and> rs_enabled stats)
    \<and> (op \<notin> {''on'', ''off''} \<longrightarrow> stats' = stats)"
proof -
  have req: "write_msg (enc_request codec) op = Inr (u32_to_le (of_nat (length rb)) @ rb)"
    and resp: "write_msg (enc_response codec) resp = Inr (u32_to_le (of_nat (length sb)) @ sb)"
    using assms(2,6) by (simp_all add: write_msg_def)
  have dec: "dec_request codec rb = Some op" "dec_response codec sb = Some resp"
    using assms(1,2,6) by (simp_all add: codec_lawful_def)
  have "read_msg (dec_request codec) (u32_to_le (of_nat (length rb)) @ rb) = Inr (op, [])"
    using read_msg_frame [of "dec_request codec" rb op "[]"] dec(1) assms(3,4) by simp
  then have "fst (handle_client codec pid wall now (u32_to_le (of_nat (length rb)) @ rb) stats)
      = Inr (u32_to_le (of_nat (length sb)) @ sb)"
    using assms(5) resp by (simp add: handle_client_def)
  moreover have "read_msg (dec_response codec) (u32_to_le (of_nat (length sb)) @ sb) = Inr (resp, [])"
    using read_msg_frame [of "dec_response codec" sb resp "[]"] dec(2) assms(7,8) by simp
  ultimately have "request codec path (Some (\<lambda>received. projr (fst (handle_client codec pid wall now received stats)))) op
      = (if \<not> cr_ok resp
         then Inl (Refused (case cr_error resp of None \<Rightarrow> ''control request failed'' | Some e \<Rightarrow> e))
         else case cr_status resp of None \<Rightarrow> Inl MissingStatus | Some s \<Rightarrow> Inr s)"
    using req by (simp add: request_def read_reply_def)
  then show ?thesis
    using assms(5) control_reply_enabled [OF assms(5)]
    by (auto simp: control_reply_def Let_def snapshot_def is_enabled_def split: if_splits)
qed

text \<open>The enable hook, which moves the client's routes, is called exactly when the flag
  changes: over any sequence of requests no two consecutive calls ask for the same, the first
  one asks for a change, and the last one for the state the flag ends in.\<close>

theorem hook_follows_flag:
  assumes "control_run pid ops stats = (hooks, stats')"
  shows "distinct_adj (rs_enabled stats # hooks) \<and> last (rs_enabled stats # hooks) = rs_enabled stats'"
  using assms
proof (induction ops arbitrary: stats hooks)
  case Nil
  then show ?case by simp
next
  case (Cons r ops)
  obtain wall now op where r: "r = (wall, now, op)" by (metis prod_cases3)
  obtain resp stats1 hook where c: "control_reply pid wall now stats op = (resp, stats1, hook)"
    by (metis prod_cases3)
  obtain hooks1 where run: "control_run pid ops stats1 = (hooks1, stats')"
    "hooks = (case hook of None \<Rightarrow> hooks1 | Some on \<Rightarrow> on # hooks1)"
    using Cons.prems c r by (auto split: prod.splits)
  show ?case
    using Cons.IH [OF run(1)] run(2) control_reply_enabled [OF c] by (auto split: if_splits)
qed

text \<open>When the control socket is up its file has exactly the mode asked for, the value of
  \<open>SOULVPN_CONTROL_MODE\<close> when it parses and the configured one otherwise, whatever stale file
  was there and whatever the umask; no other file is touched.\<close>

theorem socket_mode_exact:
  assumes "serve_setup dir_ok env from_config path h = Inr h'"
  shows "fs_mode h' path = Some (case env of None \<Rightarrow> from_config
      | Some s \<Rightarrow> (case parse_mode s of Inl _ \<Rightarrow> from_config | Inr m \<Rightarrow> m))
    \<and> (\<forall>q. q \<noteq> path \<longrightarrow> files h' q = files h q)"
  using assms
  by (auto simp: serve_setup_def resolve_control_mode_def bind_socket_def fs_remove_def fs_set_mode_def
      fs_mode_def Let_def split: if_splits option.splits)

text \<open>A codec for the witnesses: a response is one byte for each state a toggle can leave.\<close>

definition demo_codec :: "control_response \<Rightarrow> codec" where
  "demo_codec r = \<lparr>enc_request = (\<lambda>op. if op = ''on'' then Some [1] else None),
     dec_request = (\<lambda>b. if b = [1] then Some ''on'' else None),
     enc_response = (\<lambda>x. if x = r then Some [2] else None),
     dec_response = (\<lambda>b. if b = [2] then Some r else None)\<rparr>"

lemma demo_codec_lawful: "codec_lawful (demo_codec r)"
  by (simp add: codec_lawful_def demo_codec_def)

theorem request_roundtrip_witness:
  "let stats = (stats_new Client [] [] [] 0 None)\<lparr>rs_enabled := False\<rparr>;
       (resp, stats', hook) = control_reply 7 None 0 stats ''on''
   in request (demo_codec resp) [] (Some (\<lambda>received. projr (fst (handle_client (demo_codec resp) 7 None 0 received stats))))
        ''on'' = Inr (snapshot 7 0 stats') \<and> ss_enabled (snapshot 7 0 stats')"
proof -
  let ?stats = "(stats_new Client [] [] [] 0 None)\<lparr>rs_enabled := False\<rparr>"
  obtain resp stats' hook where c: "control_reply 7 None 0 ?stats ''on'' = (resp, stats', hook)"
    by (metis prod_cases3)
  have "enc_request (demo_codec resp) ''on'' = Some [1]" "enc_response (demo_codec resp) resp = Some [2]"
    by (simp_all add: demo_codec_def)
  then show ?thesis
    using request_roundtrip [OF demo_codec_lawful _ _ _ c, where rb = "[1]" and sb = "[2]"] c
    by simp
qed

theorem hook_follows_flag_witness:
  "let (hooks, stats) = control_run 7 [(None, 0, ''off''), (None, 0, ''off''), (None, 0, ''on'')] (stats_new Client [] [] [] 0 None)
   in hooks = [False, True] \<and> distinct_adj (True # hooks)"
  using hook_follows_flag [of 7 "[(None, 0, ''off''), (None, 0, ''off''), (None, 0, ''on'')]" "stats_new Client [] [] [] 0 None"]
  by (simp add: control_reply_def stats_new_def is_enabled_def)

definition demo_socket_host :: host where
  "demo_socket_host = \<lparr>files = Map.empty, umask = perm 0 2 2, denied = (\<lambda>p. False)\<rparr>"

theorem socket_mode_exact_witness:
  "\<exists>h'. serve_setup True (Some ''0660'') 384 ''s'' demo_socket_host = Inr h' \<and> fs_mode h' ''s'' = Some 432"
proof -
  have m: "parse_mode ''0660'' = Inr 432"
    by (simp add: parse_mode_def trim_def ascii_ws_def ws2_def ws3_def parse_unsigned_def to_digit_def)
  obtain h' where h': "serve_setup True (Some ''0660'') 384 ''s'' demo_socket_host = Inr h'"
    by (simp add: serve_setup_def bind_socket_def fs_remove_def fs_set_mode_def demo_socket_host_def Let_def)
  then show ?thesis using socket_mode_exact [OF h'] m by simp
qed

end
