(* ===== verification/Client.thy ===== *)
theory Client
  imports Noise_Handshake Stats Config Tun_Dev Route Control
begin

text \<open>
  The client, \<open>src/src/client.rs\<close>: the handshake with its attempts, start-up, the tasks
  \<open>uplink\<close>, \<open>downlink\<close> and \<open>maintenance\<close> as handlers over the session slot they share, and
  the hook that switches the routes. The UDP socket is a function from a state \<open>'n\<close> of the
  network: what sending a packet and then waiting for an answer yields. Clock readings are
  arguments, one for each call of \<open>Instant::now\<close>.
\<close>

section \<open>The session slot\<close>

record 't session_slot =
  sl_session :: "'t session"
  sl_established :: instant
  sl_last_rx :: instant
  sl_last_tx :: instant

definition slot_new :: "'t session \<Rightarrow> instant \<Rightarrow> 't session_slot" where
  "slot_new session now =
     \<lparr>sl_session = session, sl_established = now, sl_last_rx = now, sl_last_tx = now\<rparr>"

datatype client_error =
    ClientConfig config_error
  | ClientCrypto crypto_error
  | UdpBind
  | UdpConnect
  | SendInit
  | HandshakeFailed nat
  | CreateTun
  | ClientRoute route_error

section \<open>Handshake\<close>

definition ATTEMPTS :: nat where
  "ATTEMPTS = 10"

text \<open>What \<open>timeout(WAIT, sock.recv(..))\<close> gives.\<close>

datatype recv_result = Received bytes | RecvError | TimedOut

text \<open>
  The loop of \<open>handshake\<close> from attempt \<open>i\<close> on with \<open>left\<close> attempts to go. \<open>hapi i\<close> is
  the Noise implementation with the random choices of attempt \<open>i\<close>; \<open>exchange\<close> sends the init
  (\<open>None\<close>: the send failed) and waits for an answer, of which 256 bytes fit the buffer.
\<close>

fun handshake_loop ::
  "(nat \<Rightarrow> ('h, 't) handshake_api) \<Rightarrow> ('n \<Rightarrow> bytes \<Rightarrow> recv_result option \<times> 'n) \<Rightarrow> bytes \<Rightarrow> bytes
     \<Rightarrow> nat \<Rightarrow> nat \<Rightarrow> 'n \<Rightarrow> (client_error + 't session) \<times> 'n" where
  "handshake_loop hapi exchange private server_pub i 0 n = (Inl (HandshakeFailed ATTEMPTS), n)"
| "handshake_loop hapi exchange private server_pub i (Suc left) n =
     (case initiator_new (hapi i) private server_pub of
        Inl e \<Rightarrow> (Inl (ClientCrypto e), n)
      | Inr init \<Rightarrow>
          (case write_init (hapi i) init 256 of
             (Inl e, _) \<Rightarrow> (Inl (ClientCrypto e), n)
           | (Inr msg, init) \<Rightarrow>
               (case exchange n msg of
                  (None, n) \<Rightarrow> (Inl SendInit, n)
                | (Some (Received resp), n) \<Rightarrow>
                    (case initiator_finish (hapi i) init (take 256 resp) of
                       Inr session \<Rightarrow> (Inr session, n)
                     | Inl _ \<Rightarrow> handshake_loop hapi exchange private server_pub (Suc i) left n)
                | (Some _, n) \<Rightarrow> handshake_loop hapi exchange private server_pub (Suc i) left n)))"

definition client_handshake ::
  "(nat \<Rightarrow> ('h, 't) handshake_api) \<Rightarrow> ('n \<Rightarrow> bytes \<Rightarrow> recv_result option \<times> 'n) \<Rightarrow> bytes \<Rightarrow> bytes
     \<Rightarrow> 'n \<Rightarrow> (client_error + 't session) \<times> 'n" where
  "client_handshake hapi exchange private server_pub n =
     handshake_loop hapi exchange private server_pub 1 ATTEMPTS n"

section \<open>Timers\<close>

record client_timers =
  tm_keepalive_secs :: u64
  tm_rekey_secs :: u64
  tm_keepalive :: duration
  tm_rekey :: duration
  tm_reconnect :: duration

definition timers_of :: "client_config \<Rightarrow> client_timers" where
  "timers_of cfg =
     \<lparr>tm_keepalive_secs = cc_keepalive_secs cfg, tm_rekey_secs = cc_rekey_secs cfg,
      tm_keepalive = from_secs (unat (cc_keepalive_secs cfg)),
      tm_rekey = from_secs (unat (cc_rekey_secs cfg)),
      tm_reconnect = from_secs (unat (max (cc_reconnect_timeout_secs cfg) 10))\<rparr>"

definition maintenance_needs :: "client_timers \<Rightarrow> instant \<Rightarrow> 't session_slot \<Rightarrow> bool \<times> bool \<times> bool" where
  "maintenance_needs tm now g =
     (let age = duration_since now (sl_established g);
          idle_rx = duration_since now (sl_last_rx g);
          idle_tx = duration_since now (sl_last_tx g);
          need_rekey = tm_rekey_secs tm > 0 \<and> age \<ge> tm_rekey tm;
          need_reconnect = idle_rx \<ge> tm_reconnect tm;
          need_keepalive = tm_keepalive_secs tm > 0 \<and> idle_tx \<ge> tm_keepalive tm \<and> idle_rx \<ge> tm_keepalive tm
      in (need_rekey, need_reconnect, need_keepalive))"

section \<open>The tasks\<close>

datatype client_out = ClQuiet | ClSend bytes | ClTun bytes | ClBreak

text \<open>
  One round of \<open>uplink\<close>; \<open>None\<close> is a failed read of the TUN device. An empty read, a failed
  read and a failed send end the task, and with it the client.
\<close>

definition client_uplink ::
  "'t transport_api \<Rightarrow> bytes option \<Rightarrow> instant \<Rightarrow> wall_clock \<Rightarrow> bool \<Rightarrow> 't session_slot \<Rightarrow> runtime_stats
     \<Rightarrow> client_out \<times> 't session_slot \<times> runtime_stats" where
  "client_uplink api read now wall send_ok slot stats =
     (case read of
        None \<Rightarrow> (ClBreak, slot, stats)
      | Some plain \<Rightarrow>
          if plain = [] then (ClBreak, slot, stats)
          else if \<not> is_enabled stats then (ClQuiet, slot, stats)
          else (case encrypt api (sl_session slot) plain MAX_MESSAGE of
              (Inr wire, session) \<Rightarrow>
                let slot = slot\<lparr>sl_session := session, sl_last_tx := now\<rparr>
                in if send_ok then (ClSend wire, slot, record_tx wall (of_nat (length plain)) stats)
                   else (ClBreak, slot, stats)
            | (Inl e, session) \<Rightarrow> (ClQuiet, slot\<lparr>sl_session := session\<rparr>, record_encrypt_err stats)))"

text \<open>One round of \<open>downlink\<close> after the gate; \<open>None\<close> is a failed receive.\<close>

definition client_downlink ::
  "'t transport_api \<Rightarrow> bytes option \<Rightarrow> instant \<Rightarrow> wall_clock \<Rightarrow> bool \<Rightarrow> 't session_slot \<Rightarrow> runtime_stats
     \<Rightarrow> client_out \<times> 't session_slot \<times> runtime_stats" where
  "client_downlink api received now wall tun_ok slot stats =
     (case received of
        None \<Rightarrow> (ClBreak, slot, stats)
      | Some wire \<Rightarrow>
          if \<not> is_enabled stats then (ClQuiet, slot, stats)
          else (case decrypt api (sl_session slot) wire MAX_MESSAGE of
              (Inr plain, session) \<Rightarrow>
                let slot = slot\<lparr>sl_session := session, sl_last_rx := now\<rparr>
                in if plain = [] then (ClQuiet, slot, touch_activity wall stats)
                   else if tun_ok then (ClTun plain, slot, record_rx wall (of_nat (length plain)) stats)
                   else (ClBreak, slot, stats)
            | (Inl e, session) \<Rightarrow> (ClQuiet, slot\<lparr>sl_session := session\<rparr>, record_decrypt_err stats)))"

text \<open>The keepalive of \<open>maintenance\<close>: an empty packet through a buffer of 64 bytes.\<close>

definition send_keepalive ::
  "'t transport_api \<Rightarrow> instant \<Rightarrow> 't session_slot \<Rightarrow> (crypto_error + bytes) \<times> 't session_slot" where
  "send_keepalive api now g =
     (case encrypt api (sl_session g) [] 64 of
        (Inr wire, session) \<Rightarrow> (Inr wire, g\<lparr>sl_session := session, sl_last_tx := now\<rparr>)
      | (Inl e, session) \<Rightarrow> (Inl e, g\<lparr>sl_session := session\<rparr>))"

text \<open>What \<open>maintenance\<close> does with the result of a re-handshake.\<close>

definition rehandshake_done ::
  "bool \<Rightarrow> instant \<times> instant \<times> instant \<Rightarrow> wall_clock \<Rightarrow> client_error + 't session \<Rightarrow> 't session_slot
     \<Rightarrow> runtime_stats \<Rightarrow> 't session_slot \<times> runtime_stats" where
  "rehandshake_done need_reconnect clk wall result g stats =
     (case result of
        Inl e \<Rightarrow> (g, record_handshake_fail stats)
      | Inr new_sess \<Rightarrow>
          let (t1, t2, t3) = clk;
              stats = record_handshake_ok wall stats;
              stats = (if need_reconnect then record_reconnect stats else stats)
          in (g\<lparr>sl_session := new_sess, sl_established := t1, sl_last_rx := t2, sl_last_tx := t3\<rparr>, stats))"

datatype tick_out = TickIdle | TickHandshake | TickKeepalive bytes | TickKeepaliveFailed crypto_error

text \<open>
  One tick of \<open>maintenance\<close> while no other task touches the slot in between; the network only
  changes by the re-handshake.
\<close>

definition maintenance_tick ::
  "(nat \<Rightarrow> ('h, 't) handshake_api) \<Rightarrow> 't transport_api \<Rightarrow> ('n \<Rightarrow> bytes \<Rightarrow> recv_result option \<times> 'n)
     \<Rightarrow> bytes \<Rightarrow> bytes \<Rightarrow> client_timers \<Rightarrow> instant \<Rightarrow> instant \<times> instant \<times> instant \<Rightarrow> wall_clock
     \<Rightarrow> 't session_slot \<Rightarrow> runtime_stats \<Rightarrow> 'n \<Rightarrow> tick_out \<times> 't session_slot \<times> runtime_stats \<times> 'n" where
  "maintenance_tick hapi api exchange private server_pub tm now clk wall slot stats n =
     (if \<not> is_enabled stats then (TickIdle, slot, stats, n)
      else
        let (need_rekey, need_reconnect, need_keepalive) = maintenance_needs tm now slot
        in if need_rekey \<or> need_reconnect then
             let (result, n) = client_handshake hapi exchange private server_pub n;
                 (slot, stats) = rehandshake_done need_reconnect clk wall result slot stats
             in (TickHandshake, slot, stats, n)
           else if need_keepalive then
             (case send_keepalive api (fst clk) slot of
                (Inr wire, slot) \<Rightarrow> (TickKeepalive wire, slot, stats, n)
              | (Inl e, slot) \<Rightarrow> (TickKeepaliveFailed e, slot, stats, n))
           else (TickIdle, slot, stats, n))"

section \<open>Start-up\<close>

record 't client_state =
  cl_slot :: "'t session_slot"
  cl_stats :: runtime_stats
  cl_routes :: client_routes
  cl_control_mode :: u32

definition client_route_opts :: "client_config \<Rightarrow> route_opts" where
  "client_route_opts cfg =
     \<lparr>ro_redirect_all = cc_redirect_all cfg, ro_kill_switch = cc_kill_switch cfg,
      ro_disable_ipv6 = cc_disable_ipv6 cfg, ro_dns = cc_dns cfg\<rparr>"

text \<open>
  \<open>run\<close> up to the spawning of the tasks. \<open>socket\<close> is the outcome of \<open>bind\<close> and
  \<open>connect\<close>, \<open>dev_name\<close> the name query of the device (\<open>None\<close>: it fails).
\<close>

definition client_start ::
  "(string \<Rightarrow> bytes option) \<Rightarrow> client_error + unit \<Rightarrow> (nat \<Rightarrow> ('h, 't) handshake_api)
     \<Rightarrow> ('n \<Rightarrow> bytes \<Rightarrow> recv_result option \<times> 'n) \<Rightarrow> (tun_config \<Rightarrow> 'd option) \<Rightarrow> ('d \<Rightarrow> string option)
     \<Rightarrow> 'k net_env \<Rightarrow> client_config \<Rightarrow> instant \<Rightarrow> instant \<Rightarrow> wall_clock \<Rightarrow> 'n \<Rightarrow> 'k net
     \<Rightarrow> (client_error + 't client_state) \<times> 'n \<times> 'k net" where
  "client_start b64 socket hapi exchange create_as_async dev_name env cfg now started wall n w =
     (case client_load_private_key b64 (nhost w) cfg of
        Inl e \<Rightarrow> (Inl (ClientConfig e), n, w)
      | Inr private \<Rightarrow>
     (case client_load_server_public_key b64 (nhost w) cfg of
        Inl e \<Rightarrow> (Inl (ClientConfig e), n, w)
      | Inr server_pub \<Rightarrow>
     (case parse_cidr (cc_address cfg) of
        Inl e \<Rightarrow> (Inl (ClientConfig e), n, w)
      | Inr (addr, prefix) \<Rightarrow>
     (case parse_mode (cc_control_mode cfg) of
        Inl e \<Rightarrow> (Inl (ClientConfig e), n, w)
      | Inr control_mode \<Rightarrow>
     (case socket of
        Inl e \<Rightarrow> (Inl e, n, w)
      | Inr _ \<Rightarrow>
     (case client_handshake hapi exchange private server_pub n of
        (Inl e, n) \<Rightarrow> (Inl e, n, w)
      | (Inr session, n) \<Rightarrow>
     (case tun_create create_as_async ''soulvpn'' addr prefix (cc_mtu cfg) of
        None \<Rightarrow> (Inl CreateTun, n, w)
      | Some tun \<Rightarrow>
          let tun_name = (case dev_name tun of None \<Rightarrow> ''soulvpn'' | Some s \<Rightarrow> s)
          in case routes_install env (cc_endpoint cfg) tun_name (client_route_opts cfg) w of
               (Inl e, w) \<Rightarrow> (Inl (ClientRoute e), n, w)
             | (Inr routes, w) \<Rightarrow>
                 let stats = stats_new Stats.Client (show_socket_addr (cc_endpoint cfg)) (cc_address cfg) tun_name
                       started wall;
                     stats = set_sessions 1 (record_handshake_ok wall stats)
                 in (Inr \<lparr>cl_slot = slot_new session now, cl_stats = stats, cl_routes = routes,
                          cl_control_mode = control_mode\<rparr>, n, w))))))))"

section \<open>The enable hook\<close>

text \<open>
  What the thread that \<open>on_enable\<close> spawns does under the lock of the routes. A failed
  re-enable is only logged.
\<close>

definition client_hook ::
  "'k net_env \<Rightarrow> socket_addr \<Rightarrow> bool \<Rightarrow> wall_clock \<Rightarrow> bool \<Rightarrow> client_routes \<times> runtime_stats \<times> 'k net
     \<Rightarrow> client_routes \<times> runtime_stats \<times> 'k net" where
  "client_hook env endpoint kill_switch wall on s =
     (let (g, stats, w) = s;
          (g, w) =
            (if on then
               (case reenable_with_ks env endpoint kill_switch g w of (_, g, w) \<Rightarrow> (g, w))
             else routes_teardown env g w)
      in (g, set_enabled wall on stats, w))"

text \<open>
  The threads run concurrently with the control socket: a request answers at once and leaves its
  hook pending, and the pending hooks take the lock in any order.
\<close>

record 'k toggle_world =
  tw_routes :: client_routes
  tw_stats :: runtime_stats
  tw_net :: "'k net"
  tw_pending :: "bool list"

inductive toggle_step ::
  "'k net_env \<Rightarrow> socket_addr \<Rightarrow> bool \<Rightarrow> u32 \<Rightarrow> 'k toggle_world \<Rightarrow> string option \<Rightarrow> 'k toggle_world \<Rightarrow> bool"
  for env endpoint kill_switch pid
  where
  toggle_request: "\<lbrakk>control_reply pid wall now (tw_stats t) op = (resp, stats, hook);
      pending = tw_pending t @ (case hook of None \<Rightarrow> [] | Some on \<Rightarrow> [on])\<rbrakk>
    \<Longrightarrow> toggle_step env endpoint kill_switch pid t (Some op) (t\<lparr>tw_stats := stats, tw_pending := pending\<rparr>)"
| toggle_hook: "\<lbrakk>tw_pending t = before @ on # after;
      client_hook env endpoint kill_switch wall on (tw_routes t, tw_stats t, tw_net t) = (g, stats, w)\<rbrakk>
    \<Longrightarrow> toggle_step env endpoint kill_switch pid t None
          \<lparr>tw_routes = g, tw_stats = stats, tw_net = w, tw_pending = before @ after\<rparr>"

end
