(* ===== verification/Client_Props.thy ===== *)
theory Client_Props
  imports Client Route_Props
begin

text \<open>
  Switching the data plane of the client on and off: what the flag in the status and the routes in
  the kernel have to do with each other, given that every request runs its hook in a thread of its
  own and that a failing re-enable is only logged.
\<close>

section \<open>The hook\<close>

lemma hook_off:
  assumes "client_hook env ep ks wall False (g, stats, w) = (g', stats', w')"
  shows "routes_teardown env g w = (g', w')" "stats' = set_enabled wall False stats"
  using assms by (auto simp: client_hook_def split: prod.splits)

lemma hook_on:
  assumes "client_hook env ep ks wall True (g, stats, w) = (g', stats', w')"
  shows "snd (reenable_with_ks env ep ks g w) = (g', w')" "stats' = set_enabled wall True stats"
  using assms by (auto simp: client_hook_def split: prod.splits)

lemma hook_tun:
  assumes "client_hook env ep ks wall on (g, stats, w) = (g', stats', w')"
  shows "rt_tun_name g' = rt_tun_name g" "rt_redirect_all g' = rt_redirect_all g" "rs_enabled stats' = on"
proof -
  have "rt_tun_name g' = rt_tun_name g \<and> rt_redirect_all g' = rt_redirect_all g \<and> rs_enabled stats' = on"
  proof (cases on)
    case True
    then show ?thesis
      using hook_on [of env ep ks wall g stats w] assms
      by (auto simp: reenable_with_ks_def split: sum.splits prod.splits if_splits option.splits socket_addr.splits)
  next
    case False
    then show ?thesis
      using hook_off [of env ep ks wall g stats w] assms by (auto simp: routes_teardown_def Let_def)
  qed
  then show "rt_tun_name g' = rt_tun_name g" "rt_redirect_all g' = rt_redirect_all g" "rs_enabled stats' = on" by simp_all
qed

text \<open>The last two commands were the deletes of the halves, and a half is there only if its own failed.\<close>

definition off_in_kernel :: "('k \<Rightarrow> string list set) \<Rightarrow> string \<Rightarrow> 'k net \<Rightarrow> bool" where
  "off_in_kernel R tun w \<longleftrightarrow> (\<exists>log rs. issued w = log @ zip (full_tunnel ''del'' tun) rs \<and> length rs = 2
     \<and> tun_routes tun \<inter> R (kernel w) \<subseteq> undeleted (zip (full_tunnel ''del'' tun) rs))"

lemma teardown_settles:
  assumes law: "routing_lawful env R" and "routes_teardown env g w = (g', w')" "rt_redirect_all g"
  shows "off_in_kernel R (rt_tun_name g) w'"
proof -
  let ?cs = "full_tunnel ''del'' (rt_tun_name g)"
  obtain w0 where w': "w' = run_each env ?cs w0" using assms(2,3) by (auto simp: routes_teardown_def Let_def)
  obtain new where new: "issued w' = issued w0 @ new" "map fst new = ?cs" unfolding w' using run_each_log by blast
  have z: "new = zip ?cs (map snd new)" unfolding new(2) [symmetric] by (rule zip_map_fst_snd [symmetric])
  have "length (map snd new) = 2" using arg_cong [OF new(2), of length] by (simp add: full_tunnel_def)
  moreover have "tun_routes (rt_tun_name g) \<inter> R (kernel w') \<subseteq> undeleted new"
    using rt_full_del [OF law, of "rt_tun_name g" w0, folded w'] since_new [OF new(1)] by (simp add: removes_def)
  ultimately show ?thesis
    unfolding off_in_kernel_def using new(1) z by metis
qed

section \<open>Reachable states\<close>

text \<open>The client after start-up: enabled, no hook pending.\<close>

definition toggle_start :: "string \<Rightarrow> 'k toggle_world \<Rightarrow> bool" where
  "toggle_start tun t \<longleftrightarrow> rs_enabled (tw_stats t) \<and> tw_pending t = []
     \<and> rt_tun_name (tw_routes t) = tun \<and> rt_redirect_all (tw_routes t)"

definition toggle_any :: "'k net_env \<Rightarrow> socket_addr \<Rightarrow> bool \<Rightarrow> u32 \<Rightarrow> 'k toggle_world \<Rightarrow> 'k toggle_world \<Rightarrow> bool" where
  "toggle_any env ep ks pid t t' \<longleftrightarrow> (\<exists>l. toggle_step env ep ks pid t l t')"

definition toggle_inv :: "('k \<Rightarrow> string list set) \<Rightarrow> string \<Rightarrow> 'k toggle_world \<Rightarrow> bool" where
  "toggle_inv R tun t \<longleftrightarrow> rt_tun_name (tw_routes t) = tun \<and> rt_redirect_all (tw_routes t)
     \<and> (tw_pending t = [] \<and> \<not> rs_enabled (tw_stats t) \<longrightarrow> off_in_kernel R tun (tw_net t))"

lemma toggle_inv_step:
  assumes law: "routing_lawful env R" and step: "toggle_step env ep ks pid t l t'" and inv: "toggle_inv R tun t"
  shows "toggle_inv R tun t'"
  using step
proof (cases rule: toggle_step.cases)
  case (toggle_request wall now op resp stats hook pending)
  have "tw_pending t' = [] \<and> \<not> rs_enabled (tw_stats t') \<Longrightarrow> tw_pending t = [] \<and> \<not> rs_enabled (tw_stats t)"
    using toggle_request control_reply_enabled [OF toggle_request(3)] by (auto split: option.splits if_splits)
  then show ?thesis using inv toggle_request by (auto simp: toggle_inv_def)
next
  case (toggle_hook before on rest wall g stats w)
  note tun = hook_tun [OF toggle_hook(4)]
  have "off_in_kernel R tun w" if "\<not> on"
  proof -
    have "client_hook env ep ks wall False (tw_routes t, tw_stats t, tw_net t) = (g, stats, w)"
      using toggle_hook(4) that by simp
    then have "routes_teardown env (tw_routes t) (tw_net t) = (g, w)" by (rule hook_off(1))
    then show ?thesis
      using teardown_settles [OF law, of "tw_routes t" "tw_net t" g w] inv by (simp add: toggle_inv_def)
  qed
  then show ?thesis using inv toggle_hook tun by (auto simp: toggle_inv_def)
qed

interpretation toggles: invariant_system "toggle_start tun" "toggle_any env ep ks pid"
  "\<lambda>t. routing_lawful env R \<longrightarrow> toggle_inv R tun t" for tun env ep ks pid R
proof unfold_locales
  show "routing_lawful env R \<longrightarrow> toggle_inv R tun s" if "toggle_start tun s" for s
    using that by (simp add: toggle_inv_def toggle_start_def)
  show "routing_lawful env R \<longrightarrow> toggle_inv R tun s'"
    if "routing_lawful env R \<longrightarrow> toggle_inv R tun s" "toggle_any env ep ks pid s s'" for s s'
    using that toggle_inv_step unfolding toggle_any_def by blast
qed


text \<open>On does not mean on. When the routes cannot be restored the hook still marks the data
  plane enabled: the status says so, while the kill switch that went down with the last off is
  still down and the routes are as the failed commands left them.\<close>

theorem failed_enable_reports_on:
  assumes "reenable env g w = (Inl e, w1)"
  shows "\<exists>stats'. client_hook env ep ks wall True (g, stats, w) = (g, stats', w1) \<and> is_enabled stats'"
  using assms by (simp add: client_hook_def reenable_with_ks_def is_enabled_def)

text \<open>The last request does not always win. From an enabled client, an off followed at once by
  an on leaves two hook threads, and when the second takes the lock first the client ends up
  disabled with nothing pending, although both requests were answered and the last one was on.\<close>

theorem toggle_race:
  assumes "rs_enabled (tw_stats t)" "tw_pending t = []"
  shows "\<exists>t1 t2 t3 t4. toggle_step env ep ks pid t (Some ''off'') t1 \<and> toggle_step env ep ks pid t1 (Some ''on'') t2
    \<and> toggle_step env ep ks pid t2 None t3 \<and> toggle_step env ep ks pid t3 None t4
    \<and> rs_enabled (tw_stats t2) \<and> tw_pending t4 = [] \<and> \<not> rs_enabled (tw_stats t4)"
proof -
  obtain resp1 s1 h1 where c1: "control_reply pid None 0 (tw_stats t) ''off'' = (resp1, s1, h1)" by (metis prod_cases3)
  have s1: "\<not> rs_enabled s1" "h1 = Some False" using control_reply_enabled [OF c1] assms(1) by auto
  obtain resp2 s2 h2 where c2: "control_reply pid None 0 s1 ''on'' = (resp2, s2, h2)" by (metis prod_cases3)
  have s2: "rs_enabled s2" "h2 = Some True" using control_reply_enabled [OF c2] s1 by auto
  let ?t1 = "t\<lparr>tw_stats := s1, tw_pending := [False]\<rparr>"
  let ?t2 = "?t1\<lparr>tw_stats := s2, tw_pending := [False, True]\<rparr>"
  obtain g3 s3 w3 where k3: "client_hook env ep ks None True (tw_routes t, s2, tw_net t) = (g3, s3, w3)" by (metis prod_cases3)
  obtain g4 s4 w4 where k4: "client_hook env ep ks None False (g3, s3, w3) = (g4, s4, w4)" by (metis prod_cases3)
  let ?t3 = "\<lparr>tw_routes = g3, tw_stats = s3, tw_net = w3, tw_pending = [False]\<rparr>"
  let ?t4 = "\<lparr>tw_routes = g4, tw_stats = s4, tw_net = w4, tw_pending = []\<rparr>"
  have "toggle_step env ep ks pid t (Some ''off'') ?t1"
    by (rule toggle_request [OF c1]) (simp add: assms(2) s1)
  moreover have "toggle_step env ep ks pid ?t1 (Some ''on'') ?t2"
    using toggle_request [of pid None 0 ?t1 "''on''" resp2 s2 h2 "[False, True]" env ep ks] c2 s2 by simp
  moreover have "toggle_step env ep ks pid ?t2 None ?t3"
    using toggle_hook [of ?t2 "[False]" True "[]" env ep ks None g3 s3 w3 pid] k3 by simp
  moreover have "toggle_step env ep ks pid ?t3 None ?t4"
    using toggle_hook [of ?t3 "[]" False "[]" env ep ks None g4 s4 w4 pid] k4 by simp
  moreover have "\<not> rs_enabled s4" using hook_tun(3) [OF k4] by simp
  ultimately show ?thesis using s2(1) by fastforce
qed

section \<open>Witnesses\<close>

definition demo_toggle :: "demo_kernel toggle_world" where
  "demo_toggle = \<lparr>tw_routes = demo_routes, tw_stats = stats_new Client [] [] [] 0 None,
     tw_net = demo_machine [] [], tw_pending = []\<rparr>"

lemma demo_toggle_start: "toggle_start ''soulvpn'' demo_toggle"
  by (simp add: toggle_start_def demo_toggle_def demo_routes_def stats_new_def)

lemma toggle_race_witness:
  "\<exists>t4 :: demo_kernel toggle_world. rs_enabled (tw_stats demo_toggle) \<and> tw_pending t4 = [] \<and> \<not> rs_enabled (tw_stats t4)"
proof -
  have "rs_enabled (tw_stats demo_toggle)" "tw_pending demo_toggle = []"
    by (simp_all add: demo_toggle_def stats_new_def)
  with toggle_race [OF this, of "demo_net True demo_text" "V4 demo_server 51820" True 7] show ?thesis by blast
qed

lemma failed_enable_reports_on_witness:
  "\<exists>stats' w1. client_hook \<lparr>exec = \<lambda>k c. (Some False, k), route_output = \<lambda>_. None\<rparr> (V4 demo_server 51820) True None True
      (demo_routes, set_enabled None False (stats_new Client [] [] [] 0 None), demo_machine [] [])
    = (demo_routes, stats', w1) \<and> is_enabled stats'"
proof -
  let ?E = "\<lparr>exec = \<lambda>k c. (Some False, k), route_output = \<lambda>_. None\<rparr> :: demo_kernel net_env"
  obtain e w1 where "reenable ?E demo_routes (demo_machine [] []) = (Inl e, w1)"
    by (simp add: reenable_def demo_routes_def full_tunnel_def run_def invoke_def)
  from failed_enable_reports_on [OF this] show ?thesis by blast
qed


end
