(* ===== verification/Client_Gate.thy ===== *)
theory Client_Gate
  imports Client
begin

text \<open>
  The receive gate of \<open>src/src/client.rs\<close>: the mutex that \<open>downlink\<close> and a re-handshake of
  \<open>maintenance\<close> take around \<open>sock.recv\<close>. The downlink takes it before it waits for a
  datagram; the re-handshake sends its init first and takes it afterwards. The model is the
  re-handshake on an idle tunnel: the only datagrams are the server's responses to the inits, at
  most one for each. The mutex is that of \<open>tokio\<close>: an unlock hands it to one of the tasks that
  wait, chosen by the parameter \<open>pick\<close> from the queue of waiters in the order of their calls;
  \<open>tokio\<close> documents first in, first out (\<open>fifo\<close>).
\<close>

datatype gate_task = DownlinkTask | HandshakeTask

text \<open>
  Where the loop of \<open>handshake\<close> is, with the attempts left: before an attempt, after the send,
  waiting for the gate or for the answer, returned.
\<close>

datatype gate_phase = HsReady nat | HsSent nat | HsLocking nat | HsFinished bool

record gate_world =
  gw_holder :: "gate_task option"
  gw_queue :: "gate_task list"
  gw_phase :: gate_phase
  gw_inits :: nat
  gw_answers :: nat
  gw_flight :: nat
  gw_stolen :: nat

definition fifo :: "(gate_task list \<Rightarrow> gate_task option) \<Rightarrow> bool" where
  "fifo pick \<longleftrightarrow> pick [] = None \<and> (\<forall>t ts. pick (t # ts) = Some t)"

definition gate_lock :: "gate_task \<Rightarrow> gate_world \<Rightarrow> gate_world" where
  "gate_lock t w =
     (if gw_holder w = None then w\<lparr>gw_holder := Some t\<rparr> else w\<lparr>gw_queue := gw_queue w @ [t]\<rparr>)"

definition gate_unlock :: "(gate_task list \<Rightarrow> gate_task option) \<Rightarrow> gate_world \<Rightarrow> gate_world" where
  "gate_unlock pick w =
     (case pick (gw_queue w) of
        None \<Rightarrow> w\<lparr>gw_holder := None\<rparr>
      | Some t \<Rightarrow> w\<lparr>gw_holder := Some t, gw_queue := remove1 t (gw_queue w)\<rparr>)"

text \<open>The downlink waits in \<open>recv\<close>, and a re-handshake begins.\<close>

definition gate_start :: gate_world where
  "gate_start = \<lparr>gw_holder = Some DownlinkTask, gw_queue = [], gw_phase = HsReady ATTEMPTS,
     gw_inits = 0, gw_answers = 0, gw_flight = 0, gw_stolen = 0\<rparr>"

text \<open>
  A datagram goes to the task that holds the gate. An answer that reaches the re-handshake
  ends it with success. Its two-second timeout only runs while it holds the gate and nothing
  arrives; by then the downlink is back in the queue.
\<close>

inductive gate_step :: "(gate_task list \<Rightarrow> gate_task option) \<Rightarrow> gate_world \<Rightarrow> gate_world \<Rightarrow> bool"
  for pick where
  gate_send: "gw_phase w = HsReady (Suc k)
    \<Longrightarrow> gate_step pick w (w\<lparr>gw_phase := HsSent k, gw_inits := Suc (gw_inits w)\<rparr>)"
| gate_wait: "gw_phase w = HsSent k
    \<Longrightarrow> gate_step pick w (gate_lock HandshakeTask (w\<lparr>gw_phase := HsLocking k\<rparr>))"
| gate_answer: "gw_answers w < gw_inits w
    \<Longrightarrow> gate_step pick w (w\<lparr>gw_answers := Suc (gw_answers w), gw_flight := Suc (gw_flight w)\<rparr>)"
| gate_downlink_recv: "\<lbrakk>gw_holder w = Some DownlinkTask; gw_flight w = Suc f\<rbrakk>
    \<Longrightarrow> gate_step pick w (gate_unlock pick (w\<lparr>gw_flight := f, gw_stolen := Suc (gw_stolen w)\<rparr>))"
| gate_downlink_lock: "\<lbrakk>gw_holder w \<noteq> Some DownlinkTask; DownlinkTask \<notin> set (gw_queue w)\<rbrakk>
    \<Longrightarrow> gate_step pick w (gate_lock DownlinkTask w)"
| gate_handshake_recv: "\<lbrakk>gw_holder w = Some HandshakeTask; gw_phase w = HsLocking k; gw_flight w = Suc f\<rbrakk>
    \<Longrightarrow> gate_step pick w (gate_unlock pick (w\<lparr>gw_flight := f, gw_phase := HsFinished True\<rparr>))"
| gate_timeout: "\<lbrakk>gw_holder w = Some HandshakeTask; gw_phase w = HsLocking k; gw_flight w = 0;
      DownlinkTask \<in> set (gw_queue w)\<rbrakk>
    \<Longrightarrow> gate_step pick w (gate_unlock pick (w\<lparr>gw_phase := HsReady k\<rparr>))"
| gate_give_up: "gw_phase w = HsReady 0 \<Longrightarrow> gate_step pick w (w\<lparr>gw_phase := HsFinished False\<rparr>)"

section \<open>The invariant\<close>

text \<open>
  Before the handshake holds the gate, the downlink has already taken the answer to the last
  init.
\<close>

definition gate_inv :: "gate_world \<Rightarrow> bool" where
  "gate_inv w \<longleftrightarrow>
     (case gw_phase w of
        HsReady k \<Rightarrow> gw_holder w = Some DownlinkTask \<and> gw_queue w = [] \<and> gw_flight w = 0
          \<and> gw_answers w = gw_inits w
      | HsSent k \<Rightarrow> gw_queue w = []
          \<and> (gw_holder w = Some DownlinkTask \<and> gw_inits w = Suc (gw_answers w) \<and> gw_flight w = 0
             \<or> gw_holder w = Some DownlinkTask \<and> gw_answers w = gw_inits w \<and> gw_flight w \<le> 1
             \<or> gw_holder w = None \<and> gw_answers w = gw_inits w \<and> gw_flight w = 0)
      | HsLocking k \<Rightarrow>
          gw_holder w = Some DownlinkTask \<and> gw_queue w = [HandshakeTask]
          \<and> (gw_inits w = Suc (gw_answers w) \<and> gw_flight w = 0 \<or> gw_answers w = gw_inits w \<and> gw_flight w \<le> 1)
          \<or> gw_holder w = Some HandshakeTask \<and> gw_queue w \<in> {[], [DownlinkTask]}
          \<and> gw_answers w = gw_inits w \<and> gw_flight w = 0
      | HsFinished ok \<Rightarrow> \<not> ok \<and> gw_holder w = Some DownlinkTask \<and> gw_queue w = [] \<and> gw_flight w = 0
          \<and> gw_answers w = gw_inits w)"

lemma gate_inv_step:
  assumes "fifo pick" "gate_step pick w w'" "gate_inv w"
  shows "gate_inv w'"
  using assms(2,3,1)
  by (cases rule: gate_step.cases)
    (auto simp: gate_inv_def gate_lock_def gate_unlock_def fifo_def split: gate_phase.splits)

interpretation gate: invariant_system "\<lambda>w. w = gate_start" "gate_step pick" "\<lambda>w. fifo pick \<longrightarrow> gate_inv w"
  for pick
proof unfold_locales
  show "fifo pick \<longrightarrow> gate_inv s" if "s = gate_start" for s
    using that by (simp add: gate_inv_def gate_start_def)
  show "fifo pick \<longrightarrow> gate_inv s'" if "fifo pick \<longrightarrow> gate_inv s" "gate_step pick s s'" for s s'
    using that gate_inv_step by blast
qed

text \<open>While no answer has come, the handshake is in its first attempt.\<close>

definition gate_silent :: "gate_world \<Rightarrow> bool" where
  "gate_silent w \<longleftrightarrow> gw_flight w \<le> gw_answers w
     \<and> (gw_answers w = 0 \<longrightarrow> gw_holder w = Some DownlinkTask
          \<and> (gw_inits w = 0 \<and> gw_phase w = HsReady ATTEMPTS
             \<or> gw_inits w = 1 \<and> (\<exists>k. gw_phase w = HsSent k \<or> gw_phase w = HsLocking k)))"

interpretation gate_silence: invariant_system "\<lambda>w. w = gate_start" "gate_step pick" gate_silent
  for pick
proof unfold_locales
  show "gate_silent s" if "s = gate_start" for s
    using that by (simp add: gate_silent_def gate_start_def)
  show "gate_silent s'" if "gate_silent s" "gate_step pick s s'" for s s'
    using that(2,1)
    by (cases rule: gate_step.cases)
      (auto simp: gate_silent_def gate_lock_def gate_unlock_def ATTEMPTS_def split: option.splits)
qed

section \<open>Properties\<close>

text \<open>C23: On an idle tunnel a re-handshake never succeeds. The downlink waits in \<open>recv\<close> with the
  gate in its hands, so it gets every response; the handshake gets the gate only afterwards, times
  out, and hands the gate back before it sends its next init. The server has replaced the session
  by then, and the tunnel is dead.\<close>

theorem rehandshake_starves:
  assumes "fifo pick" "reach (\<lambda>w. w = gate_start) (gate_step pick) w"
  shows "gw_phase w \<noteq> HsFinished True \<and> (gw_holder w = Some HandshakeTask \<longrightarrow> gw_flight w = 0)"
  using gate.reach_inv [OF assms(2)] assms(1) by (auto simp: gate_inv_def split: gate_phase.splits)

text \<open>C24: Against a silent server a re-handshake hangs. The timeout does not cover the wait for the
  gate, which the downlink keeps until a datagram comes: as long as none does, the client has sent
  at most one init and the loop of ten attempts is still in its first one.\<close>

theorem rehandshake_hangs:
  assumes "reach (\<lambda>w. w = gate_start) (gate_step pick) w" "gw_answers w = 0"
  shows "gw_inits w \<le> 1 \<and> gw_holder w = Some DownlinkTask \<and> (\<forall>ok. gw_phase w \<noteq> HsFinished ok)"
  using gate_silence.reach_inv [OF assms(1)] assms(2) by (auto simp: gate_silent_def)

text \<open>A first attempt whose response the downlink takes.\<close>

definition first_waiter :: "gate_task list \<Rightarrow> gate_task option" where
  "first_waiter q = (case q of [] \<Rightarrow> None | t # _ \<Rightarrow> Some t)"

lemma fifo_first_waiter: "fifo first_waiter"
  by (simp add: fifo_def first_waiter_def)

definition gate_waiting :: gate_world where
  "gate_waiting = gate_start\<lparr>gw_phase := HsLocking 9, gw_inits := 1, gw_queue := [HandshakeTask]\<rparr>"

lemma gate_waiting_reach: "reach (\<lambda>w. w = gate_start) (gate_step first_waiter) gate_waiting"
proof -
  have "gate_step first_waiter gate_start (gate_start\<lparr>gw_phase := HsSent 9, gw_inits := 1\<rparr>)"
    using gate_send [of gate_start 9 first_waiter] by (simp add: gate_start_def ATTEMPTS_def)
  moreover have "reach (\<lambda>w. w = gate_start) (gate_step first_waiter) gate_start" by (rule reach_init) simp
  ultimately have r: "reach (\<lambda>w. w = gate_start) (gate_step first_waiter)
      (gate_start\<lparr>gw_phase := HsSent 9, gw_inits := 1\<rparr>)"
    by (metis reach_step)
  have "gate_step first_waiter (gate_start\<lparr>gw_phase := HsSent 9, gw_inits := 1\<rparr>) gate_waiting"
    using gate_wait [of "gate_start\<lparr>gw_phase := HsSent 9, gw_inits := 1\<rparr>" 9 first_waiter]
    by (simp add: gate_start_def gate_lock_def gate_waiting_def)
  then show ?thesis by (rule reach_step [OF r])
qed

lemma rehandshake_hangs_witness:
  "reach (\<lambda>w. w = gate_start) (gate_step first_waiter) gate_waiting \<and> gw_inits gate_waiting = 1
    \<and> gw_phase gate_waiting \<noteq> HsFinished False"
proof -
  have "gw_answers gate_waiting = 0" by (simp add: gate_waiting_def gate_start_def)
  from rehandshake_hangs [OF gate_waiting_reach this] show ?thesis
    using gate_waiting_reach by (simp add: gate_waiting_def)
qed

lemma rehandshake_starves_witness:
  "\<exists>w. reach (\<lambda>w. w = gate_start) (gate_step first_waiter) w \<and> gw_stolen w = 1
    \<and> gw_holder w = Some HandshakeTask \<and> gw_flight w = 0"
proof -
  let ?w1 = "gate_waiting\<lparr>gw_answers := 1, gw_flight := 1\<rparr>"
  let ?w2 = "gate_waiting\<lparr>gw_answers := 1, gw_stolen := 1, gw_holder := Some HandshakeTask, gw_queue := []\<rparr>"
  have "gate_step first_waiter gate_waiting ?w1"
    using gate_answer [of gate_waiting first_waiter] by (simp add: gate_waiting_def gate_start_def)
  note r1 = reach_step [OF gate_waiting_reach this]
  have "gate_step first_waiter ?w1 ?w2"
    using gate_downlink_recv [of ?w1 0 first_waiter]
    by (simp add: gate_waiting_def gate_start_def gate_unlock_def first_waiter_def)
  note r2 = reach_step [OF r1 this]
  have "gw_holder ?w2 = Some HandshakeTask" "gw_stolen ?w2 = 1" by simp_all
  with rehandshake_starves [OF fifo_first_waiter r2] r2 show ?thesis by blast
qed

end
