(* ===== verification/Tunnel.thy ===== *)
theory Tunnel
  imports Client Server_Props
begin

text \<open>
  Client and server together: \<open>tunnel_up\<close> relates the client's slot to the server's session of
  the client's tunnel address. The handshake of \<open>client.rs\<close> run against \<open>handle_handshake\<close> of
  \<open>server.rs\<close> establishes it, and every packet that crosses in either direction keeps it.
\<close>

section \<open>Two linked sessions\<close>

text \<open>The window of the receiver has only seen nonces below the sender's next one.\<close>

definition window_before :: "replay_window \<Rightarrow> u64 \<Rightarrow> bool" where
  "window_before w n \<longleftrightarrow> replay_wf w \<and> highest w \<le> n \<and> (\<forall>m \<in> seen w. m < n)"

lemma window_before_default [simp]: "window_before replay_default n"
  using replay_code.wf_init replay_code.newest_init replay_code.recent_init
  by (simp add: window_before_def)

lemma window_before_fresh: "window_before w n \<Longrightarrow> fst (check_and_update w n)"
  using replay_code.accepts [of w n] by (force simp: window_before_def word_le_nat_alt)

lemma window_before_next:
  assumes "window_before w n" "n \<noteq> - 1"
  shows "window_before (snd (check_and_update w n)) (n + 1)"
proof -
  have lt: "n < n + 1" using unat_Suc_word [OF assms(2)] by (simp add: word_less_nat_alt)
  have wf: "replay_wf w" "max (highest w) n = n" using assms(1) by (auto simp: window_before_def max_def)
  note f = window_before_fresh [OF assms(1)]
  show ?thesis
    using replay_code.wf_check [OF wf(1)] replay_code.newest_accept [OF wf(1) f] replay_code.recent_accept [OF wf(1) f] wf(2) lt assms(1)
    by (auto simp: window_before_def)
qed

definition sends_to :: "('t, 'k) noise_view \<Rightarrow> 't session \<Rightarrow> 't session \<Rightarrow> bool" where
  "sends_to v a b \<longleftrightarrow> connected v a b \<and> lockstep v a \<and> window_before (replay b) (send_nonce a)"

definition linked :: "('t, 'k) noise_view \<Rightarrow> 't session \<Rightarrow> 't session \<Rightarrow> bool" where
  "linked v a b \<longleftrightarrow> sends_to v a b \<and> sends_to v b a"

lemma send_linked:
  assumes law: "noise_lawful api v" and link: "linked v a b"
    and fits: "length pt \<le> MAX_PAYLOAD" "28 + length pt \<le> k" "length pt \<le> m" "send_nonce a \<noteq> - 1"
  obtains ct a' b' where
    "encrypt api a pt k = (Inr (data_packet (sess_index a) (send_nonce a) ct), a')"
    "decrypt api b (data_packet (sess_index a) (send_nonce a) ct) m = (Inr pt, b')"
    "linked v a' b'" "sess_index a' = sess_index a" "length ct = length pt + 16"
proof -
  have c: "connected v a b" "lockstep v a" "window_before (replay b) (send_nonce a)"
    "connected v b a" "lockstep v b" "window_before (replay a) (send_nonce b)"
    using link by (simp_all add: linked_def sends_to_def)
  have "counter v (transport a) \<noteq> - 1" "length pt + 16 \<le> k - 12" using c(2) fits by (simp_all add: lockstep_def)
  with law fits(1) obtain t' where w: "noise_write api (transport a) pt (k - 12)
      = (Some (seal v (tx_key v (transport a)) (counter v (transport a)) pt), t')"
    "counter v t' = counter v (transport a) + 1" "same_keys v (transport a) t'"
    by (metis write_ok)
  let ?ct = "seal v (rx_key v (transport b)) (send_nonce a) pt"
  have ct: "seal v (tx_key v (transport a)) (counter v (transport a)) pt = ?ct"
    using c(1,2) by (simp add: connected_def lockstep_def)
  let ?a = "a\<lparr>transport := t', send_nonce := send_nonce a + 1\<rparr>"
  have e: "encrypt api a pt k = (Inr (data_packet (sess_index a) (send_nonce a) ?ct), ?a)"
    using w(1) fits by (simp add: encrypt_def data_packet_def ct Let_def)
  note fresh = window_before_fresh [OF c(3)]
  obtain u where d: "decrypt api b (data_packet (sess_index b) (send_nonce a) ?ct) m
      = (Inr pt, b\<lparr>replay := snd (check_and_update (replay b) (send_nonce a)), transport := u\<rparr>)"
    "same_keys v (transport b) u"
    by (rule decrypt_sealed [OF law fresh fits(3,1,4)])
  let ?b = "b\<lparr>replay := snd (check_and_update (replay b) (send_nonce a)), transport := u\<rparr>"
  have "lockstep v ?b" using decrypt_lockstep [OF law c(5), of "data_packet (sess_index b) (send_nonce a) ?ct" m] d(1) by simp
  then have "linked v ?a ?b"
    using c w(2,3) d(2) window_before_next [OF c(3) fits(4)]
    by (auto simp: linked_def sends_to_def connected_def lockstep_def same_keys_def)
  moreover have "sess_index a = sess_index b" using c(1) by (simp add: connected_def)
  ultimately show thesis using e d(1) seal_length [OF law] by (intro that [of ?ct ?a ?b]) simp_all
qed

lemma linked_sym: "linked v a b \<longleftrightarrow> linked v b a"
  by (auto simp: linked_def)

section \<open>A packet in each direction\<close>

definition tunnel_up ::
  "'t transport_api \<Rightarrow> ('t, 'k) noise_view \<Rightarrow> 't session_slot \<Rightarrow> 't server_state \<Rightarrow> ipv4 \<Rightarrow> bool" where
  "tunnel_up api v slot st tip \<longleftrightarrow> table_wf api st
     \<and> (\<exists>live. session_of st tip = Some live \<and> linked v (sl_session slot) (ls_session live))"

text \<open>What the server does with a packet of the client, up to the delivery.\<close>

lemma server_opens:
  assumes "noise_lawful api v" "remote_stable api" "tunnel_up api v slot st tip"
    and fits: "length pt \<le> MAX_PAYLOAD" "28 + length pt \<le> k" "28 + length pt \<le> MAX_MESSAGE"
      "send_nonce (sl_session slot) \<noteq> - 1"
  obtains wire a' st' live where
    "encrypt api (sl_session slot) pt k = (Inr wire, a')"
    "wire \<noteq> []" "hd wire = ucast (sess_index (sl_session slot))" "12 \<le> length wire"
    "data_locked api wire src now st stats = (Some (tip, pt), st', stats)"
    "tunnel_up api v (slot\<lparr>sl_session := a'\<rparr>) st' tip"
    "session_of st' tip = Some live" "ls_peer_addr live = src" "ls_last_seen live = now"
proof -
  obtain live where live: "table_wf api st" "session_of st tip = Some live" "linked v (sl_session slot) (ls_session live)"
    using assms(3) by (auto simp: tunnel_up_def)
  have "length pt \<le> MAX_MESSAGE" using fits(3) by simp
  then obtain ct a' b' where s: "encrypt api (sl_session slot) pt k
      = (Inr (data_packet (sess_index (sl_session slot)) (send_nonce (sl_session slot)) ct), a')"
    "decrypt api (ls_session live) (data_packet (sess_index (sl_session slot)) (send_nonce (sl_session slot)) ct) MAX_MESSAGE
      = (Inr pt, b')" "linked v a' b'" "sess_index a' = sess_index (sl_session slot)"
    by (rule send_linked [OF assms(1) live(3) fits(1,2) _ fits(4)])
  let ?wire = "data_packet (sess_index (sl_session slot)) (send_nonce (sl_session slot)) ct"
  have same: "sess_index (sl_session slot) = sess_index (ls_session live)"
    using live(3) unfolding linked_def sends_to_def connected_def by blast
  have ip: "ls_tunnel_ip live = tip" "hm_get (by_index st) (sess_index (ls_session live)) = Some live"
    using live(2) session_of_iff [OF live(1)] by simp_all
  have idx: "u32_from_le (byte_range 0 4 ?wire) = sess_index (ls_session live)" by (simp add: same)
  from live(1) assms(2) show thesis
  proof (cases rule: data_locked_cases [of api st ?wire src now stats])
    case unknown
    then show thesis using idx ip by simp
  next
    case (bad live' e s' st')
    then have "live' = live" using idx ip session_of_iff [OF live(1), of "ls_tunnel_ip live'" live'] by simp
    then show thesis using bad(3) s(2) by simp
  next
    case (good live' plain s' st')
    have "live' = live" using good(1,2) idx ip session_of_iff [OF live(1), of "ls_tunnel_ip live'" live'] by simp
    then have "plain = pt" "s' = b'" using good(3) s(2) by simp_all
    then show thesis
      using good(4,5,8) s(1,3,4) \<open>live' = live\<close> ip(1) data_packet_hd
      by (intro that [of ?wire a' st' "live\<lparr>ls_session := b', ls_peer_addr := src, ls_last_seen := now\<rparr>"])
        (simp_all add: tunnel_up_def)
  qed
qed

lemma uplink_delivers:
  assumes "noise_lawful api v" "remote_stable api" "tunnel_up api v slot st tip"
    and "ipv4_src plain = Some tip" "28 + length plain \<le> MAX_MESSAGE" "send_nonce (sl_session slot) \<noteq> - 1"
    and "is_enabled cstats" "is_enabled sstats" "ucast (sess_index (sl_session slot)) \<noteq> (1 :: u8)"
  shows "\<exists>wire slot' cstats' st' sstats' live.
      client_uplink api (Some plain) now wall True slot cstats = (ClSend wire, slot', cstats')
    \<and> handle_datagram hapi api private draws clock True wire src st sstats = Some (DlTun plain, st', sstats')
    \<and> tunnel_up api v slot' st' tip \<and> session_of st' tip = Some live \<and> ls_peer_addr live = src"
proof -
  have fits: "length plain \<le> MAX_PAYLOAD" using assms(5) by (simp add: MAX_MESSAGE_def MAX_PAYLOAD_def)
  obtain wire a' st' live where s: "encrypt api (sl_session slot) plain MAX_MESSAGE = (Inr wire, a')"
    "wire \<noteq> []" "hd wire = ucast (sess_index (sl_session slot))" "12 \<le> length wire"
    "data_locked api wire src (hc_last_seen clock) st sstats = (Some (tip, plain), st', sstats)"
    "tunnel_up api v (slot\<lparr>sl_session := a'\<rparr>) st' tip"
    "session_of st' tip = Some live" "ls_peer_addr live = src" "ls_last_seen live = hc_last_seen clock"
    by (rule server_opens [OF assms(1-3) fits assms(5) assms(5) assms(6)])
  have ne: "plain \<noteq> []" using assms(4) by (auto simp: ipv4_src_def is_ipv4_def)
  have "deliver plain tip (hc_wall clock) True sstats = (DlTun plain, record_rx (hc_wall clock) (of_nat (length plain)) sstats)"
    by (simp add: deliver_DlTun assms(4))
  then have "handle_datagram hapi api private draws clock True wire src st sstats
      = Some (DlTun plain, st', record_rx (hc_wall clock) (of_nat (length plain)) sstats)"
    using s(2-5) assms(8,9) by (cases wire) (simp_all add: handle_datagram_def handle_data_def data_admit_def)
  moreover have "client_uplink api (Some plain) now wall True slot cstats
      = (ClSend wire, slot\<lparr>sl_session := a', sl_last_tx := now\<rparr>, record_tx wall (of_nat (length plain)) cstats)"
    using s(1) ne assms(7) by (simp add: client_uplink_def)
  moreover have "tunnel_up api v (slot\<lparr>sl_session := a', sl_last_tx := now\<rparr>) st' tip"
    using s(6) by (simp add: tunnel_up_def)
  ultimately show ?thesis using s(7,8) by blast
qed

text \<open>C6: The tunnel carries packets from client to server. While the tunnel is up, an IPv4
  packet from the client's own tunnel address that the client reads from its TUN device comes out
  of the server's TUN device unchanged, the tunnel stays up for the next one, and the server
  answers to the address the datagram came from. The hypotheses besides a lawful Noise
  implementation: the inner source is the tunnel address of the session, the packet has at most
  \<open>MAX_MESSAGE - 28\<close> bytes, the sending nonce is not exhausted, the data plane is enabled on both
  sides, and the session index is not 1 modulo 256 (those sessions deliver nothing,
  \<open>index_one_mod_256_is_dead\<close>).\<close>

theorem tunnel_uplink_delivers:
  assumes "noise_lawful api v" "remote_stable api" "tunnel_up api v slot st tip"
    and "ipv4_src plain = Some tip" "28 + length plain \<le> MAX_MESSAGE" "send_nonce (sl_session slot) \<noteq> - 1"
    and "is_enabled cstats" "is_enabled sstats" "ucast (sess_index (sl_session slot)) \<noteq> (1 :: u8)"
  shows "\<exists>wire slot' cstats' st' sstats' live.
      client_uplink api (Some plain) now wall True slot cstats = (ClSend wire, slot', cstats')
    \<and> handle_datagram hapi api private draws clock True wire src st sstats = Some (DlTun plain, st', sstats')
    \<and> tunnel_up api v slot' st' tip \<and> session_of st' tip = Some live \<and> ls_peer_addr live = src"
  by (rule uplink_delivers [OF assms])

text \<open>C7: The tunnel carries packets from server to client. While it is up, a packet for the
  client's tunnel address that the server reads from its TUN device is sent to the address the
  client was last authenticated from, comes out of the client's TUN device unchanged, and the
  tunnel stays up. The hypotheses besides a lawful Noise implementation: the data plane is enabled
  on both sides, the packet has at most \<open>MAX_MESSAGE - 28\<close> bytes, and the server's sending nonce is
  not exhausted.\<close>

theorem tunnel_downlink_delivers:
  assumes "noise_lawful api v" "remote_stable api" "tunnel_up api v slot st tip"
    and "session_of st tip = Some live" "ipv4_dst plain = Some tip" "28 + length plain \<le> MAX_MESSAGE"
    and "send_nonce (ls_session live) \<noteq> - 1" "is_enabled cstats" "is_enabled sstats"
  shows "\<exists>wire slot' cstats' st' sstats'.
      handle_tun api plain now wall True st sstats = (UpSend wire (ls_peer_addr live), st', sstats')
    \<and> client_downlink api (Some wire) cnow cwall True slot cstats = (ClTun plain, slot', cstats')
    \<and> tunnel_up api v slot' st' tip \<and> sl_last_rx slot' = cnow"
proof -
  have wf: "table_wf api st" and link: "linked v (ls_session live) (sl_session slot)"
    using assms(3,4) linked_sym by (auto simp: tunnel_up_def)
  have fits: "length plain \<le> MAX_PAYLOAD" "length plain \<le> MAX_MESSAGE"
    using assms(6) by (simp_all add: MAX_MESSAGE_def MAX_PAYLOAD_def)
  obtain ct a' b' where s: "encrypt api (ls_session live) plain MAX_MESSAGE
      = (Inr (data_packet (sess_index (ls_session live)) (send_nonce (ls_session live)) ct), a')"
    "decrypt api (sl_session slot) (data_packet (sess_index (ls_session live)) (send_nonce (ls_session live)) ct) MAX_MESSAGE
      = (Inr plain, b')" "linked v a' b'"
    by (rule send_linked [OF assms(1) link fits(1) assms(6) fits(2) assms(7)])
  have ne: "plain \<noteq> []" using assms(5) by (auto simp: ipv4_dst_def is_ipv4_def)
  let ?wire = "data_packet (sess_index (ls_session live)) (send_nonce (ls_session live)) ct"
  have down: "client_downlink api (Some ?wire) cnow cwall True slot cstats
      = (ClTun plain, slot\<lparr>sl_session := b', sl_last_rx := cnow\<rparr>, record_rx cwall (of_nat (length plain)) cstats)"
    using s(2) ne assms(8) by (simp add: client_downlink_def)
  from wf assms(2) show ?thesis
  proof (cases rule: uplink_locked_cases [of api st tip plain now sstats])
    case unknown
    then show ?thesis using assms(4) by simp
  next
    case (bad live' e s' st')
    then show ?thesis using assms(4) s(1) by simp
  next
    case (good live' w' s' st')
    then have eq: "live' = live" "w' = ?wire" "s' = a'" using assms(4) s(1) by simp_all
    have "handle_tun api plain now wall True st sstats
        = (UpSend ?wire (ls_peer_addr live), st', record_tx wall (of_nat (length plain)) sstats)"
      using good(4) assms(5,9) ne by (simp add: handle_tun_def uplink_admit_def eq)
    moreover have "tunnel_up api v (slot\<lparr>sl_session := b', sl_last_rx := cnow\<rparr>) st' tip"
      using good(5,8) s(3) linked_sym by (auto simp: tunnel_up_def eq)
    ultimately show ?thesis using down by auto
  qed
qed

text \<open>When a tick of the maintenance task shakes hands.\<close>

lemma maintenance_handshakes:
  assumes "is_enabled stats"
  shows "fst (maintenance_tick hapi api exchange private server_pub tm now clk wall slot stats n) = TickHandshake
    \<longleftrightarrow> fst (maintenance_needs tm now slot) \<or> fst (snd (maintenance_needs tm now slot))"
  using assms
  by (auto simp: maintenance_tick_def Let_def split_def split: sum.split)

text \<open>C37: Keepalives keep only one side alive. The server opens a client's keepalive and counts
  the session as used, but answers nothing; so however many the client sends, the time of its last
  receive stands still, and the maintenance tick of the client of an idle but healthy tunnel shakes
  hands again exactly when the reconnect timeout has passed since that time or a rekey is due. The
  hypotheses besides a lawful Noise implementation and a tunnel that is up: the client's sending
  nonce is not exhausted, the data plane is enabled on both sides, and the session index is not
  1 modulo 256 (there the server takes the keepalive for a handshake).\<close>

theorem keepalive_unanswered:
  assumes "noise_lawful api v" "remote_stable api" "tunnel_up api v slot st tip"
    and "send_nonce (sl_session slot) \<noteq> - 1"
    and "is_enabled cstats" "is_enabled sstats" "ucast (sess_index (sl_session slot)) \<noteq> (1 :: u8)"
  shows "\<exists>wire slot' st' sstats' live.
      send_keepalive api now slot = (Inr wire, slot')
    \<and> handle_datagram hapi api spriv draws clock True wire src st sstats = Some (DlQuiet, st', sstats')
    \<and> tunnel_up api v slot' st' tip \<and> session_of st' tip = Some live \<and> ls_last_seen live = hc_last_seen clock
    \<and> sl_last_rx slot' = sl_last_rx slot
    \<and> (\<forall>later. fst (snd (maintenance_needs tm later slot')) \<longleftrightarrow> tm_reconnect tm \<le> duration_since later (sl_last_rx slot))
    \<and> (\<forall>later clk wall n. fst (maintenance_tick chapi api exchange priv spub tm later clk wall slot' cstats n) = TickHandshake
        \<longleftrightarrow> fst (maintenance_needs tm later slot') \<or> tm_reconnect tm \<le> duration_since later (sl_last_rx slot))"
proof -
  have fits: "length ([] :: bytes) \<le> MAX_PAYLOAD" "28 + length ([] :: bytes) \<le> 64" "28 + length ([] :: bytes) \<le> MAX_MESSAGE"
    by (simp_all add: MAX_MESSAGE_def)
  obtain wire a' st' live where s: "encrypt api (sl_session slot) [] 64 = (Inr wire, a')"
    "wire \<noteq> []" "hd wire = ucast (sess_index (sl_session slot))" "12 \<le> length wire"
    "data_locked api wire src (hc_last_seen clock) st sstats = (Some (tip, []), st', sstats)"
    "tunnel_up api v (slot\<lparr>sl_session := a'\<rparr>) st' tip"
    "session_of st' tip = Some live" "ls_peer_addr live = src" "ls_last_seen live = hc_last_seen clock"
    by (rule server_opens [OF assms(1-3) fits assms(4)])
  have "handle_datagram hapi api spriv draws clock True wire src st sstats
      = Some (DlQuiet, st', touch_activity (hc_wall clock) sstats)"
    using s(2-5) assms(6,7) by (cases wire) (simp_all add: handle_datagram_def handle_data_def data_admit_def deliver_def)
  moreover have "send_keepalive api now slot = (Inr wire, slot\<lparr>sl_session := a', sl_last_tx := now\<rparr>)"
    using s(1) by (simp add: send_keepalive_def)
  moreover have "tunnel_up api v (slot\<lparr>sl_session := a', sl_last_tx := now\<rparr>) st' tip"
    using s(6) by (simp add: tunnel_up_def)
  moreover have "fst (snd (maintenance_needs tm later (slot\<lparr>sl_session := a', sl_last_tx := now\<rparr>)))
      \<longleftrightarrow> tm_reconnect tm \<le> duration_since later (sl_last_rx slot)" for later
    by (simp add: maintenance_needs_def Let_def)
  moreover note maintenance_handshakes [OF assms(5), of chapi api exchange priv spub tm]
  ultimately show ?thesis using s(7,9) by (intro exI conjI) (assumption | simp)+
qed

section \<open>The handshake over a lossy network\<close>

text \<open>
  A network for \<open>client_handshake\<close>: the first \<open>hn_lost\<close> inits are lost, then an init reaches
  the server, which handles it when no other task interferes and sends its response, if any.
\<close>

record 't hs_network =
  hn_lost :: nat
  hn_state :: "'t server_state"
  hn_stats :: runtime_stats

definition lossy_exchange ::
  "('h, 't) handshake_api \<Rightarrow> 't transport_api \<Rightarrow> bytes \<Rightarrow> bytes list \<Rightarrow> hs_clock \<Rightarrow> socket_addr
     \<Rightarrow> 't hs_network \<Rightarrow> bytes \<Rightarrow> recv_result option \<times> 't hs_network" where
  "lossy_exchange hapi api private draws clock src n msg =
     (if 0 < hn_lost n then (Some TimedOut, n\<lparr>hn_lost := hn_lost n - 1\<rparr>)
      else case handle_datagram hapi api private draws clock True msg src (hn_state n) (hn_stats n) of
          Some (DlSend response _, st, stats) \<Rightarrow> (Some (Received response), n\<lparr>hn_state := st, hn_stats := stats\<rparr>)
        | Some (_, st, stats) \<Rightarrow> (Some TimedOut, n\<lparr>hn_state := st, hn_stats := stats\<rparr>)
        | None \<Rightarrow> (Some TimedOut, n))"

text \<open>Writing a handshake message never exceeds the buffer.\<close>

definition hs_bounded :: "('h, 't) handshake_api \<Rightarrow> bool" where
  "hs_bounded hapi \<longleftrightarrow> (\<forall>h pt k m h'. hs_write hapi h pt k = (Some m, h') \<longrightarrow> length m \<le> k)"

lemma handshake_lost:
  assumes "\<forall>i. \<exists>h msg h1. initiator_new (chapi i) priv spub = Inr h \<and> write_init (chapi i) h 256 = (Inr msg, h1)"
  shows "handshake_loop chapi (lossy_exchange shapi api spriv draws clock src) priv spub i (hn_lost n + left) n
    = handshake_loop chapi (lossy_exchange shapi api spriv draws clock src) priv spub (i + hn_lost n) left (n\<lparr>hn_lost := 0\<rparr>)"
proof (induction "hn_lost n" arbitrary: n i)
  case 0
  then have eq: "n\<lparr>hn_lost := 0\<rparr> = n" by (cases n) simp
  show ?case unfolding eq using 0 by simp
next
  case (Suc k)
  obtain h msg h1 where h: "initiator_new (chapi i) priv spub = Inr h" "write_init (chapi i) h 256 = (Inr msg, h1)"
    using assms by blast
  have "lossy_exchange shapi api spriv draws clock src n msg = (Some TimedOut, n\<lparr>hn_lost := k\<rparr>)"
    using Suc(2) by (simp add: lossy_exchange_def)
  moreover have "hn_lost n + left = Suc (k + left)" using Suc(2) by simp
  ultimately show ?case
    using Suc(1) [of "n\<lparr>hn_lost := k\<rparr>" "Suc i"] h Suc(2) [symmetric] by simp
qed

lemma commit_enabled:
  "hs_commit api clock st stats src idx session = (r, st', stats') \<Longrightarrow> rs_enabled stats' = rs_enabled stats"
  by (auto simp: hs_commit_def Let_def refresh_stats_def stats_defs split: option.splits if_splits)

lemma handshake_reaches:
  assumes ik: "\<forall>i. ik_pair (chapi i) shapi api v pub" and bounded: "hs_bounded shapi"
    and builds: "\<forall>i. \<exists>h. initiator_new (chapi i) priv (pub spriv) = Inr h" "responder_new shapi spriv = Inr r"
    and wf: "table_wf api (hn_state n)" and lost: "hn_lost n < ATTEMPTS"
    and admit: "fst (hs_admit (hn_state n) src (hc_admit clock))"
    and alloc: "alloc_index (hn_state n) draws = Some (idx, rest)"
    and peer: "hm_get (peers (hn_state n)) (pub priv) = Some meta"
  shows "\<exists>session n'. client_handshake chapi (lossy_exchange shapi api spriv draws clock src) priv (pub spriv) n = (Inr session, n')
    \<and> tunnel_up api v (slot_new session now) (hn_state n') (pm_tunnel_ip meta)
    \<and> sess_index session = idx \<and> send_nonce session = 0 \<and> rs_enabled (hn_stats n') = rs_enabled (hn_stats n)"
proof -
  let ?ex = "lossy_exchange shapi api spriv draws clock src" and ?st = "hn_state n"
  have idx: "idx \<noteq> 0" using alloc_index_fresh [OF alloc] by simp
  have k: "129 \<le> (256 :: nat)" by simp
  have inits: "\<forall>i. \<exists>h msg h1. initiator_new (chapi i) priv (pub spriv) = Inr h \<and> write_init (chapi i) h 256 = (Inr msg, h1)"
    using builds(1) ik_exchange [OF ik [rule_format] idx k _ builds(2)] by metis
  obtain h where h: "initiator_new (chapi (1 + hn_lost n)) priv (pub spriv) = Inr h" using builds(1) by blast
  obtain msg h1 srv response cli where x:
    "write_init (chapi (1 + hn_lost n)) h 256 = (Inr msg, h1)" "responder_finish shapi r msg idx = Inr (srv, response)"
    "initiator_finish (chapi (1 + hn_lost n)) h1 response = Inr cli" "sess_index srv = idx" "sess_index cli = idx"
    "connected v cli srv" "connected v srv cli" "lockstep v cli" "lockstep v srv"
    "remote_static api srv = Some (pub priv)"
    "send_nonce srv = 0" "send_nonce cli = 0" "replay srv = replay_default" "replay cli = replay_default"
    "msg \<noteq> []" "hd msg = 1" "\<exists>m2 h r. response = 2 # u32_to_le idx @ m2 \<and> hs_write shapi h [] 128 = (Some m2, r)"
    by (rule ik_exchange [OF ik [rule_format] idx k h builds(2)])
  have short: "take 256 response = response"
    using x(17) bounded by (fastforce simp: hs_bounded_def intro!: take_all)
  obtain sta where a: "hs_admit ?st src (hc_admit clock) = (True, sta)" using admit by (metis prod.collapse)
  note keep = hs_admit_keeps [OF a]
  have alloc': "alloc_index sta draws = Some (idx, rest)" using alloc alloc_index_same [OF keep(4)] by metis
  have linked: "linked v cli srv" using x by (simp add: linked_def sends_to_def)
  have "table_wf api sta" using keep(1) wf by simp
  then obtain st2 stats2 live where c: "hs_commit api clock sta (hn_stats n) src idx srv = (Inr (), st2, stats2)"
    "table_wf api st2" "session_of st2 (pm_tunnel_ip meta) = Some live" "ls_session live = srv"
    by (rule commit_known [OF _ idx x(4,10)]) (use peer keep alloc_index_fresh [OF alloc] in simp_all)
  have hs: "handle_handshake shapi api spriv draws clock msg src ?st (hn_stats n) = Some (Inr response, st2, stats2)"
    using a builds(2) alloc' x(2) c(1) by (simp add: handle_handshake_def)
  have "handle_datagram shapi api spriv draws clock True msg src ?st (hn_stats n) = Some (DlSend response src, st2, stats2)"
    using x(15,16) hs by (cases msg) (simp_all add: handle_datagram_def)
  then have ex: "?ex (n\<lparr>hn_lost := 0\<rparr>) msg = (Some (Received response), n\<lparr>hn_lost := 0, hn_state := st2, hn_stats := stats2\<rparr>)"
    by (simp add: lossy_exchange_def)
  obtain left where "ATTEMPTS = hn_lost n + Suc left" using lost less_imp_Suc_add by fastforce
  then have "client_handshake chapi ?ex priv (pub spriv) n
      = handshake_loop chapi ?ex priv (pub spriv) (1 + hn_lost n) (Suc left) (n\<lparr>hn_lost := 0\<rparr>)"
    unfolding client_handshake_def using handshake_lost [OF inits, of shapi api spriv draws clock src 1 n "Suc left"] by metis
  also have "\<dots> = (Inr cli, n\<lparr>hn_lost := 0, hn_state := st2, hn_stats := stats2\<rparr>)"
    using h x(1,3) ex short by simp
  finally show ?thesis
    using c(2-4) linked x(5,12) commit_enabled [OF c(1)] by (auto simp: tunnel_up_def slot_new_def)
qed

text \<open>C5: The client connects. When fewer than ten of its handshake packets are lost, the
  limiter admits it, the server's index loop ends and the client's key is that of a configured
  peer, whatever random choices the client makes in each attempt and the server in its answer, \<open>client_handshake\<close> returns a session and the tunnel is up between it and the session the
  server holds for the peer's tunnel address.\<close>

theorem handshake_connects:
  assumes ik: "\<forall>i. ik_pair (chapi i) shapi api v pub" and bounded: "hs_bounded shapi"
    and builds: "\<forall>i. \<exists>h. initiator_new (chapi i) priv (pub spriv) = Inr h" "responder_new shapi spriv = Inr r"
    and wf: "table_wf api (hn_state n)" and lost: "hn_lost n < ATTEMPTS"
    and admit: "fst (hs_admit (hn_state n) src (hc_admit clock))"
    and alloc: "alloc_index (hn_state n) draws = Some (idx, rest)"
    and peer: "hm_get (peers (hn_state n)) (pub priv) = Some meta"
  shows "\<exists>session n'. client_handshake chapi (lossy_exchange shapi api spriv draws clock src) priv (pub spriv) n = (Inr session, n')
    \<and> tunnel_up api v (slot_new session now) (hn_state n') (pm_tunnel_ip meta)
    \<and> sess_index session = idx"
  using handshake_reaches [OF assms] by blast

section \<open>Witnesses\<close>

definition demo_slot :: "demo_transport session_slot" where
  "demo_slot = slot_new (from_transport 42 (demo_end 1 2)) 100"

definition demo_reply :: bytes where
  "demo_reply = sample_packet (Ipv4Addr 8 8 8 8) demo_tip"

lemma demo_tunnel_up: "tunnel_up demo_api demo_view demo_slot (demo_state 42) demo_tip"
proof -
  have "session_of (demo_state 42) demo_tip = Some (demo_live 42)" by (simp add: session_of_def demo_state_def)
  moreover have "linked demo_view (sl_session demo_slot) (ls_session (demo_live 42))"
    by (simp add: linked_def sends_to_def connected_def lockstep_def demo_slot_def slot_new_def demo_live_def
        demo_session_def demo_view_def demo_end_def)
  ultimately show ?thesis using demo_table_wf [of 42] by (simp add: tunnel_up_def)
qed

lemma demo_slot_fields: "send_nonce (sl_session demo_slot) = 0" "sess_index (sl_session demo_slot) = 42"
  by (simp_all add: demo_slot_def slot_new_def)

lemma demo_enabled: "is_enabled demo_stats"
  by (simp add: demo_stats_def stats_new_def is_enabled_def)

lemma demo_inner_fits: "ipv4_src demo_inner = Some demo_tip" "28 + length demo_inner \<le> MAX_MESSAGE"
    "ipv4_dst demo_reply = Some demo_tip" "28 + length demo_reply \<le> MAX_MESSAGE"
  using ipv4_addrs_sample(1) [of demo_tip "Ipv4Addr 8 8 8 8" "[]"] ipv4_addrs_sample(2) [of "Ipv4Addr 8 8 8 8" demo_tip "[]"]
  by (simp_all add: demo_inner_def demo_reply_def MAX_MESSAGE_def)

lemma tunnel_uplink_delivers_witness:
  "\<exists>wire slot' cstats' st' sstats'.
      client_uplink demo_api (Some demo_inner) 101 None True demo_slot demo_stats = (ClSend wire, slot', cstats')
    \<and> handle_datagram demo_hapi demo_api demo_server_key [] demo_clock True wire demo_src (demo_state 42) demo_stats
        = Some (DlTun demo_inner, st', sstats')"
  using tunnel_uplink_delivers [OF demo_lawful demo_remote_stable demo_tunnel_up demo_inner_fits(1,2) _ demo_enabled demo_enabled]
  by (simp add: demo_slot_fields) blast

lemma tunnel_downlink_delivers_witness:
  "\<exists>wire slot' cstats' st' sstats'.
      handle_tun demo_api demo_reply 7 None True (demo_state 42) demo_stats = (UpSend wire demo_src, st', sstats')
    \<and> client_downlink demo_api (Some wire) 103 None True demo_slot demo_stats = (ClTun demo_reply, slot', cstats')"
proof -
  have live: "session_of (demo_state 42) demo_tip = Some (demo_live 42)" by (simp add: session_of_def demo_state_def)
  have "send_nonce (ls_session (demo_live 42)) \<noteq> - 1" "ls_peer_addr (demo_live 42) = demo_src"
    by (simp_all add: demo_live_def demo_session_def)
  with tunnel_downlink_delivers [OF demo_lawful demo_remote_stable demo_tunnel_up live demo_inner_fits(3,4) _ demo_enabled demo_enabled]
  show ?thesis by metis
qed

lemma keepalive_unanswered_witness:
  "\<exists>wire slot' st' sstats'.
      send_keepalive demo_api 125 demo_slot = (Inr wire, slot')
    \<and> handle_datagram demo_hapi demo_api demo_server_key [] demo_clock True wire demo_src (demo_state 42) demo_stats
        = Some (DlQuiet, st', sstats')"
proof -
  have "send_nonce (sl_session demo_slot) \<noteq> - 1" "ucast (sess_index (sl_session demo_slot)) \<noteq> (1 :: u8)"
    by (simp_all add: demo_slot_fields)
  with keepalive_unanswered [where now = 125 and hapi = demo_hapi and spriv = demo_server_key and draws = "[]"
      and clock = demo_clock and src = demo_src and chapi = "\<lambda>_. demo_hapi" and exchange = "\<lambda>n m. (None, n :: unit)",
      OF demo_lawful demo_remote_stable demo_tunnel_up _ demo_enabled demo_enabled]
  show ?thesis by metis
qed

definition demo_network :: "demo_transport hs_network" where
  "demo_network = \<lparr>hn_lost = 3, hn_state = server_init demo_peers 10 10, hn_stats = demo_stats\<rparr>"

definition bounded_hapi :: "(demo_hs, demo_transport) handshake_api" where
  "bounded_hapi = demo_hapi\<lparr>hs_write := \<lambda>h pt k. case demo_hs_write h pt k of
     (Some m, h') \<Rightarrow> if length m \<le> k then (Some m, h') else (None, h') | (None, h') \<Rightarrow> (None, h')\<rparr>"

text \<open>The client's side in attempt \<open>i\<close>, with a random byte of its own behind the key.\<close>

definition attempt_hapi :: "nat \<Rightarrow> (demo_hs, demo_transport) handshake_api" where
  "attempt_hapi i = bounded_hapi\<lparr>hs_write := \<lambda>h pt k. case h of
     DemoInit priv spub \<Rightarrow> if length priv = 32 \<and> 33 \<le> k then (Some (priv @ [of_nat i]), DemoSent spub) else (None, h)
   | _ \<Rightarrow> hs_write bounded_hapi h pt k\<rparr>"

lemma attempt_ik_pair: "\<forall>i. ik_pair (attempt_hapi i) bounded_hapi demo_api demo_view (\<lambda>k. k)"
  by (auto simp: ik_pair_def attempt_hapi_def bounded_hapi_def demo_hapi_def demo_api_def demo_view_def demo_end_def split: if_splits)

text \<open>What the handshake needs of the example.\<close>

lemma demo_connecting:
  "hs_bounded bounded_hapi"
  "\<forall>i. \<exists>h. initiator_new (attempt_hapi i) demo_key demo_server_key = Inr h"
  "responder_new bounded_hapi demo_server_key = Inr (DemoResp demo_server_key)"
  "table_wf demo_api (hn_state demo_network)" "hn_lost demo_network < ATTEMPTS"
  "fst (hs_admit (hn_state demo_network) demo_src (hc_admit demo_clock))"
  "alloc_index (hn_state demo_network) [[42, 0, 0, 0]] = Some (42, [])"
  "hm_get (peers (hn_state demo_network)) demo_key = Some \<lparr>pm_tunnel_ip = demo_tip\<rparr>"
proof -
  show "hs_bounded bounded_hapi"
    by (auto simp: hs_bounded_def bounded_hapi_def split: prod.splits option.splits if_splits)
  show "\<forall>i. \<exists>h. initiator_new (attempt_hapi i) demo_key demo_server_key = Inr h"
    "responder_new bounded_hapi demo_server_key = Inr (DemoResp demo_server_key)"
    by (simp_all add: initiator_new_def responder_new_def attempt_hapi_def bounded_hapi_def demo_hapi_def demo_key_def
        demo_server_key_def)
  show "table_wf demo_api (hn_state demo_network)" "hn_lost demo_network < ATTEMPTS"
    "fst (hs_admit (hn_state demo_network) demo_src (hc_admit demo_clock))"
    "alloc_index (hn_state demo_network) [[42, 0, 0, 0]] = Some (42, [])"
    by (simp_all add: demo_network_def table_wf_init ATTEMPTS_def demo_clock_def demo_admit demo_draws)
  show "hm_get (peers (hn_state demo_network)) demo_key = Some \<lparr>pm_tunnel_ip = demo_tip\<rparr>"
    by (simp add: demo_network_def server_init_def demo_peers_def)
qed

lemma handshake_connects_witness:
  "\<exists>session n'. client_handshake attempt_hapi
      (lossy_exchange bounded_hapi demo_api demo_server_key [[42, 0, 0, 0]] demo_clock demo_src) demo_key demo_server_key
      demo_network = (Inr session, n') \<and> sess_index session = 42"
  using handshake_connects [OF attempt_ik_pair demo_connecting] by blast

end
