(* ===== verification/Client_Run.thy ===== *)
theory Client_Run
  imports Client_Props Tunnel
begin

text \<open>
  The life of the client process: the subcommand \<open>client\<close> of \<open>src/src/main.rs\<close>, which loads the
  configuration and calls \<open>run\<close> of \<open>src/src/client.rs\<close>, and the end of \<open>run\<close>, where the routes are
  dropped. In between the control socket may switch the data plane off and on (\<open>toggle_step\<close>).
\<close>

definition cmd_client ::
  "(string \<Rightarrow> client_table option) \<Rightarrow> (string \<Rightarrow> bytes option) \<Rightarrow> client_error + unit \<Rightarrow> (nat \<Rightarrow> ('h, 't) handshake_api)
     \<Rightarrow> ('n \<Rightarrow> bytes \<Rightarrow> recv_result option \<times> 'n) \<Rightarrow> (tun_config \<Rightarrow> 'd option) \<Rightarrow> ('d \<Rightarrow> string option)
     \<Rightarrow> 'k net_env \<Rightarrow> string \<Rightarrow> instant \<Rightarrow> instant \<Rightarrow> wall_clock \<Rightarrow> 'n \<Rightarrow> 'k net
     \<Rightarrow> (client_error + client_config \<times> 't client_state) \<times> 'n \<times> 'k net" where
  "cmd_client toml_client b64 socket hapi exchange create_as_async dev_name env path now started wall n w =
     (case client_load toml_client b64 (nhost w) path of
        Inl e \<Rightarrow> (Inl (ClientConfig e), n, w)
      | Inr cfg \<Rightarrow>
          (case client_start b64 socket hapi exchange create_as_async dev_name env cfg now started wall n w of
             (Inl e, n, w) \<Rightarrow> (Inl e, n, w)
           | (Inr st, n, w) \<Rightarrow> (Inr (cfg, st), n, w)))"

text \<open>The end of \<open>run\<close>, after Ctrl-C or the end of a task, once no hook holds the routes.\<close>

definition client_stop :: "'k net_env \<Rightarrow> client_routes \<Rightarrow> 'k net \<Rightarrow> 'k net" where
  "client_stop env routes w = routes_drop env routes w"

definition client_world :: "'t client_state \<Rightarrow> 'k net \<Rightarrow> 'k toggle_world" where
  "client_world st w = \<lparr>tw_routes = cl_routes st, tw_stats = cl_stats st, tw_net = w, tw_pending = []\<rparr>"

section \<open>Routes over the life of the client\<close>

text \<open>The hook moves only routes the client owns, and owns the same afterwards.\<close>

lemma hook_owned:
  assumes law: "routing_lawful env R" and hook: "client_hook env ep ks wall on (g, stats, w) = (g', stats', w')"
  shows "owned_routes g' = owned_routes g" "R (kernel w') \<subseteq> R (kernel w) \<union> owned_routes g"
proof -
  have "owned_routes g' = owned_routes g \<and> R (kernel w') \<subseteq> R (kernel w) \<union> owned_routes g"
  proof (cases on)
    case False
    then have t: "routes_teardown env g w = (g', w')" using hook_off(1) [of env ep ks wall g stats w g' stats' w'] hook by simp
    have ksd: "R (kernel (drop_opt (\<lambda>_. ks_drop env) x w)) = R (kernel w)" for x :: "unit option"
      by (rule rt_drop_opt_keep) (rule rt_ks_drop [OF law])
    have "R (kernel (run_each env (full_tunnel ''del'' (rt_tun_name g)) v)) \<subseteq> R (kernel v)" for v
      using rt_full_del [OF law, of "rt_tun_name g" v] by (simp add: removes_def)
    then have "R (kernel w') \<subseteq> R (kernel w)"
      using t ksd [of "rt_kill_switch g"] by (auto simp: routes_teardown_def Let_def split: if_splits)
    moreover have "g' = g\<lparr>rt_kill_switch := None\<rparr>" using t by (simp add: routes_teardown_def Let_def)
    ultimately show ?thesis by (auto simp: owned_routes_def)
  next
    case True
    then have r: "snd (reenable_with_ks env ep ks g w) = (g', w')" using hook_on(1) [of env ep ks wall g stats w g' stats' w'] hook by simp
    obtain r1 w1 where re: "reenable env g w = (r1, w1)" by force
    have "R (kernel w1) \<subseteq> R (kernel w) \<union> (if rt_redirect_all g then tun_routes (rt_tun_name g) else {})"
      using re rt_full_replace [OF law, of "rt_tun_name g" w r1 w1] by (simp add: reenable_def split: if_splits)
    then have 1: "R (kernel w1) \<subseteq> R (kernel w) \<union> owned_routes g" by (auto simp: owned_routes_def split: if_splits)
    have "g' = g \<and> w' = w1
        \<or> (\<exists>ip port r3. ks_install env ip port (rt_tun_name g) w1 = (r3, w') \<and> (g' = g \<or> (\<exists>x. g' = g\<lparr>rt_kill_switch := Some x\<rparr>)))"
      using r re
      by (auto simp: reenable_with_ks_def split: sum.splits prod.splits if_splits option.splits socket_addr.splits)
    then consider "g' = g" "w' = w1"
      | ip port r3 where "ks_install env ip port (rt_tun_name g) w1 = (r3, w')" "owned_routes g' = owned_routes g"
      by (auto simp: owned_routes_def)
    then show ?thesis
    proof cases
      case (2 ip port r3)
      then show ?thesis using rt_ks_install [OF law 2(1)] 1 by simp
    qed (use 1 in simp)
  qed
  then show "owned_routes g' = owned_routes g" "R (kernel w') \<subseteq> R (kernel w) \<union> owned_routes g" by simp_all
qed

definition routes_inv :: "('k \<Rightarrow> string list set) \<Rightarrow> string list set \<Rightarrow> 'k toggle_world \<Rightarrow> bool" where
  "routes_inv R A t \<longleftrightarrow> R (kernel (tw_net t)) - owned_routes (tw_routes t) \<subseteq> A"

lemma routes_inv_step:
  assumes law: "routing_lawful env R" and step: "toggle_step env ep ks pid t l t'" and inv: "routes_inv R A t"
  shows "routes_inv R A t'"
  using step
proof (cases rule: toggle_step.cases)
  case (toggle_request wall now op resp stats hook pending)
  then show ?thesis using inv by (simp add: routes_inv_def)
next
  case (toggle_hook before on rest wall g stats w)
  then show ?thesis using inv hook_owned [OF law toggle_hook(4)] by (auto simp: routes_inv_def)
qed

interpretation life: invariant_system "\<lambda>t. routes_inv R A t" "toggle_any env ep ks pid"
  "\<lambda>t. routing_lawful env R \<longrightarrow> routes_inv R A t" for R A env ep ks pid
proof unfold_locales
  show "routing_lawful env R \<longrightarrow> routes_inv R A t'"
    if "routing_lawful env R \<longrightarrow> routes_inv R A t" "toggle_any env ep ks pid t t'" for t t'
    using that routes_inv_step unfolding toggle_any_def by blast
qed simp

text \<open>What \<open>routes_install\<close> leaves, for either kind of endpoint.\<close>

lemma install_clean:
  assumes law: "routing_lawful env R" and run: "routes_install env ep tun opts w = (r, w')"
  shows "case r of
      Inl e \<Rightarrow> R (kernel w') \<subseteq> R (kernel w) \<union> undeleted (since w w')
    | Inr st \<Rightarrow> R (kernel w') - owned_routes st \<subseteq> R (kernel w) \<union>
        (if ro_disable_ipv6 opts \<and> rt_ipv6 st = None then {v6_low} else {})"
proof (cases ep)
  case (V4 ip port)
  show ?thesis by (rule install_drop_clean [OF law run [unfolded V4]])
next
  case (V6 a p f s)
  then show ?thesis using run by (auto simp: routes_install_def)
qed

lemma client_start_routes:
  assumes "client_start b64 socket hapi exchange mk dev_name env cfg now started wall n w = (r, n', w')"
  obtains (untouched) e where "r = Inl e" "w' = w"
  | (routes) tun r1 where "routes_install env (cc_endpoint cfg) tun (client_route_opts cfg) w = (r1, w')"
      "(\<exists>e. r1 = Inl e \<and> r = Inl (ClientRoute e)) \<or> (\<exists>st. r1 = Inr (cl_routes st) \<and> r = Inr st)"
proof -
  have "(\<exists>e. r = Inl e \<and> w' = w) \<or> (\<exists>tun r1. routes_install env (cc_endpoint cfg) tun (client_route_opts cfg) w = (r1, w')
      \<and> ((\<exists>e. r1 = Inl e \<and> r = Inl (ClientRoute e)) \<or> (\<exists>st. r1 = Inr (cl_routes st) \<and> r = Inr st)))"
    using assms unfolding client_start_def Let_def
    by (auto split: sum.splits prod.splits option.splits)
  then show thesis using untouched routes by blast
qed

section \<open>Properties\<close>


section \<open>Witness\<close>

definition life_b64 :: "string \<Rightarrow> bytes option" where
  "life_b64 s = (if s = ''C'' then Some demo_key else if s = ''S'' then Some demo_server_key else None)"

definition life_cfg :: client_config where
  "life_cfg = \<lparr>cc_endpoint = V4 demo_server 51820, cc_private_key = Some ''C'', cc_private_key_file = None,
     cc_server_public_key = Some ''S'', cc_server_public_key_file = None, cc_address = ''10.66.66.2/24'', cc_mtu = 1400,
     cc_redirect_all = True, cc_kill_switch = True, cc_disable_ipv6 = True, cc_dns = [], cc_keepalive_secs = 25,
     cc_rekey_secs = 120, cc_reconnect_timeout_secs = 45, cc_control_mode = ''0600''\<rparr>"

definition life_table :: client_table where
  "life_table = \<lparr>ct_endpoint = Some (V4 demo_server 51820), ct_private_key = Some ''C'', ct_private_key_file = None,
     ct_server_public_key = Some ''S'', ct_server_public_key_file = None, ct_address = Some ''10.66.66.2/24'', ct_mtu = None,
     ct_redirect_all = None, ct_kill_switch = Some True, ct_disable_ipv6 = None, ct_dns = None, ct_keepalive_secs = None,
     ct_rekey_secs = None, ct_reconnect_timeout_secs = None, ct_control_mode = None\<rparr>"

definition life_machine :: "demo_kernel net" where
  "life_machine = demo_machine [(''client.toml'', [])] []"

lemma life_parsed:
  "decode_key life_b64 ''C'' = Inr demo_key" "decode_key life_b64 ''S'' = Inr demo_server_key"
  "parse_cidr ''10.66.66.2/24'' = Inr (Ipv4Addr 10 66 66 2, 24)"
  by code_simp+

lemma life_mode: "parse_mode ''0600'' = Inr 384"
  by (simp add: parse_mode_def trim_def ascii_ws_def ws2_def ws3_def parse_unsigned_def to_digit_def)

lemmas life_keys = client_load_private_key_def client_load_server_public_key_def load_key_material_def
  resolve_key_inline_def

lemma life_load: "client_load (\<lambda>_. Some life_table) life_b64 (nhost life_machine) ''client.toml'' = Inr life_cfg"
proof -
  have "fs_read_to_string (nhost life_machine) ''client.toml'' = Some []"
    by (simp add: life_machine_def demo_machine_def demo_hosts_def fs_read_to_string_def)
  moreover have "client_of_table life_table = Some life_cfg"
    by (simp add: client_of_table_def life_table_def life_cfg_def or_default_def default_mtu_def default_true_def
        default_keepalive_def default_rekey_def default_reconnect_def default_control_mode_def)
  moreover have "client_load_private_key life_b64 h life_cfg = Inr demo_key"
    "client_load_server_public_key life_b64 h life_cfg = Inr demo_server_key" for h
    by (simp_all add: life_keys life_cfg_def life_parsed)
  moreover have "cc_control_mode life_cfg = ''0600''" "cc_mtu life_cfg = 1400" "cc_dns life_cfg = []"
    by (simp_all add: life_cfg_def)
  ultimately show ?thesis by (simp add: client_load_def life_mode)
qed

lemma life_start:
  obtains st n' w' where "client_start life_b64 (Inr ()) attempt_hapi
      (lossy_exchange bounded_hapi demo_api demo_server_key [[42, 0, 0, 0]] demo_clock demo_src) Some (\<lambda>_. None)
      (demo_net True demo_text) life_cfg 0 0 None demo_network life_machine = (Inr st, n', w')"
    "cl_routes st = demo_routes"
proof -
  obtain session n' where hs: "client_handshake attempt_hapi
      (lossy_exchange bounded_hapi demo_api demo_server_key [[42, 0, 0, 0]] demo_clock demo_src) demo_key demo_server_key
      demo_network = (Inr session, n')"
    using handshake_reaches [OF attempt_ik_pair demo_connecting] by blast
  have "client_route_opts life_cfg = demo_opts"
    by (simp add: client_route_opts_def life_cfg_def demo_opts_def)
  moreover obtain w' where "routes_install (demo_net True demo_text) (V4 demo_server 51820) ''soulvpn'' demo_opts life_machine
      = (Inr demo_routes, w')"
    unfolding life_machine_def by (rule demo_install)
  ultimately show thesis
    using hs that
    by (simp add: client_start_def life_cfg_def life_keys life_parsed life_mode tun_create_def Let_def)
qed


end
