(* ===== verification/End_To_End.thy ===== *)
theory End_To_End
  imports Server_Run Client_Run
begin

text \<open>
  Two configuration files and a network: a server and a client that are started from files with
  matching keys, and the first packet between them. Everything between the files and the packet is
  the code of the other theories: loading and checking, the server's start-up, the client's
  start-up with its handshake, and the handlers of both sides.
\<close>

text \<open>What the client's start makes of a successful handshake.\<close>

lemma client_start_connected:
  assumes "client_load_private_key b64 (nhost w) cfg = Inr priv"
    and "client_load_server_public_key b64 (nhost w) cfg = Inr server_pub"
    and "parse_cidr (cc_address cfg) = Inr ap" "parse_mode (cc_control_mode cfg) = Inr m"
    and "client_handshake hapi exchange priv server_pub n = (Inr session, n1)"
    and "client_start b64 (Inr ()) hapi exchange mk dev_name env cfg now started wall n w = (r, n', w')"
  shows "n' = n1 \<and> (case r of Inl e \<Rightarrow> e = CreateTun \<or> (\<exists>e'. e = ClientRoute e')
    | Inr st \<Rightarrow> cl_slot st = slot_new session now \<and> is_enabled (cl_stats st))"
  using assms
  by (auto simp: client_start_def Let_def is_enabled_def stats_defs stats_new_def
      split: prod.splits option.splits sum.splits)

lemma client_loaded_mode:
  "client_load toml b64 h path = Inr cfg \<Longrightarrow> \<exists>m. parse_mode (cc_control_mode cfg) = Inr m"
  by (auto simp: client_load_def split: option.splits sum.splits if_splits)

text \<open>The state a server starts with has nobody to refuse and no index in use.\<close>

lemma first_handshake_admitted: "fst (hs_admit (server_init ps limit secs) src t)"
  by (simp add: hs_admit_def server_init_def rl_allow_def rl_new_def Let_def max_def word_le_nat_alt split_def)

lemma first_index: "random_session_index draws = Some (idx, rest) \<Longrightarrow> alloc_index (server_init ps limit secs) draws = Some (idx, rest)"
  by (subst alloc_index.simps) (simp add: server_init_def)


section \<open>Witness\<close>

lemma connected_life:
  "\<exists>st n' w'. cmd_client (\<lambda>_. Some life_table) life_b64 (Inr ()) attempt_hapi
      (lossy_exchange bounded_hapi demo_api demo_server_key [[42, 0, 0, 0]] demo_clock demo_src) Some (\<lambda>_. None)
      (demo_net True demo_text) ''client.toml'' 0 0 None demo_network life_machine = (Inr (life_cfg, st), n', w')"
proof -
  obtain st n' w' where "client_start life_b64 (Inr ()) attempt_hapi
      (lossy_exchange bounded_hapi demo_api demo_server_key [[42, 0, 0, 0]] demo_clock demo_src) Some (\<lambda>_. None)
      (demo_net True demo_text) life_cfg 0 0 None demo_network life_machine = (Inr st, n', w')"
    by (rule life_start)
  then show ?thesis by (simp add: cmd_client_def life_load)
qed


end
