(* ===== verification/Monitor.thy ===== *)
theory Monitor
  imports Control Complex_Main
begin

text \<open>
  The dashboard, \<open>src/src/monitor.rs\<close>: the rates it computes from successive snapshots, and its
  loop with the key bindings. What is drawn and the terminal are in \<open>Dashboard\<close>. A daemon is a state
  \<open>'d\<close> with a function \<open>ask\<close> for \<open>control::request\<close>, whose error is its text.
\<close>

section \<open>Floating point\<close>

text \<open>
  The \<open>f64\<close> values here are not negative and far from the limits of the format, so each is the
  rational number with a significand of 53 bits that is nearest to the exact result, ties to even.
\<close>

definition f64_nearest :: "rat \<Rightarrow> rat" where
  "f64_nearest q =
     (let (a, b) = quotient_of q; n = nat a; d = nat b
      in if n = 0 then 0
         else
           let k = int (bit_length n) - int (bit_length d);
               ge = (if 0 \<le> k then d * 2 ^ nat k \<le> n else d \<le> n * 2 ^ nat (- k));
               e = (if ge then k else k - 1) - 52
           in if 0 \<le> e then of_nat (round_div n (d * 2 ^ nat e) * 2 ^ nat e)
              else of_nat (round_div (n * 2 ^ nat (- e)) d) / 2 ^ nat (- e))"

definition as_secs_f64 :: "duration \<Rightarrow> rat" where
  "as_secs_f64 d =
     f64_nearest (of_nat (f64_of_nat (as_secs d)) + f64_nearest (of_nat (d mod nanos_per_sec) / of_nat nanos_per_sec))"

text \<open>\<open>x as u64\<close>, which saturates.\<close>

definition f64_to_u64 :: "rat \<Rightarrow> u64" where
  "f64_to_u64 x = of_nat (min (2 ^ 64 - 1) (nat \<lfloor>x\<rfloor>))"

section \<open>Rates\<close>

record rates =
  prev_tx :: u64
  prev_rx :: u64
  prev_at :: instant
  tx_rate :: rat
  rx_rate :: rat
  tx_hist :: "u64 list"
  rx_hist :: "u64 list"

definition rates_new :: "instant \<Rightarrow> status_snapshot \<Rightarrow> rates" where
  "rates_new now snap =
     \<lparr>prev_tx = ss_tx_bytes snap, prev_rx = ss_rx_bytes snap, prev_at = now, tx_rate = 0, rx_rate = 0,
      tx_hist = replicate 60 0, rx_hist = replicate 60 0\<rparr>"

definition byte_rate :: "rat \<Rightarrow> u64 \<Rightarrow> u64 \<Rightarrow> rat" where
  "byte_rate dt cur prev = f64_nearest (of_nat (f64_of_nat (unat cur - unat prev)) / dt)"

definition push_hist :: "u64 list \<Rightarrow> rat \<Rightarrow> u64 list" where
  "push_hist hist rate =
     (let hist = hist @ [f64_to_u64 rate] in if 60 < length hist then tl hist else hist)"

definition rates_update :: "instant \<Rightarrow> status_snapshot \<Rightarrow> rates \<Rightarrow> rates" where
  "rates_update now snap self =
     (let dt = max (as_secs_f64 (duration_since now (prev_at self))) (f64_nearest (1 / 1000));
          tx = byte_rate dt (ss_tx_bytes snap) (prev_tx self);
          rx = byte_rate dt (ss_rx_bytes snap) (prev_rx self)
      in \<lparr>prev_tx = ss_tx_bytes snap, prev_rx = ss_rx_bytes snap, prev_at = now, tx_rate = tx, rx_rate = rx,
          tx_hist = push_hist (tx_hist self) tx, rx_hist = push_hist (rx_hist self) rx\<rparr>)"

section \<open>The loop\<close>

definition POLL_TICK :: duration where
  "POLL_TICK = 500000000"

datatype key_code = KeyChar char | KeyEsc | KeyOther

datatype ui_event = NoEvent | OtherEvent | KeyRelease | KeyPress key_code

record ui_state =
  ui_rates :: rates
  ui_snap :: status_snapshot
  ui_last_poll :: instant
  ui_err :: "string option"
  ui_msg :: "string option"

definition ui_start :: "instant \<Rightarrow> instant \<Rightarrow> status_snapshot \<Rightarrow> ui_state" where
  "ui_start t1 t2 first =
     \<lparr>ui_rates = rates_new t1 first, ui_snap = first, ui_last_poll = t2 - POLL_TICK, ui_err = None, ui_msg = None\<rparr>"

text \<open>The three clock readings are those of \<open>elapsed\<close>, of \<open>update\<close> and after the request.\<close>

definition ui_poll ::
  "('d \<Rightarrow> string \<Rightarrow> (string + status_snapshot) \<times> 'd) \<Rightarrow> instant \<times> instant \<times> instant \<Rightarrow> ui_state \<Rightarrow> 'd
     \<Rightarrow> ui_state \<times> 'd" where
  "ui_poll ask clk ui d =
     (let (t1, t2, t3) = clk
      in if duration_since t1 (ui_last_poll ui) \<ge> POLL_TICK then
           (case ask d ''status'' of
              (Inr s, d) \<Rightarrow> (ui\<lparr>ui_rates := rates_update t2 s (ui_rates ui), ui_snap := s, ui_err := None, ui_last_poll := t3\<rparr>, d)
            | (Inl e, d) \<Rightarrow> (ui\<lparr>ui_err := Some e, ui_last_poll := t3\<rparr>, d))
         else (ui, d))"

definition ui_request ::
  "('d \<Rightarrow> string \<Rightarrow> (string + status_snapshot) \<times> 'd) \<Rightarrow> string \<Rightarrow> (status_snapshot \<Rightarrow> string) \<Rightarrow> ui_state \<Rightarrow> 'd
     \<Rightarrow> ui_state \<times> 'd" where
  "ui_request ask op msg ui d =
     (case ask d op of
        (Inr s, d) \<Rightarrow> (ui\<lparr>ui_snap := s, ui_msg := Some (msg s), ui_err := None\<rparr>, d)
      | (Inl e, d) \<Rightarrow> (ui\<lparr>ui_err := Some e\<rparr>, d))"

text \<open>The key bindings; \<open>None\<close> leaves the loop.\<close>

definition ui_key ::
  "('d \<Rightarrow> string \<Rightarrow> (string + status_snapshot) \<times> 'd) \<Rightarrow> instant \<Rightarrow> key_code \<Rightarrow> ui_state \<Rightarrow> 'd
     \<Rightarrow> ui_state option \<times> 'd" where
  "ui_key ask now key ui d =
     (case key of
        KeyEsc \<Rightarrow> (None, d)
      | KeyOther \<Rightarrow> (Some ui, d)
      | KeyChar c \<Rightarrow>
          if c = CHR ''q'' then (None, d)
          else if c = CHR ''o'' then
            (let (ui, d) = ui_request ask ''on'' (\<lambda>_. ''tunnel enabled'') ui d in (Some ui, d))
          else if c = CHR ''f'' then
            (let (ui, d) = ui_request ask ''off'' (\<lambda>_. ''tunnel disabled'') ui d in (Some ui, d))
          else if c = CHR '' '' then
            (let op = (if ss_enabled (ui_snap ui) then ''off'' else ''on'');
                 (ui, d) = ui_request ask op
                   (\<lambda>s. ''tunnel '' @ (if ss_enabled s then ''enabled'' else ''disabled'')) ui d
             in (Some ui, d))
          else if c = CHR ''r'' then
            (Some (ui\<lparr>ui_last_poll := now - POLL_TICK, ui_msg := Some ''refresh''\<rparr>), d)
          else (Some ui, d))"

text \<open>
  One round. \<open>drawn\<close> and \<open>event\<close> are what the terminal yields, \<open>None\<close> for an error; the outer
  \<open>None\<close> is the end of the loop by an error.
\<close>

definition ui_round ::
  "('d \<Rightarrow> string \<Rightarrow> (string + status_snapshot) \<times> 'd) \<Rightarrow> instant \<times> instant \<times> instant \<Rightarrow> instant \<Rightarrow> bool
     \<Rightarrow> ui_event option \<Rightarrow> ui_state \<Rightarrow> 'd \<Rightarrow> ui_state option option \<times> 'd" where
  "ui_round ask clk now drawn event ui d =
     (let (ui, d) = ui_poll ask clk ui d
      in if \<not> drawn then (None, d)
         else case event of
             None \<Rightarrow> (None, d)
           | Some (KeyPress key) \<Rightarrow> (let (r, d) = ui_key ask now key ui d in (Some r, d))
           | Some _ \<Rightarrow> (Some (Some ui), d))"

section \<open>Properties\<close>

definition daemon_ask :: "u32 \<Rightarrow> wall_clock \<Rightarrow> instant \<Rightarrow> runtime_stats \<Rightarrow> string \<Rightarrow> (string + status_snapshot) \<times> runtime_stats" where
  "daemon_ask pid wall now stats op =
     (let (resp, stats, hook) = control_reply pid wall now stats op
      in (case cr_status resp of Some s \<Rightarrow> Inr s | None \<Rightarrow> Inl (case cr_error resp of None \<Rightarrow> [] | Some e \<Rightarrow> e), stats))"

lemma daemon_ask_toggle:
  assumes "op = ''on'' \<or> op = ''off''"
  shows "\<exists>s stats'. daemon_ask pid wall now stats op = (Inr s, stats') \<and> rs_enabled stats' = (op = ''on'')
    \<and> ss_enabled s = (op = ''on'')"
  using assms by (auto simp: daemon_ask_def control_reply_def Let_def snapshot_def is_enabled_def)

text \<open>The space bar does what the dashboard shows. Whatever the daemon's flag is by then, after
  a press the daemon is in the opposite of the state that was displayed, and the display and the
  message say so.\<close>

theorem space_toggles_display:
  "\<exists>ui' stats'. ui_key (daemon_ask pid wall t) now (KeyChar CHR '' '') ui stats = (Some ui', stats')
    \<and> rs_enabled stats' = (\<not> ss_enabled (ui_snap ui)) \<and> ss_enabled (ui_snap ui') = rs_enabled stats'
    \<and> ui_err ui' = None
    \<and> ui_msg ui' = Some (if rs_enabled stats' then ''tunnel enabled'' else ''tunnel disabled'')"
proof -
  let ?op = "if ss_enabled (ui_snap ui) then ''off'' else ''on''"
  have "?op = ''on'' \<or> ?op = ''off''" by simp
  then obtain s stats' where a: "daemon_ask pid wall t stats ?op = (Inr s, stats')" "rs_enabled stats' = (?op = ''on'')"
    "ss_enabled s = (?op = ''on'')"
    using daemon_ask_toggle by blast
  show ?thesis using a(2,3) by (simp add: ui_key_def ui_request_def a(1) Let_def split del: if_split) simp
qed

lemma f64_nearest_0 [simp]: "f64_nearest 0 = 0"
  by (simp add: f64_nearest_def)

lemma f64_of_nat_0 [simp]: "f64_of_nat 0 = 0"
  by (simp add: f64_of_nat_def round_div_def bit_length.simps)

lemma push_hist_full: "length h = 60 \<Longrightarrow> push_hist h r = tl h @ [f64_to_u64 r]"
  by (cases h) (simp_all add: push_hist_def)

text \<open>The histories of the dashboard hold exactly the last sixty samples: their length is sixty
  after any number of updates, each update drops the oldest and appends the current rate, and a
  counter that did not grow, because the link was idle or the daemon restarted, shows as zero.\<close>

theorem history_window:
  fixes ups :: "(instant \<times> status_snapshot) list" and t0 :: instant and s0 :: status_snapshot
  defines "r \<equiv> fold (\<lambda>(t, s). rates_update t s) ups (rates_new t0 s0)"
  shows "length (tx_hist r) = 60 \<and> length (rx_hist r) = 60
    \<and> tx_hist (rates_update t s r) = tl (tx_hist r) @ [f64_to_u64 (tx_rate (rates_update t s r))]
    \<and> rx_hist (rates_update t s r) = tl (rx_hist r) @ [f64_to_u64 (rx_rate (rates_update t s r))]
    \<and> tx_rate (rates_update t s (r\<lparr>prev_tx := max b (ss_tx_bytes s)\<rparr>)) = 0"
proof -
  have "length (tx_hist (fold (\<lambda>(t, s). rates_update t s) ups x)) = 60
      \<and> length (rx_hist (fold (\<lambda>(t, s). rates_update t s) ups x)) = 60"
    if "length (tx_hist x) = 60 \<and> length (rx_hist x) = 60" for x
    using that
  proof (induction ups arbitrary: x)
    case (Cons u ups)
    obtain t s where u: "u = (t, s)" by force
    have "length (tx_hist (rates_update t s x)) = 60 \<and> length (rx_hist (rates_update t s x)) = 60"
      using Cons.prems by (simp add: rates_update_def Let_def push_hist_full)
    then show ?case using Cons.IH by (simp add: u)
  qed simp
  then have len: "length (tx_hist r) = 60" "length (rx_hist r) = 60" by (simp_all add: r_def rates_new_def)
  moreover have "unat (ss_tx_bytes s) - unat (max b (ss_tx_bytes s)) = 0"
    by (simp add: max_def word_le_nat_alt)
  ultimately show ?thesis by (simp add: rates_update_def Let_def push_hist_full byte_rate_def)
qed

end
