(* ===== verification/Dashboard.thy ===== *)
theory Dashboard
  imports Monitor
begin

text \<open>
  What the dashboard of \<open>src/src/monitor.rs\<close> shows, \<open>draw\<close> and \<open>draw_traffic\<close>, and its life, \<open>run\<close>
  with the loop of \<open>ui_loop\<close>. A frame is the list of the widgets with the areas they are rendered
  in; how \<open>ratatui\<close> divides the screen by the constraints and paints a widget is not modelled, an
  area is named by its place in the layout. Text is a list of UTF-8 bytes as characters.
\<close>

section \<open>Widgets\<close>

datatype color = Cyan | White | Green | Red | Black | Yellow | Magenta | DarkGray

record style =
  fg :: "color option"
  bg :: "color option"
  bold :: bool

definition raw_style :: style where
  "raw_style = \<lparr>fg = None, bg = None, bold = False\<rparr>"

definition fg_style :: "color \<Rightarrow> style" where
  "fg_style c = raw_style\<lparr>fg := Some c\<rparr>"

datatype span = Span (span_text: string) (span_style: style)

datatype constraint = Length_of nat | Min_of nat

datatype widget =
    Paragraph "span list list" "string option"
  | Gauge string style rat string
  | Sparkline string "u64 list" style

datatype area = Chunk nat | Column nat nat

type_synonym frame = "(area \<times> widget) list"

text \<open>The arrows and the dot of the labels.\<close>

definition up_arrow :: string where "up_arrow = [CHR 0xE2, CHR 0x86, CHR 0x91]"
definition down_arrow :: string where "down_arrow = [CHR 0xE2, CHR 0x86, CHR 0x93]"
definition middle_dot :: string where "middle_dot = [CHR 0xC2, CHR 0xB7]"

section \<open>Drawing\<close>

definition draw_constraints :: "constraint list" where
  "draw_constraints = [Length_of 3, Length_of 9, Length_of 5, Length_of 5, Length_of 3, Min_of 1]"

definition plain_line :: "string \<Rightarrow> span list" where
  "plain_line s = [Span s raw_style]"

definition upper_role :: "role \<Rightarrow> string" where
  "upper_role r = (case r of Client \<Rightarrow> ''CLIENT'' | Server \<Rightarrow> ''SERVER'')"

definition draw_title :: "status_snapshot \<Rightarrow> widget" where
  "draw_title snap =
     Paragraph
       [[Span '' soulvpn '' ((fg_style Cyan)\<lparr>bold := True\<rparr>),
         Span (upper_role (ss_role snap)) (fg_style White),
         Span ''  '' raw_style,
         Span (if ss_enabled snap then '' ON '' else '' OFF '')
           \<lparr>fg = Some Black, bg = Some (if ss_enabled snap then Green else Red), bold = True\<rparr>,
         Span (''  pid '' @ show_nat (unat (ss_pid snap)) @ ''  tun '' @ ss_tun_name snap) raw_style]]
       (Some ''status'')"

definition draw_info :: "status_snapshot \<Rightarrow> widget" where
  "draw_info snap =
     Paragraph
       (map plain_line
         [''endpoint   '' @ ss_endpoint snap,
          ''address    '' @ ss_address snap,
          ''uptime     '' @ format_duration (from_secs (unat (ss_uptime_secs snap))),
          ''sessions   '' @ show_nat (unat (ss_active_sessions snap)),
          ''handshakes ok='' @ show_nat (unat (ss_handshakes_ok snap)) @ ''  fail=''
            @ show_nat (unat (ss_handshakes_fail snap)),
          ''errors     encrypt='' @ show_nat (unat (ss_encrypt_errors snap)) @ ''  decrypt=''
            @ show_nat (unat (ss_decrypt_errors snap)) @ ''  policy='' @ show_nat (unat (ss_policy_drops snap)),
          ''reconnects '' @ show_nat (unat (ss_reconnects snap))])
       (Some ''session'')"

definition rate_text :: "rat \<Rightarrow> string" where
  "rate_text r = format_rate \<lfloor>r\<rfloor>"

definition traffic_constraints :: "constraint list" where
  "traffic_constraints = [Length_of 28, Min_of 10]"

definition draw_traffic :: "nat \<Rightarrow> string \<Rightarrow> u64 \<Rightarrow> u64 \<Rightarrow> rat \<Rightarrow> u64 list \<Rightarrow> color \<Rightarrow> frame" where
  "draw_traffic chunk title packets bytes rate hist color =
     [(Column chunk 0,
       Paragraph
         [[Span title ((fg_style color)\<lparr>bold := True\<rparr>)],
          plain_line (show_nat (unat packets) @ '' pkts''),
          plain_line (format_bytes bytes),
          plain_line (rate_text rate)] None),
      (Column chunk 1, Sparkline ''rate'' hist (fg_style color))]"

text \<open>The ratio of the gauge, an expression of doubles: sums and quotients are rounded.\<close>

definition link_load :: "rates \<Rightarrow> rat" where
  "link_load r =
     (let max_r = max (max (tx_rate r) (rx_rate r)) 1
      in min 1 (max 0 (f64_nearest (f64_nearest (tx_rate r + rx_rate r) / (2 * max_r)))))"

definition draw_gauge :: "rates \<Rightarrow> widget" where
  "draw_gauge r =
     Gauge ''link load (relative)'' (fg_style Cyan) (link_load r)
       (up_arrow @ '' '' @ rate_text (tx_rate r) @ ''  '' @ down_arrow @ '' '' @ rate_text (rx_rate r))"

definition keys_help :: string where
  "keys_help = '' q quit '' @ middle_dot @ '' space toggle '' @ middle_dot @ '' o on '' @ middle_dot
     @ '' f off '' @ middle_dot @ '' r refresh ''"

definition footer :: "string option \<Rightarrow> string option \<Rightarrow> span" where
  "footer err msg =
     (case err of
        Some e \<Rightarrow> Span ('' error: '' @ e @ '' '') (fg_style Red)
      | None \<Rightarrow>
          (case msg of
             Some m \<Rightarrow> Span ('' '' @ m @ '' '') (fg_style Green)
           | None \<Rightarrow> Span keys_help (fg_style DarkGray)))"

definition draw :: "status_snapshot \<Rightarrow> rates \<Rightarrow> string option \<Rightarrow> string option \<Rightarrow> frame" where
  "draw snap rates err msg =
     [(Chunk 0, draw_title snap), (Chunk 1, draw_info snap)]
     @ draw_traffic 2 (''tx '' @ up_arrow) (ss_tx_packets snap) (ss_tx_bytes snap) (tx_rate rates) (tx_hist rates) Yellow
     @ draw_traffic 3 (''rx '' @ down_arrow) (ss_rx_packets snap) (ss_rx_bytes snap) (rx_rate rates) (rx_hist rates) Magenta
     @ [(Chunk 4, draw_gauge rates), (Chunk 5, Paragraph [[footer err msg]] (Some ''keys''))]"

definition ui_draw :: "ui_state \<Rightarrow> frame" where
  "ui_draw ui = draw (ui_snap ui) (ui_rates ui) (ui_err ui) (ui_msg ui)"

section \<open>The life of the dashboard\<close>

text \<open>
  \<open>ui_loop\<close> over what the clock and the terminal give in each round; the result is \<open>None\<close> while
  the loop runs on after the last one, otherwise whether it ended by a key (\<open>Some True\<close>) or by an
  error of the terminal.
\<close>

fun ui_rounds ::
  "('d \<Rightarrow> string \<Rightarrow> (string + status_snapshot) \<times> 'd)
     \<Rightarrow> ((instant \<times> instant \<times> instant) \<times> instant \<times> bool \<times> ui_event option) list \<Rightarrow> ui_state \<Rightarrow> 'd
     \<Rightarrow> bool option \<times> 'd" where
  "ui_rounds ask [] ui d = (None, d)"
| "ui_rounds ask ((clk, now, drawn, event) # rounds) ui d =
     (case ui_round ask clk now drawn event ui d of
        (None, d) \<Rightarrow> (Some False, d)
      | (Some None, d) \<Rightarrow> (Some True, d)
      | (Some (Some ui), d) \<Rightarrow> ui_rounds ask rounds ui d)"

record terminal =
  term_raw :: bool
  term_alternate :: bool
  term_cursor :: bool

text \<open>Which of the operations on the terminal succeed, in the order \<open>run\<close> performs them.\<close>

record term_ops =
  ok_enable_raw :: bool
  ok_enter :: bool
  ok_new :: bool
  ok_disable_raw :: bool
  ok_leave :: bool
  ok_cursor :: bool

text \<open>
  \<open>run\<close>: \<open>probe\<close> is the first request, \<open>looped\<close> the outcome of \<open>ui_loop\<close> from its answer and whether
  the drawing has left the cursor visible. The result is \<open>True\<close> for \<open>Ok\<close>.
\<close>

definition monitor_run :: "term_ops \<Rightarrow> (string + status_snapshot) \<Rightarrow> (status_snapshot \<Rightarrow> bool \<times> bool) \<Rightarrow> terminal
     \<Rightarrow> bool \<times> terminal" where
  "monitor_run ops probe looped term =
     (case probe of
        Inl e \<Rightarrow> (False, term)
      | Inr first \<Rightarrow>
          if \<not> ok_enable_raw ops then (False, term)
          else let term = term\<lparr>term_raw := True\<rparr>
          in if \<not> ok_enter ops then (False, term)
          else let term = term\<lparr>term_alternate := True\<rparr>
          in if \<not> ok_new ops then (False, term)
          else let (result, cursor) = looped first; term = term\<lparr>term_cursor := cursor\<rparr>
          in if \<not> ok_disable_raw ops then (False, term)
          else let term = term\<lparr>term_raw := False\<rparr>
          in if \<not> ok_leave ops then (False, term)
          else let term = term\<lparr>term_alternate := False\<rparr>
          in if \<not> ok_cursor ops then (False, term)
          else (result, term\<lparr>term_cursor := True\<rparr>))"

section \<open>Rounding\<close>

lemma bit_length_bounds:
  assumes "0 < n"
  shows "2 ^ bit_length n \<le> 2 * n" "n < 2 ^ bit_length n"
proof -
  have "0 < bit_length n" using assms by (subst bit_length.simps) simp
  then obtain k where k: "bit_length n = Suc k" by (cases "bit_length n") auto
  then show "2 ^ bit_length n \<le> 2 * n" using bit_length_le [of n k] by simp
  show "n < 2 ^ bit_length n" using bit_length_le [of n "bit_length n"] by simp
qed

text \<open>Scaling the quotient by a power of two and rounding it is off by at most half a unit.\<close>

lemma round_div_error:
  assumes "0 < d"
  shows "\<bar>of_nat (round_div n d) - of_nat n / of_nat d\<bar> \<le> (1 / 2 :: rat)"
proof -
  have "of_nat (2 * n) \<le> (of_nat (2 * (round_div n d * d) + d) :: rat)"
    "of_nat (2 * (round_div n d * d)) \<le> (of_nat (2 * n + d) :: rat)"
    using round_div_near [OF assms, of n] by (simp_all only: of_nat_le_iff)
  then show ?thesis using assms unfolding abs_le_iff by (auto simp: field_simps)
qed

text \<open>The unit of the last place and the rounding at it; the quotient has 52 places above it.\<close>

lemma f64_nearest_unit:
  assumes "0 < q"
  obtains n d e where "q = of_nat n / of_nat d" "0 < d" "(2 :: rat) powi (e + 52) \<le> q"
    "f64_nearest q = (if 0 \<le> e then of_nat (round_div n (d * 2 ^ nat e) * 2 ^ nat e)
      else of_nat (round_div (n * 2 ^ nat (- e)) d) / 2 ^ nat (- e))"
proof -
  obtain a b where ab: "quotient_of q = (a, b)" by force
  define n d where "n = nat a" and "d = nat b"
  have b: "0 < b" using quotient_of_denom_pos [OF ab] .
  have q: "q = of_int a / of_int b" by (rule quotient_of_div [OF ab])
  have "0 < (of_int a :: rat)" using assms b q by (simp add: zero_less_divide_iff)
  then have pos: "0 < n" "0 < d" using b by (simp_all add: n_def d_def)
  have qnd: "q = of_nat n / of_nat d" using q pos by (simp add: n_def d_def)
  define k where "k = int (bit_length n) - int (bit_length d)"
  define ge where "ge = (if 0 \<le> k then d * 2 ^ nat k \<le> n else d \<le> n * 2 ^ nat (- k))"
  define e where "e = (if ge then k else k - 1) - 52"
  have f: "f64_nearest q = (if 0 \<le> e then of_nat (round_div n (d * 2 ^ nat e) * 2 ^ nat e)
      else of_nat (round_div (n * 2 ^ nat (- e)) d) / 2 ^ nat (- e))"
    using pos unfolding f64_nearest_def ab Let_def prod.case n_def [symmetric] d_def [symmetric] e_def ge_def k_def
    by simp
  have lead: "(2 :: rat) powi (e + 52) \<le> q"
  proof (cases ge)
    case True
    show ?thesis
    proof (cases "0 \<le> k")
      case k: True
      then have "of_nat (d * 2 ^ nat k) \<le> (of_nat n :: rat)" using True by (simp only: ge_def if_True of_nat_le_iff)
      then have "(2 :: rat) ^ nat k \<le> q" using pos by (simp add: qnd field_simps)
      then show ?thesis using k True by (simp add: e_def power_int_def)
    next
      case k: False
      then have "of_nat d \<le> (of_nat (n * 2 ^ nat (- k)) :: rat)" using True by (simp only: ge_def if_False of_nat_le_iff)
      then have "1 / (2 :: rat) ^ nat (- k) \<le> q" using pos by (simp add: qnd field_simps)
      then show ?thesis using k True by (simp add: e_def power_int_def field_simps)
    qed
  next
    case False
    have "of_nat (2 ^ bit_length n) \<le> (of_nat (2 * n) :: rat)" "of_nat d < (of_nat (2 ^ bit_length d) :: rat)"
      using bit_length_bounds [OF pos(1)] bit_length_bounds [OF pos(2)] by (simp_all only: of_nat_le_iff of_nat_less_iff)
    then have "2 ^ bit_length n * of_nat d \<le> 2 * of_nat n * (2 ^ bit_length d :: rat)"
      by (intro mult_mono) simp_all
    then have "2 ^ bit_length n / 2 ^ bit_length d \<le> 2 * q" using pos by (simp add: qnd field_simps)
    moreover have "(2 :: rat) powi k = 2 ^ bit_length n / 2 ^ bit_length d"
      by (simp add: k_def power_int_diff)
    moreover have "(2 :: rat) powi (e + 52) = 2 powi k / 2" using False by (simp add: e_def power_int_diff)
    ultimately show ?thesis by simp
  qed
  show thesis by (rule that [OF qnd pos(2) lead f])
qed

text \<open>The rounded value is at most one part in \<open>2 ^ 53\<close> away.\<close>

lemma f64_nearest_error:
  assumes "0 \<le> q"
  shows "\<bar>f64_nearest q - q\<bar> \<le> q / 2 ^ 53"
proof (cases "q = 0")
  case False
  then have "0 < q" using assms by simp
  then obtain n d e where qnd: "q = of_nat n / of_nat d" and pos: "0 < d" and lead: "(2 :: rat) powi (e + 52) \<le> q"
    and f: "f64_nearest q = (if 0 \<le> e then of_nat (round_div n (d * 2 ^ nat e) * 2 ^ nat e)
      else of_nat (round_div (n * 2 ^ nat (- e)) d) / 2 ^ nat (- e))"
    by (rule f64_nearest_unit)
  have unit: "(2 :: rat) powi e \<le> q / 2 ^ 52"
    using lead by (simp add: power_int_add field_simps)
  have "\<bar>f64_nearest q - q\<bar> \<le> 2 powi e / 2"
  proof (cases "0 \<le> e")
    case True
    let ?u = "(2 :: rat) ^ nat e" and ?r = "round_div n (d * 2 ^ nat e)"
    have "f64_nearest q - q = (of_nat ?r - of_nat n / of_nat (d * 2 ^ nat e)) * ?u"
      using True f pos by (simp add: qnd field_simps)
    then have "\<bar>f64_nearest q - q\<bar> = \<bar>of_nat ?r - of_nat n / of_nat (d * 2 ^ nat e)\<bar> * ?u"
      by (simp add: abs_mult)
    also have "\<dots> \<le> 1 / 2 * ?u"
      using pos by (intro mult_right_mono round_div_error) simp_all
    finally show ?thesis using True by (simp add: power_int_def)
  next
    case False
    let ?u = "(2 :: rat) ^ nat (- e)" and ?r = "round_div (n * 2 ^ nat (- e)) d"
    have "f64_nearest q - q = (of_nat ?r - of_nat (n * 2 ^ nat (- e)) / of_nat d) / ?u"
      using False f pos by (simp add: qnd field_simps)
    then have "\<bar>f64_nearest q - q\<bar> = \<bar>of_nat ?r - of_nat (n * 2 ^ nat (- e)) / of_nat d\<bar> / ?u"
      by (simp add: abs_divide)
    also have "\<dots> \<le> 1 / 2 / ?u"
      using pos by (intro divide_right_mono round_div_error) simp_all
    finally show ?thesis using False by (simp add: power_int_def field_simps)
  qed
  then show ?thesis using unit by simp
qed (simp add: f64_nearest_def)

text \<open>A coarse lower bound is all the gauge needs.\<close>

lemma f64_nearest_ge:
  assumes "0 \<le> q"
  shows "999 / 1000 * q \<le> f64_nearest q"
proof -
  have "q / 2 ^ 53 \<le> q / 1000" using assms by (intro divide_left_mono) simp_all
  then show ?thesis using f64_nearest_error [OF assms, unfolded abs_le_iff] by linarith
qed

section \<open>Properties\<close>

text \<open>The gauge is always within its range, and it does not measure load: as soon as one byte a
  second flows in either direction it stands at about a half or above, whatever the rates.\<close>

theorem link_load_range:
  assumes "0 \<le> tx_rate r" "0 \<le> rx_rate r"
  shows "0 \<le> link_load r \<and> link_load r \<le> 1
    \<and> (1 \<le> tx_rate r \<or> 1 \<le> rx_rate r \<longrightarrow> 49 / 100 \<le> link_load r)"
proof -
  define m s where "m = max (max (tx_rate r) (rx_rate r)) 1" and "s = tx_rate r + rx_rate r"
  have "49 / 100 \<le> link_load r" if "1 \<le> tx_rate r \<or> 1 \<le> rx_rate r"
  proof -
    have m: "m \<le> s" "1 \<le> m" using assms that by (auto simp: m_def s_def)
    have "999 / 1000 * s \<le> f64_nearest s" using m by (intro f64_nearest_ge) linarith
    then have sm: "999 / 1000 * m \<le> f64_nearest s" using m(1) by linarith
    let ?q = "f64_nearest s / (2 * m)"
    have q: "999 / 2000 \<le> ?q" using sm m(2) by (subst pos_le_divide_eq) linarith+
    have "999 / 1000 * ?q \<le> f64_nearest ?q" using q by (intro f64_nearest_ge) simp
    then have "49 / 100 \<le> f64_nearest ?q" using q by linarith
    then show ?thesis by (simp add: link_load_def Let_def m_def s_def)
  qed
  then show ?thesis by (simp add: link_load_def Let_def)
qed

theorem link_load_range_witness:
  "49 / 100 \<le> link_load \<lparr>prev_tx = 0, prev_rx = 0, prev_at = 0, tx_rate = 1, rx_rate = 0, tx_hist = [], rx_hist = []\<rparr>"
  using link_load_range [of "\<lparr>prev_tx = 0, prev_rx = 0, prev_at = 0, tx_rate = 1, rx_rate = 0, tx_hist = [], rx_hist = []\<rparr>"]
  by simp

text \<open>A daemon that stops answering stays on the screen with its last snapshot, under an error: the
  poll leaves every area but the last as it was, and the footer shows the error until a request
  succeeds, whatever message was shown before.\<close>

theorem failed_poll_keeps_display:
  assumes "ask d ''status'' = (Inl e, d')" "POLL_TICK \<le> duration_since (fst clk) (ui_last_poll ui)"
  shows "\<exists>ui'. ui_poll ask clk ui d = (ui', d') \<and> butlast (ui_draw ui') = butlast (ui_draw ui)
    \<and> last (ui_draw ui') = (Chunk 5, Paragraph [[Span ('' error: '' @ e @ '' '') (fg_style Red)]] (Some ''keys''))"
  using assms
  by (cases clk) (simp add: ui_poll_def ui_draw_def draw_def footer_def butlast_append draw_traffic_def)

theorem failed_poll_keeps_display_witness:
  "\<exists>ui'. ui_poll (\<lambda>d op. (Inl ''connect'', d)) (POLL_TICK, 1, 2)
      (ui_start 0 0 (snapshot 1 0 (stats_new Client [] [] [] 0 None))) () = (ui', ())
    \<and> snd (last (ui_draw ui')) = Paragraph [[Span '' error: connect '' (fg_style Red)]] (Some ''keys'')"
proof -
  let ?ui = "ui_start 0 0 (snapshot 1 0 (stats_new Client [] [] [] 0 None))"
  have "POLL_TICK \<le> duration_since (fst (POLL_TICK, 1 :: nat, 2 :: nat)) (ui_last_poll ?ui)"
    by (simp add: ui_start_def duration_since_def)
  with failed_poll_keeps_display [of "\<lambda>d op. (Inl ''connect'', d)" "()" "''connect''" "()" "(POLL_TICK, 1, 2)" ?ui]
  show ?thesis by auto
qed

text \<open>The terminal comes back as it was, whether the loop ended by a key or by an error, when every
  operation on it works; when the set-up fails after the first operation, or the restoring one does,
  raw mode stays on, because the early returns of \<open>run\<close> skip the rest.\<close>

theorem terminal_restored:
  assumes "\<not> term_raw t" "\<not> term_alternate t" "term_cursor t"
  shows "(ok_enter ops \<and> ok_new ops \<and> ok_disable_raw ops \<and> ok_leave ops \<and> ok_cursor ops \<longrightarrow>
      snd (monitor_run ops probe looped t) = t)
    \<and> (term_raw (snd (monitor_run ops probe looped t)) \<longleftrightarrow>
        (\<exists>s. probe = Inr s) \<and> ok_enable_raw ops \<and> \<not> (ok_enter ops \<and> ok_new ops \<and> ok_disable_raw ops))"
  using assms by (cases probe) (auto simp: monitor_run_def Let_def split_def)

theorem terminal_restored_witness:
  "let ops = \<lparr>ok_enable_raw = True, ok_enter = True, ok_new = True, ok_disable_raw = True, ok_leave = True, ok_cursor = True\<rparr>;
       t = \<lparr>term_raw = False, term_alternate = False, term_cursor = True\<rparr>
   in snd (monitor_run ops (Inr (snapshot 1 0 (stats_new Client [] [] [] 0 None))) (\<lambda>_. (False, False)) t) = t"
  using terminal_restored [of "\<lparr>term_raw = False, term_alternate = False, term_cursor = True\<rparr>"
    "\<lparr>ok_enable_raw = True, ok_enter = True, ok_new = True, ok_disable_raw = True, ok_leave = True, ok_cursor = True\<rparr>"]
  by simp

end
