(* ===== verification/Cli.thy ===== *)
theory Cli
  imports Control Noise_Handshake
begin

text \<open>
  The command line, \<open>src/src/main.rs\<close>: what each subcommand other than \<open>server\<close>, \<open>client\<close> and
  \<open>monitor\<close> prints and writes. Argument parsing is \<open>clap\<close>'s and starts from the values it
  yields. The printers \<open>println!\<close> and \<open>eprintln!\<close> give a list of lines each.
\<close>

datatype command =
    Genkey "string option" string
  | Pubkey "string option"
  | ServerCmd string string
  | ClientCmd string string
  | Status string bool
  | On string
  | Off string
  | Monitor string

definition default_filter :: "command \<Rightarrow> string" where
  "default_filter cmd =
     (case cmd of
        Status _ _ \<Rightarrow> ''warn'' | On _ \<Rightarrow> ''warn'' | Off _ \<Rightarrow> ''warn'' | Monitor _ \<Rightarrow> ''warn''
      | Genkey _ _ \<Rightarrow> ''warn'' | Pubkey _ \<Rightarrow> ''warn'' | _ \<Rightarrow> ''info'')"

datatype cli_error =
    CliCrypto crypto_error
  | CliConfig config_error
  | CliControl control_error
  | InvalidKeyName
  | ReadStdin
  | CliJson

record cli_out =
  out_stdout :: "string list"
  out_stderr :: "string list"

text \<open>\<open>str::contains\<close>.\<close>

fun has_infix :: "string \<Rightarrow> string \<Rightarrow> bool" where
  "has_infix pat [] \<longleftrightarrow> pat = []"
| "has_infix pat (c # s) \<longleftrightarrow> take (length pat) (c # s) = pat \<or> has_infix pat s"

definition cli_genkey ::
  "(bytes \<Rightarrow> string) \<Rightarrow> (bytes \<times> bytes) option \<Rightarrow> (host \<Rightarrow> string \<Rightarrow> host option)
     \<Rightarrow> string option \<Rightarrow> string \<Rightarrow> host \<Rightarrow> (cli_error + cli_out) \<times> host" where
  "cli_genkey b64_encode snow_pair create_dir_all write_dir name h =
     (case generate_keypair snow_pair of
        Inl e \<Rightarrow> (Inl (CliCrypto e), h)
      | Inr (privk, pubk) \<Rightarrow>
          (case write_dir of
             Some dir \<Rightarrow>
               if has_infix ''/'' name \<or> has_infix ''..'' name then (Inl InvalidKeyName, h)
               else (case write_keypair_files b64_encode create_dir_all h dir name privk pubk of
                   (Inl e, h) \<Rightarrow> (Inl (CliConfig e), h)
                 | (Inr (priv_path, pub_path), h) \<Rightarrow>
                     (Inr \<lparr>out_stdout = [priv_path],
                           out_stderr = [''wrote '' @ priv_path @ '' (mode 0600)'', ''wrote '' @ pub_path]\<rparr>, h))
           | None \<Rightarrow>
               (Inr \<lparr>out_stdout = [encode_key b64_encode privk], out_stderr = [encode_key b64_encode pubk]\<rparr>, h)))"

text \<open>\<open>stdin\<close> is the line read when no key is given; \<open>None\<close> is a read error.\<close>

definition cli_pubkey ::
  "(bytes \<Rightarrow> string) \<Rightarrow> (string \<Rightarrow> bytes option) \<Rightarrow> (bytes \<Rightarrow> bytes) \<Rightarrow> string option \<Rightarrow> string option
     \<Rightarrow> cli_error + cli_out" where
  "cli_pubkey b64_encode b64_decode x25519_public stdin private_key =
     (case (case private_key of Some k \<Rightarrow> Some k | None \<Rightarrow> stdin) of
        None \<Rightarrow> Inl ReadStdin
      | Some key \<Rightarrow>
          (case decode_key b64_decode key of
             Inl e \<Rightarrow> Inl (CliConfig e)
           | Inr privk \<Rightarrow>
               Inr \<lparr>out_stdout = [encode_key b64_encode (public_from_private x25519_public privk)], out_stderr = []\<rparr>))"

definition cli_status ::
  "codec \<Rightarrow> (status_snapshot \<Rightarrow> string option) \<Rightarrow> wall_clock \<Rightarrow> string \<Rightarrow> bool \<Rightarrow> (bytes \<Rightarrow> bytes) option
     \<Rightarrow> cli_error + cli_out" where
  "cli_status codec to_json wall control_socket json daemon =
     (case request codec control_socket daemon ''status'' of
        Inl e \<Rightarrow> Inl (CliControl e)
      | Inr snap \<Rightarrow>
          if json then (case to_json snap of None \<Rightarrow> Inl CliJson | Some s \<Rightarrow> Inr \<lparr>out_stdout = [s], out_stderr = []\<rparr>)
          else Inr \<lparr>out_stdout = [format_human wall snap], out_stderr = []\<rparr>)"

definition toggle_line :: "string \<Rightarrow> status_snapshot \<Rightarrow> string" where
  "toggle_line word snap =
     word @ ''  ['' @ (if ss_enabled snap then ''ON'' else ''OFF'') @ '']  tx='' @ show_nat (unat (ss_tx_packets snap))
       @ '' rx='' @ show_nat (unat (ss_rx_packets snap))"

definition cli_on :: "codec \<Rightarrow> string \<Rightarrow> (bytes \<Rightarrow> bytes) option \<Rightarrow> cli_error + cli_out" where
  "cli_on codec control_socket daemon =
     (case request codec control_socket daemon ''on'' of
        Inl e \<Rightarrow> Inl (CliControl e)
      | Inr snap \<Rightarrow> Inr \<lparr>out_stdout = [toggle_line ''enabled'' snap], out_stderr = []\<rparr>)"

definition cli_off :: "codec \<Rightarrow> string \<Rightarrow> (bytes \<Rightarrow> bytes) option \<Rightarrow> cli_error + cli_out" where
  "cli_off codec control_socket daemon =
     (case request codec control_socket daemon ''off'' of
        Inl e \<Rightarrow> Inl (CliControl e)
      | Inr snap \<Rightarrow> Inr \<lparr>out_stdout = [toggle_line ''disabled'' snap], out_stderr = []\<rparr>)"

section \<open>Properties\<close>

text \<open>\<open>genkey\<close> and \<open>pubkey\<close> fit together: the private key \<open>genkey\<close> prints, given to
  \<open>pubkey\<close> as its argument or piped in as a line, prints the public key \<open>genkey\<close> printed.\<close>

theorem genkey_pubkey_roundtrip:
  assumes "b64_lawful b64_encode b64_decode" "snow_pair = Some (privk, pubk)"
    and "length privk = 32" "pubk = x25519_public privk"
    and "cli_genkey b64_encode snow_pair create_dir_all None name h = (Inr out, h')"
  shows "h' = h \<and> (\<forall>arg stdin. arg = Some (hd (out_stdout out)) \<or> arg = None \<and> stdin = Some (hd (out_stdout out) @ [CHR 0x0A]) \<longrightarrow>
      cli_pubkey b64_encode b64_decode x25519_public stdin arg = Inr \<lparr>out_stdout = out_stderr out, out_stderr = []\<rparr>)"
proof -
  have out: "out = \<lparr>out_stdout = [encode_key b64_encode privk], out_stderr = [encode_key b64_encode pubk]\<rparr>" "h' = h"
    using assms(2,5) by (auto simp: cli_genkey_def generate_keypair_def)
  have "trim (encode_key b64_encode privk @ [CHR 0x0A]) = encode_key b64_encode privk"
    using assms(1) by (intro trim_newline) (simp add: b64_lawful_def encode_key_def)
  then have "decode_key b64_decode (encode_key b64_encode privk @ [CHR 0x0A]) = Inr privk"
    using assms(1,3) by (simp add: decode_key_def b64_lawful_def encode_key_def)
  then show ?thesis
    using decode_encode_key [OF assms(1,3)] assms(4) out by (auto simp: cli_pubkey_def public_from_private_def)
qed

lemma genkey_pubkey_roundtrip_witness:
  "cli_pubkey demo_hex demo_unhex rev None (Some (demo_hex (replicate 31 1 @ [2])))
    = Inr \<lparr>out_stdout = [demo_hex (2 # replicate 31 1)], out_stderr = []\<rparr>"
proof -
  let ?p = "replicate 31 (1 :: u8) @ [2]"
  have "cli_genkey demo_hex (Some (?p, rev ?p)) (\<lambda>h d. Some h) None ''key'' demo_host
      = (Inr \<lparr>out_stdout = [demo_hex ?p], out_stderr = [demo_hex (rev ?p)]\<rparr>, demo_host)"
    by (simp add: cli_genkey_def generate_keypair_def encode_key_def)
  note run = genkey_pubkey_roundtrip [where x25519_public = rev and privk = ?p and pubk = "rev ?p",
      OF demo_hex_lawful refl _ refl this]
  show ?thesis using run [THEN conjunct2, rule_format, of "Some (demo_hex ?p)" None] by simp
qed

lemma has_infix_append: "has_infix pat (a @ pat @ b)"
proof (induction a)
  case Nil
  show ?case by (cases pat; cases b) simp_all
next
  case (Cons c a)
  then show ?case by simp
qed

text \<open>A key name cannot leave the directory: \<open>genkey --write-dir\<close> with a name that contains a
  slash or two dots in a row writes nothing, and otherwise it touches at most the two files of the
  name directly in the directory.\<close>

theorem genkey_stays_in_dir:
  assumes "cli_genkey b64_encode snow_pair (\<lambda>h d. Some h) (Some dir) name h = (r, h')"
  shows "(CHR ''/'' \<in> set name \<or> (\<exists>a b. name = a @ ''..'' @ b) \<longrightarrow> h' = h \<and> isl r)
    \<and> (\<forall>q. files h' q \<noteq> files h q \<longrightarrow> q \<in> {path_join dir (name @ ''.priv''), path_join dir (name @ ''.pub'')})"
proof (intro conjI impI allI)
  assume "CHR ''/'' \<in> set name \<or> (\<exists>a b. name = a @ ''..'' @ b)"
  then have "has_infix ''/'' name \<or> has_infix ''..'' name"
  proof (elim disjE exE)
    assume "CHR ''/'' \<in> set name"
    then obtain a b where "name = a @ ''/'' @ b" by (auto simp: in_set_conv_decomp)
    then show ?thesis using has_infix_append by blast
  qed (use has_infix_append in blast)
  then show "h' = h" "isl r"
    using assms by (auto simp: cli_genkey_def split: sum.splits prod.splits)
next
  have wf: "files h2 q = files h1 q" if "fs_write h1 p c = Some h2" "q \<noteq> p" for h1 h2 p c q
    using that by (auto simp: fs_write_def split: if_splits)
  have mf: "files h2 q = files h1 q" if "fs_set_mode h1 p m = Some h2" "q \<noteq> p" for h1 h2 p m q
    using that by (auto simp: fs_set_mode_def split: if_splits option.splits)
  fix q
  assume "files h' q \<noteq> files h q"
  then show "q \<in> {path_join dir (name @ ''.priv''), path_join dir (name @ ''.pub'')}"
    using assms
    by (auto simp: cli_genkey_def write_keypair_files_def Let_def split: sum.splits prod.splits option.splits if_splits)
      (metis wf mf)+
qed

lemma genkey_stays_in_dir_witness:
  "snd (cli_genkey demo_hex (Some ([], [])) (\<lambda>h d. Some h) (Some ''/etc/soulvpn'') ''../passwd'' demo_host) = demo_host"
proof -
  have "\<exists>a b. ''../passwd'' = a @ ''..'' @ b" by (rule exI [of _ "[]"], rule exI [of _ "''/passwd''"]) simp
  with genkey_stays_in_dir [of demo_hex "Some ([], [])" "''/etc/soulvpn''" "''../passwd''" demo_host]
  show ?thesis by (metis prod.collapse)
qed

end
