(* ===== verification/Spec2Isabelle.thy ===== *)
theory Spec2Isabelle
  imports Packet Tun_Dev Server_Props Server_Run Control Route_Props Client_Props Client_Gate Client_Run
    Tunnel End_To_End Monitor Dashboard Cli
begin

text \<open>
  soulvpn: a system-wide VPN over UDP with the Noise IK handshake, by one binary that is the server,
  the client, the control command line and a dashboard. The development translates the Rust sources
  under \<open>src/src/\<close> into executable definitions and proves what makes each part, and the parts
  together, correct.

  The program and how its parts interact. A client reads IP packets from its TUN device, seals them in
  a data session and sends them to the server, which opens them, checks the inner source address
  against the peer's configured one and writes them to its own TUN device; packets for a peer's
  tunnel address go the other way. Sessions come from handshakes, which the server admits through a
  rate limiter and files in a session table under a mutex that its tasks share. Each process serves a
  Unix socket with status, on and off. The client moves the default route into the tunnel and can add
  a kill switch, an IPv6 block and a resolver; the server can set up NAT. All of that is undone by
  guards when their values are dropped.

  Theories and sources.
    Vpn_Prelude: machine types, time, hash maps (locale \<open>hash_map\<close>, interpreted on association lists),
      reachability and the locale \<open>invariant_system\<close>.
    Rust_Text, Net_Addr, Host: what the program uses of the standard library: printing and parsing of
      numbers, trimming and splitting, addresses and netmasks, files with permission bits.
    Replay_Window, Noise_Session, Noise_Handshake: \<open>crypto.rs\<close>. \<open>replay_window\<close> is the struct with its
      sixteen words; \<open>encrypt\<close>, \<open>decrypt\<close>, \<open>write_init\<close>, \<open>initiator_finish\<close>, \<open>responder_finish\<close> and
      \<open>random_session_index\<close> are the methods of that name.
    Packet, Tun_Dev: \<open>packet.rs\<close>, \<open>tun_dev.rs\<close>.
    Config: \<open>config.rs\<close>: the two configurations, their checks, key files.
    Stats: \<open>stats.rs\<close>: counters, snapshots, texts.
    Rate_Limit, Server_State, Server, Server_Steps, Server_Props, Server_Run: \<open>server.rs\<close>: the limiter;
      the shared state and each section that runs under its mutex; the tasks as handlers; the tasks
      interleaved (\<open>server_step\<close>); the properties; start-up from the configuration file and shutdown.
    Control: \<open>control.rs\<close>: frames, requests, replies and the hook.
    Route, Route_Props: \<open>route.rs\<close>: commands, guards, install, teardown, re-enable.
    Client, Client_Gate, Client_Props, Client_Run: \<open>client.rs\<close>: handshake loop, tasks, start-up; the
      contention for the receive gate (\<open>gate_step\<close>); switching on and off (\<open>toggle_step\<close>); the life
      of the process.
    Tunnel, End_To_End: the composition of client and server (\<open>tunnel_up\<close>, \<open>linked\<close>), in the end from
      the two configuration files.
    Monitor, Dashboard: \<open>monitor.rs\<close>: rates, keys, loop; what is drawn, the terminal modes.
    Cli: \<open>main.rs\<close>: the subcommands and what they print.

  What the groups of lemmas show.
    Sessions: the bitmap refines the set of recent nonces, a window accepts exactly what is fresh, no
      nonce is opened or used for sealing twice, a sealed packet opens on the other side.
    Handshakes and table: both ends agree on index and keys; the table is consistent in every
      interleaving of the tasks and bounded by the peers; a refusal changes nothing.
    Policy: what is written to the TUN device has the source of a configured peer, from the
      configuration file on; packets leave only for the session of their destination; the answer
      address moves only with authentication; the limiter admits exactly what it should.
    Composition: the client connects through a lossy network and packets pass in both directions while
      the sessions stay linked, also from two configuration files with matching keys on.
    Machine state: the host route precedes the default route, a kill switch that reports success blocks
      clearnet, NAT and DNS are restored, and over the whole life of the client a route stays only when
      its own delete command failed (\<open>undeleted\<close>, read off the log of the commands).
    Limits of the design: the properties of kind error, and the two on the receive gate, state where
      the code does not do what it means to, each as a theorem about the code as it is.

  Modelling choices. Errors are values of sums; a hash map is an association list whose order stands
  for the unspecified iteration order; a section of code that holds the mutex is one step. Machine
  integers keep their width, counters wrap. Time is in nanoseconds, each reading of a clock is an
  argument. Random draws are a list, \<open>None\<close> says that a loop over them has not ended when they are used
  up, and \<open>alloc_index_first_fresh\<close> shows when it ends. \<open>handshake_loop\<close> has the code's own bound
  \<open>ATTEMPTS\<close> of ten. \<open>ui_rounds\<close> and \<open>server_step\<close> run for as long as the environment gives events. The
  doubles of the rates are rationals rounded to 53 bits.

  Parameters, for code that is not in the repository: the Noise implementation \<open>snow\<close>
  (\<open>handshake_api\<close>, one value for each random draw, and \<open>transport_api\<close>; \<open>ik_pair\<close>, \<open>ik_lawful\<close>,
  \<open>noise_lawful\<close> and \<open>remote_stable\<close> state what it documents, and the \<open>demo\<close> instances satisfy them),
  X25519, base64, TOML and JSON codecs, the crate \<open>tun\<close>, and the kernel behind \<open>ip\<close> and \<open>iptables\<close>
  (\<open>net_env\<close>; \<open>routing_lawful\<close> and \<open>firewall_lawful\<close>, with the kernel \<open>demo_net\<close>). The two laws say
  what a command that succeeds has done and that one that fails has done nothing; they assume of no
  command that it succeeds. The one query, of the default route, reads and is not in the log.

  Conditions that several properties on delivery share: the data plane is enabled on the sides that
  take part, the packet fits the datagram buffer, the sending nonce is not exhausted, and, from client
  to server, the session index is not 1 modulo 256 (\<open>index_one_mod_256_is_dead\<close>).

  Not modelled: how \<open>ratatui\<close> lays out and paints widgets, log output, argument parsing by \<open>clap\<close>,
  tokio's scheduler beyond the interleavings above, the accept loop of the control socket, the
  shutdown channel, and the test modules. The three client tasks are interleaved only where they
  contend for the receive gate; elsewhere a round of a task is one step, as it is under the lock.
\<close>

end
